(* ===== verification/Bridge_Prelude.thy ===== *)
theory Bridge_Prelude
  imports Complex_Main "HOL-Library.Sublist"
begin

text \<open>
  Shared vocabulary of the development: the outcome of running a piece of the bridge
  (it returns, it raises, or it never returns because an \<open>await\<close> is never resumed),
  stateful computations over such outcomes with their sequencing and \<open>try/except\<close>
  combinators, fallible pure computations as sums, and the list lemmas that the
  pipe model (lines split at the first newline) needs. The collections
  \<open>prog_simps\<close> and \<open>py_defs\<close> carry the component proofs.
\<close>

section \<open>Collections\<close>

named_theorems prog_simps "evaluation rules of the outcome combinators"
named_theorems py_defs "definitions of the modelled Python operations, to unfold"
named_theorems frame_simps "fields an operation leaves unchanged"

section \<open>Text and bytes\<close>

text \<open>
  Python \<open>str\<close> and \<open>bytes\<close> are both lists of \<open>char\<close> (a \<open>char\<close> is one byte):
  a \<open>str\<close> is represented by its UTF-8 encoding, so that \<open>str.encode()\<close> is the
  identity and \<open>bytes.decode()\<close> is a check of UTF-8 well-formedness.
\<close>

type_synonym pystr = string
type_synonym bytes = string

abbreviation newline :: char where
  "newline \<equiv> CHR 0x0A"

section \<open>Outcomes\<close>

datatype ('e, 'a) outcome = Returns 'a | Raises 'e | Blocks

type_synonym ('s, 'e, 'a) prog = "'s \<Rightarrow> ('e, 'a) outcome \<times> 's"

definition returns :: "'a \<Rightarrow> ('s, 'e, 'a) prog" where
  "returns a = (\<lambda>s. (Returns a, s))"

definition raises :: "'e \<Rightarrow> ('s, 'e, 'a) prog" where
  "raises e = (\<lambda>s. (Raises e, s))"

definition blocks :: "('s, 'e, 'a) prog" where
  "blocks = (\<lambda>s. (Blocks, s))"

definition then_do :: "('s, 'e, 'a) prog \<Rightarrow> ('a \<Rightarrow> ('s, 'e, 'b) prog) \<Rightarrow> ('s, 'e, 'b) prog" where
  "then_do m f = (\<lambda>s. case m s of
      (Returns a, s') \<Rightarrow> f a s'
    | (Raises e, s') \<Rightarrow> (Raises e, s')
    | (Blocks, s') \<Rightarrow> (Blocks, s'))"

definition try_except :: "('s, 'e, 'a) prog \<Rightarrow> ('e \<Rightarrow> ('s, 'e, 'a) prog) \<Rightarrow> ('s, 'e, 'a) prog" where
  "try_except m h = (\<lambda>s. case m s of
      (Returns a, s') \<Rightarrow> (Returns a, s')
    | (Raises e, s') \<Rightarrow> h e s'
    | (Blocks, s') \<Rightarrow> (Blocks, s'))"

definition lift_result :: "'e + 'a \<Rightarrow> ('s, 'e, 'a) prog" where
  "lift_result r = (case r of Inl e \<Rightarrow> raises e | Inr a \<Rightarrow> returns a)"

definition r_bind :: "'e + 'a \<Rightarrow> ('a \<Rightarrow> 'e + 'b) \<Rightarrow> 'e + 'b" where
  "r_bind r f = (case r of Inl e \<Rightarrow> Inl e | Inr a \<Rightarrow> f a)"

definition in_part :: "('t \<Rightarrow> 's) \<Rightarrow> ('s \<Rightarrow> 't \<Rightarrow> 't) \<Rightarrow> ('s, 'e, 'a) prog \<Rightarrow> ('t, 'e, 'a) prog" where
  "in_part get put m = (\<lambda>t. case m (get t) of (r, s') \<Rightarrow> (r, put s' t))"

definition modify :: "('s \<Rightarrow> 's) \<Rightarrow> ('s, 'e, unit) prog" where
  "modify f = (\<lambda>s. (Returns (), f s))"

definition never_raises :: "('e, 'a) outcome \<Rightarrow> bool" where
  "never_raises r = (case r of Raises _ \<Rightarrow> False | _ \<Rightarrow> True)"

section \<open>Evaluation rules\<close>

lemma returns_apply [prog_simps, simp]: "returns a s = (Returns a, s)"
  by (simp add: returns_def)

lemma raises_apply [prog_simps, simp]: "raises e s = (Raises e, s)"
  by (simp add: raises_def)

lemma blocks_apply [prog_simps, simp]: "blocks s = (Blocks, s)"
  by (simp add: blocks_def)

lemma modify_apply [prog_simps, simp]: "modify f s = (Returns (), f s)"
  by (simp add: modify_def)

lemma then_do_Returns [prog_simps]:
  "m s = (Returns a, s') \<Longrightarrow> then_do m f s = f a s'"
  by (simp add: then_do_def)

lemma then_do_Raises [prog_simps]:
  "m s = (Raises e, s') \<Longrightarrow> then_do m f s = (Raises e, s')"
  by (simp add: then_do_def)

lemma then_do_Blocks [prog_simps]:
  "m s = (Blocks, s') \<Longrightarrow> then_do m f s = (Blocks, s')"
  by (simp add: then_do_def)

lemma try_except_Returns [prog_simps]:
  "m s = (Returns a, s') \<Longrightarrow> try_except m h s = (Returns a, s')"
  by (simp add: try_except_def)

lemma try_except_Raises [prog_simps]:
  "m s = (Raises e, s') \<Longrightarrow> try_except m h s = h e s'"
  by (simp add: try_except_def)

lemma try_except_Blocks [prog_simps]:
  "m s = (Blocks, s') \<Longrightarrow> try_except m h s = (Blocks, s')"
  by (simp add: try_except_def)

lemma lift_result_Inl [prog_simps, simp]: "lift_result (Inl e) s = (Raises e, s)"
  by (simp add: lift_result_def)

lemma lift_result_Inr [prog_simps, simp]: "lift_result (Inr a) s = (Returns a, s)"
  by (simp add: lift_result_def)

lemma r_bind_Inl [prog_simps, simp]: "r_bind (Inl e) f = Inl e"
  by (simp add: r_bind_def)

lemma r_bind_Inr [prog_simps, simp]: "r_bind (Inr a) f = f a"
  by (simp add: r_bind_def)

lemma in_part_apply [prog_simps]:
  "m (get t) = (r, s') \<Longrightarrow> in_part get put m t = (r, put s' t)"
  by (simp add: in_part_def)

lemma never_raises_simps [simp]:
  "never_raises (Returns a)" "\<not> never_raises (Raises e)" "never_raises Blocks"
  by (simp_all add: never_raises_def)

lemma never_raises_iff: "never_raises r \<longleftrightarrow> (\<forall>e. r \<noteq> Raises e)"
  by (cases r) auto

section \<open>Laws of the combinators\<close>

lemma then_do_returns_left [simp]: "then_do (returns a) f = f a"
  by (simp add: then_do_def fun_eq_iff)

lemma then_do_returns_right [simp]: "then_do m returns = m"
  by (auto simp: then_do_def fun_eq_iff split: prod.splits outcome.splits)

lemma then_do_raises_left [simp]: "then_do (raises e) f = raises e"
  by (simp add: then_do_def fun_eq_iff)

lemma then_do_blocks_left [simp]: "then_do blocks f = blocks"
  by (simp add: then_do_def fun_eq_iff)

lemma then_do_assoc: "then_do (then_do m f) g = then_do m (\<lambda>a. then_do (f a) g)"
  by (auto simp: then_do_def fun_eq_iff split: prod.splits outcome.splits)

lemma try_except_returns [simp]: "try_except (returns a) h = returns a"
  by (simp add: try_except_def fun_eq_iff)

lemma try_except_raises [simp]: "try_except (raises e) h = h e"
  by (simp add: try_except_def fun_eq_iff)

lemma try_except_reraise [simp]: "try_except m raises = m"
  by (auto simp: try_except_def fun_eq_iff split: prod.splits outcome.splits)

text \<open>
  A handler that itself never raises turns any computation into one that never raises:
  the shape of every \<open>try: ... except Exception as e: return ...\<close> of the bridge.
\<close>

lemma try_except_never_raises:
  assumes "\<And>e s. never_raises (fst (h e s))"
  shows "never_raises (fst (try_except m h s))"
  using assms by (auto simp: try_except_def split: prod.splits outcome.splits)

lemma then_do_cases:
  obtains (ret) a s' where "m s = (Returns a, s')" "then_do m f s = f a s'"
  | (exc) e s' where "m s = (Raises e, s')" "then_do m f s = (Raises e, s')"
  | (blk) s' where "m s = (Blocks, s')" "then_do m f s = (Blocks, s')"
  by (cases "m s" rule: prod.exhaust; rename_tac r s'; case_tac r)
    (auto simp: then_do_def)

lemma then_do_eq_Returns:
  "then_do m f s = (Returns b, t) \<longleftrightarrow> (\<exists>a s'. m s = (Returns a, s') \<and> f a s' = (Returns b, t))"
  by (auto simp: then_do_def split: prod.splits outcome.splits)

lemma r_bind_eq_Inr:
  "r_bind r f = Inr b \<longleftrightarrow> (\<exists>a. r = Inr a \<and> f a = Inr b)"
  by (cases r) auto

lemma r_bind_assoc: "r_bind (r_bind r f) g = r_bind r (\<lambda>a. r_bind (f a) g)"
  by (cases r) auto

text \<open>A pure step at the end of a sequence leaves the state of the step before it.\<close>

lemma snd_lift_result [simp]: "snd (lift_result r s) = s"
  by (cases r) simp_all

lemma snd_then_do_pure:
  assumes "\<And>x t. snd (f x t) = t"
  shows "snd (then_do m f s) = snd (m s)"
  using assms by (auto simp: then_do_def split: prod.splits outcome.splits)

lemma snd_then_do_lift [simp]: "snd (then_do m (\<lambda>x. lift_result (g x)) s) = snd (m s)"
  by (rule snd_then_do_pure) simp

lemma snd_try_except_pure:
  assumes "\<And>e t. snd (h e t) = t"
  shows "snd (try_except m h s) = snd (m s)"
  using assms by (auto simp: try_except_def split: prod.splits outcome.splits)

lemma fst_then_do_Blocks:
  "fst (then_do m f s) = Blocks \<longleftrightarrow>
     fst (m s) = Blocks \<or> (\<exists>a. fst (m s) = Returns a \<and> fst (f a (snd (m s))) = Blocks)"
  by (auto simp: then_do_def split: prod.splits outcome.splits)

lemma fst_then_do_Raises:
  "fst (then_do m f s) = Raises e \<longleftrightarrow>
     fst (m s) = Raises e \<or> (\<exists>a. fst (m s) = Returns a \<and> fst (f a (snd (m s))) = Raises e)"
  by (auto simp: then_do_def split: prod.splits outcome.splits)

text \<open>A property of the state that every step establishes holds after the sequence.\<close>

lemma then_do_invariant:
  assumes "P (snd (m s))" and "\<And>a s'. P s' \<Longrightarrow> P (snd (f a s'))"
  shows "P (snd (then_do m f s))"
  using assms by (auto simp: then_do_def split: prod.splits outcome.splits)

section \<open>Lists of bytes\<close>

lemma takeWhile_neq_append [simp]:
  "c \<notin> set l \<Longrightarrow> takeWhile (\<lambda>x. x \<noteq> c) (l @ c # rest) = l"
  by (induction l) auto

lemma dropWhile_neq_append [simp]:
  "c \<notin> set l \<Longrightarrow> dropWhile (\<lambda>x. x \<noteq> c) (l @ c # rest) = c # rest"
  by (induction l) auto

lemma split_at_first:
  assumes "c \<in> set xs"
  shows "xs = takeWhile (\<lambda>x. x \<noteq> c) xs @ c # tl (dropWhile (\<lambda>x. x \<noteq> c) xs)"
proof -
  from assms have "dropWhile (\<lambda>x. x \<noteq> c) xs \<noteq> []"
    by simp
  then obtain y ys where d: "dropWhile (\<lambda>x. x \<noteq> c) xs = y # ys"
    by (cases "dropWhile (\<lambda>x. x \<noteq> c) xs") auto
  then have "y = c"
    using hd_dropWhile [of "\<lambda>x. x \<noteq> c" xs] by auto
  with d show ?thesis
    using takeWhile_dropWhile_id [of "\<lambda>x. x \<noteq> c" xs] by simp
qed

lemma not_in_takeWhile_neq [simp]: "c \<notin> set (takeWhile (\<lambda>x. x \<noteq> c) xs)"
  by (induction xs) auto

lemma count_list_append [simp]:
  "count_list (xs @ ys) c = count_list xs c + count_list ys c"
  by (induction xs) auto

lemma count_list_0_iff_notin: "count_list xs c = 0 \<longleftrightarrow> c \<notin> set xs"
  by (induction xs) auto

end
