(* ===== verification/Py_Value.thy ===== *)
theory Py_Value
  imports Bridge_Prelude
begin

text \<open>
  The Python values the bridge handles and the built-in operations it applies to them.
  Every value that flows through \<open>src/mcp-client.py\<close> is JSON-shaped: the configuration
  (\<open>json.load\<close>), the requests it builds (dict literals), the responses it reads
  (\<open>json.loads\<close>). \<open>py\<close> is the type of these values, \<open>exn\<close> the exceptions the
  code raises or provokes, and each operation (\<open>x.get(k, d)\<close>, \<open>k in x\<close>, \<open>x[k]\<close>,
  \<open>not x\<close>, \<open>[c] + args\<close>, \<open>bytes.decode()\<close>, \<open>str.strip()\<close>) is a total function
  that returns the exception Python would raise on an operand of the wrong type.
  The \<open>json\<close> module is an interface (\<open>codec\<close>): the components are stated over any
  implementation of it, and \<open>Json_Codec\<close> models the module itself.
\<close>

section \<open>Values\<close>

datatype pyfloat = Finite real | PosInf | NegInf | NaN

datatype py =
    PyNone
  | PyBool bool
  | PyInt int
  | PyFloat pyfloat
  | PyStr pystr
  | PyList "py list"
  | PyDict "(pystr \<times> py) list"

text \<open>
  A dict is an association list in insertion order (\<open>list(d.keys())[0]\<close> is observable).
  Python dicts have unique keys; \<open>wf_py\<close> says so, and lookups read the first binding.
\<close>

fun wf_py :: "py \<Rightarrow> bool" where
  "wf_py (PyList xs) = (\<forall>x \<in> set xs. wf_py x)"
| "wf_py (PyDict kvs) = (distinct (map fst kvs) \<and> (\<forall>v \<in> set (map snd kvs). wf_py v))"
| "wf_py _ = True"

section \<open>Exceptions\<close>

text \<open>
  \<open>Exception\<close> and \<open>HTTPException\<close> are raised by the source itself and carry their
  arguments; the others are raised by the interpreter or the libraries and are kept by
  class. All of them are subclasses of Python's \<open>Exception\<close>, so every
  \<open>except Exception\<close> of the source catches every value of this type.
\<close>

datatype exn =
    Exception pystr
  | HTTPException int py
  | AttributeError
  | TypeError
  | KeyError pystr
  | IndexError
  | ValueError
  | JSONDecodeError
  | UnicodeDecodeError
  | FileNotFoundError
  | ConnectionResetError
  | ProcessLookupError
  | RuntimeError
  | RecursionError

type_synonym 'a result = "exn + 'a"
type_synonym ('s, 'a) action = "('s, exn, 'a) prog"

section \<open>Built-in operations\<close>

fun truthy :: "py \<Rightarrow> bool" where
  "truthy PyNone = False"
| "truthy (PyBool b) = b"
| "truthy (PyInt i) = (i \<noteq> 0)"
| "truthy (PyFloat (Finite r)) = (r \<noteq> 0)"
| "truthy (PyFloat _) = True"
| "truthy (PyStr s) = (s \<noteq> [])"
| "truthy (PyList xs) = (xs \<noteq> [])"
| "truthy (PyDict kvs) = (kvs \<noteq> [])"

fun dict_get :: "py \<Rightarrow> pystr \<Rightarrow> py \<Rightarrow> py result" where
  "dict_get (PyDict kvs) k d = Inr (case map_of kvs k of Some v \<Rightarrow> v | None \<Rightarrow> d)"
| "dict_get _ k d = Inl AttributeError"

fun contains :: "pystr \<Rightarrow> py \<Rightarrow> bool result" where
  "contains k (PyDict kvs) = Inr (k \<in> set (map fst kvs))"
| "contains k (PyList xs) = Inr (PyStr k \<in> set xs)"
| "contains k (PyStr s) = Inr (sublist k s)"
| "contains k _ = Inl TypeError"

fun getitem :: "py \<Rightarrow> pystr \<Rightarrow> py result" where
  "getitem (PyDict kvs) k = (case map_of kvs k of Some v \<Rightarrow> Inr v | None \<Rightarrow> Inl (KeyError k))"
| "getitem _ k = Inl TypeError"

fun first_key :: "py \<Rightarrow> pystr result" where
  "first_key (PyDict []) = Inl IndexError"
| "first_key (PyDict ((k, v) # kvs)) = Inr k"
| "first_key _ = Inl AttributeError"

fun list_concat :: "py list \<Rightarrow> py \<Rightarrow> py list result" where
  "list_concat xs (PyList ys) = Inr (xs @ ys)"
| "list_concat xs _ = Inl TypeError"

fun is_str :: "py \<Rightarrow> bool" where
  "is_str (PyStr s) = True"
| "is_str _ = False"

fun the_str :: "py \<Rightarrow> pystr" where
  "the_str (PyStr s) = s"
| "the_str _ = []"

fun is_dict :: "py \<Rightarrow> bool" where
  "is_dict (PyDict kvs) = True"
| "is_dict _ = False"

section \<open>Text\<close>

definition in_range :: "nat \<Rightarrow> nat \<Rightarrow> char \<Rightarrow> bool" where
  "in_range lo hi c = (lo \<le> of_char c \<and> (of_char c :: nat) \<le> hi)"

text \<open>Well-formed UTF-8 (no overlong forms, no surrogates, nothing above U+10FFFF).\<close>

fun utf8_valid :: "bytes \<Rightarrow> bool" where
  "utf8_valid [] = True"
| "utf8_valid (b # bs) =
    (if in_range 0x00 0x7F b then utf8_valid bs
     else if in_range 0xC2 0xDF b then
       (case bs of c1 # r \<Rightarrow> in_range 0x80 0xBF c1 \<and> utf8_valid r | _ \<Rightarrow> False)
     else if in_range 0xE0 0xEF b then
       (case bs of c1 # c2 # r \<Rightarrow>
            in_range (if b = CHR 0xE0 then 0xA0 else 0x80) (if b = CHR 0xED then 0x9F else 0xBF) c1
          \<and> in_range 0x80 0xBF c2 \<and> utf8_valid r
        | _ \<Rightarrow> False)
     else if in_range 0xF0 0xF4 b then
       (case bs of c1 # c2 # c3 # r \<Rightarrow>
            in_range (if b = CHR 0xF0 then 0x90 else 0x80) (if b = CHR 0xF4 then 0x8F else 0xBF) c1
          \<and> in_range 0x80 0xBF c2 \<and> in_range 0x80 0xBF c3 \<and> utf8_valid r
        | _ \<Rightarrow> False)
     else False)"

definition encode :: "pystr \<Rightarrow> bytes" where
  "encode s = s"

definition decode :: "bytes \<Rightarrow> pystr result" where
  "decode b = (if utf8_valid b then Inr b else Inl UnicodeDecodeError)"

text \<open>
  The characters for which \<open>str.isspace()\<close> holds, in UTF-8: U+0009 to U+000D,
  U+001C to U+0020, U+0085, U+00A0, U+1680, U+2000 to U+200A, U+2028, U+2029, U+202F,
  U+205F, U+3000.
\<close>

definition py_whitespace :: "bytes list" where
  "py_whitespace =
    [[CHR 0x09], [CHR 0x0A], [CHR 0x0B], [CHR 0x0C], [CHR 0x0D],
     [CHR 0x1C], [CHR 0x1D], [CHR 0x1E], [CHR 0x1F], [CHR 0x20],
     [CHR 0xC2, CHR 0x85], [CHR 0xC2, CHR 0xA0], [CHR 0xE1, CHR 0x9A, CHR 0x80],
     [CHR 0xE2, CHR 0x80, CHR 0x80], [CHR 0xE2, CHR 0x80, CHR 0x81],
     [CHR 0xE2, CHR 0x80, CHR 0x82], [CHR 0xE2, CHR 0x80, CHR 0x83],
     [CHR 0xE2, CHR 0x80, CHR 0x84], [CHR 0xE2, CHR 0x80, CHR 0x85],
     [CHR 0xE2, CHR 0x80, CHR 0x86], [CHR 0xE2, CHR 0x80, CHR 0x87],
     [CHR 0xE2, CHR 0x80, CHR 0x88], [CHR 0xE2, CHR 0x80, CHR 0x89],
     [CHR 0xE2, CHR 0x80, CHR 0x8A], [CHR 0xE2, CHR 0x80, CHR 0xA8],
     [CHR 0xE2, CHR 0x80, CHR 0xA9], [CHR 0xE2, CHR 0x80, CHR 0xAF],
     [CHR 0xE2, CHR 0x81, CHR 0x9F], [CHR 0xE3, CHR 0x80, CHR 0x80]]"

function lstrip_by :: "bytes list \<Rightarrow> bytes \<Rightarrow> bytes" where
  "lstrip_by ws s =
     (case find (\<lambda>w. w \<noteq> [] \<and> prefix w s) ws of
        None \<Rightarrow> s
      | Some w \<Rightarrow> lstrip_by ws (drop (length w) s))"
  by pat_completeness auto
termination
proof (relation "measure (\<lambda>(ws, s). length s)")
  fix ws s w
  assume "find (\<lambda>w. w \<noteq> [] \<and> prefix w s) ws = Some w"
  then have "w \<noteq> []" "prefix w s" by (auto simp: find_Some_iff)
  then show "((ws, drop (length w) s), (ws, s)) \<in> measure (\<lambda>(ws, s). length s)"
    by (cases s) (auto simp: prefix_def)
qed simp

declare lstrip_by.simps [simp del]

definition lstrip :: "pystr \<Rightarrow> pystr" where
  "lstrip s = lstrip_by py_whitespace s"

definition rstrip :: "pystr \<Rightarrow> pystr" where
  "rstrip s = rev (lstrip_by (map rev py_whitespace) (rev s))"

definition strip :: "pystr \<Rightarrow> pystr" where
  "strip s = rstrip (lstrip s)"

section \<open>The json module as an interface\<close>

record codec =
  dumps :: "py \<Rightarrow> pystr"
  loads :: "pystr \<Rightarrow> py result"

lemmas py_ops [py_defs] = encode_def decode_def strip_def lstrip_def rstrip_def in_range_def

section \<open>Lemmas on the operations\<close>

lemma dict_get_eq_Inr: "dict_get x k d = Inr v \<longleftrightarrow>
    (\<exists>kvs. x = PyDict kvs \<and> v = (case map_of kvs k of Some v \<Rightarrow> v | None \<Rightarrow> d))"
  by (cases x) auto

lemma dict_get_not_dict [simp]: "\<not> is_dict x \<Longrightarrow> dict_get x k d = Inl AttributeError"
  by (cases x) auto

lemma dict_get_never_KeyError: "dict_get x k d \<noteq> Inl (KeyError k')"
  by (cases x) auto

lemma contains_eq_Inr: "contains k x = Inr b \<Longrightarrow>
    (\<exists>kvs. x = PyDict kvs \<and> b = (k \<in> fst ` set kvs))
  \<or> (\<exists>xs. x = PyList xs \<and> b = (PyStr k \<in> set xs))
  \<or> (\<exists>s. x = PyStr s \<and> b = sublist k s)"
  by (cases x) auto

lemma getitem_eq_Inr: "getitem x k = Inr v \<longleftrightarrow> (\<exists>kvs. x = PyDict kvs \<and> map_of kvs k = Some v)"
  by (cases x) (auto split: option.splits)

text \<open>On a dict, \<open>x[k]\<close> after \<open>k in x\<close> does not raise; on a list or a string it does.\<close>

lemma getitem_after_contains:
  "is_dict x \<Longrightarrow> contains k x = Inr True \<Longrightarrow> \<exists>v. getitem x k = Inr v"
  by (cases x) (auto simp: map_of_eq_None_iff split: option.splits)

lemma getitem_not_dict [simp]: "\<not> is_dict x \<Longrightarrow> getitem x k = Inl TypeError"
  by (cases x) auto

lemma first_key_truthy_dict:
  "is_dict x \<Longrightarrow> truthy x \<Longrightarrow> \<exists>k. first_key x = Inr k \<and> (\<exists>v. getitem x k = Inr v)"
proof (cases x)
  case (PyDict kvs)
  assume "truthy x"
  with PyDict obtain k v r where "kvs = (k, v) # r" by (cases kvs) auto
  with PyDict show ?thesis by simp
qed simp_all

lemma first_key_not_dict [simp]: "\<not> is_dict x \<Longrightarrow> first_key x = Inl AttributeError"
  by (cases x) auto

lemma wf_py_lookup: "wf_py (PyDict kvs) \<Longrightarrow> map_of kvs k = Some v \<Longrightarrow> wf_py v"
  by (auto dest!: map_of_SomeD)

lemma wf_py_dict_get: "wf_py x \<Longrightarrow> wf_py d \<Longrightarrow> dict_get x k d = Inr v \<Longrightarrow> wf_py v"
  by (cases x) (auto split: option.splits dest: wf_py_lookup [rotated])

section \<open>Lemmas on text\<close>

lemma utf8_valid_ascii: "\<forall>c \<in> set s. (of_char c :: nat) < 128 \<Longrightarrow> utf8_valid s"
  by (induction s) (auto simp: in_range_def)

lemma decode_ascii: "\<forall>c \<in> set s. (of_char c :: nat) < 128 \<Longrightarrow> decode s = Inr s"
  by (simp add: decode_def utf8_valid_ascii)

lemma decode_eq_Inr: "decode b = Inr s \<longleftrightarrow> utf8_valid b \<and> s = b"
  by (auto simp: decode_def)

lemma decode_eq_Inl: "decode b = Inl e \<longleftrightarrow> \<not> utf8_valid b \<and> e = UnicodeDecodeError"
  by (auto simp: decode_def)

lemma decode_empty [simp]: "decode [] = Inr []"
  by (simp add: decode_def)

lemma lstrip_by_Nil [simp]: "lstrip_by ws [] = []"
  by (subst lstrip_by.simps) (auto split: option.splits simp: find_Some_iff)

lemma lstrip_by_suffix: "suffix (lstrip_by ws s) s"
proof (induction ws s rule: lstrip_by.induct)
  case (1 ws s)
  show ?case
  proof (cases "find (\<lambda>w. w \<noteq> [] \<and> prefix w s) ws")
    case None
    then show ?thesis by (subst lstrip_by.simps) simp
  next
    case (Some w)
    with "1.IH" have "suffix (lstrip_by ws (drop (length w) s)) (drop (length w) s)" by simp
    then have "suffix (lstrip_by ws (drop (length w) s)) s"
      by (rule suffix_order.trans) (rule suffix_drop)
    with Some show ?thesis by (subst lstrip_by.simps) simp
  qed
qed

lemma set_lstrip_by: "set (lstrip_by ws s) \<subseteq> set s"
  using lstrip_by_suffix [of ws s] by (rule set_mono_suffix)

lemma set_strip: "set (strip s) \<subseteq> set s"
proof -
  have "set (rstrip t) \<subseteq> set t" for t
    using set_lstrip_by [of "map rev py_whitespace" "rev t"] by (simp add: rstrip_def)
  then have "set (strip s) \<subseteq> set (lstrip s)" by (simp add: strip_def)
  also have "\<dots> \<subseteq> set s" by (simp add: lstrip_def set_lstrip_by)
  finally show ?thesis .
qed

lemma strip_empty [simp]: "strip [] = []"
  by (simp add: strip_def lstrip_def rstrip_def)

text \<open>
  A line of text that starts and ends with a visible ASCII character: \<open>strip\<close> removes its
  newline and nothing else.
\<close>

lemma lstrip_by_id:
  assumes "\<forall>w \<in> set ws. w \<noteq> [] \<longrightarrow> \<not> prefix w s"
  shows "lstrip_by ws s = s"
proof -
  from assms have "find (\<lambda>w. w \<noteq> [] \<and> prefix w s) ws = None" by (auto simp: find_None_iff)
  then show ?thesis by (subst lstrip_by.simps) simp
qed

lemma whitespace_heads:
  assumes "in_range 0x21 0x7E c"
  shows "\<forall>w \<in> set py_whitespace. \<not> prefix w (c # s)"
    and "\<forall>w \<in> set (map rev py_whitespace). \<not> prefix w (c # s)"
  using assms by (auto simp: py_whitespace_def in_range_def)

lemma strip_line:
  assumes "t \<noteq> []" and "in_range 0x21 0x7E (hd t)" and "in_range 0x21 0x7E (last t)"
  shows "strip (t @ [newline]) = t"
proof -
  from assms(1) obtain c cs where t: "t = c # cs" by (cases t) auto
  with assms(2) whitespace_heads(1) [of c "cs @ [newline]"] have "lstrip (t @ [newline]) = t @ [newline]"
    by (simp add: lstrip_def lstrip_by_id)
  moreover have "find (\<lambda>w. w \<noteq> [] \<and> prefix w (newline # rev t)) (map rev py_whitespace) = Some [newline]"
    by (simp add: py_whitespace_def)
  then have "lstrip_by (map rev py_whitespace) (newline # rev t) = lstrip_by (map rev py_whitespace) (rev t)"
    by (subst lstrip_by.simps) simp
  moreover from assms(1,3) whitespace_heads(2) [of "last t" "tl (rev t)"]
  have "lstrip_by (map rev py_whitespace) (rev t) = rev t"
    by (intro lstrip_by_id) (simp add: hd_rev [symmetric])
  ultimately show ?thesis by (simp add: strip_def rstrip_def)
qed

end
