(* ===== verification/Transport.thy ===== *)
theory Transport
  imports Py_Value
begin

text \<open>
  The child process and its pipes, as \<open>src/mcp-client.py\<close> uses them through
  \<open>asyncio\<close>: \<open>create_subprocess_exec\<close> (line 80), \<open>stdin.write\<close> and
  \<open>stdin.drain\<close> (lines 121, 122), \<open>stdout.readline\<close> (line 125), \<open>terminate\<close> and
  \<open>wait\<close> (lines 137, 138). This is the Transport Process Supervisor of the specification
  (section 4.1). The child is a \<open>server\<close>: a function from the chunks it has received on
  its standard input to what it does on the last of them (the bytes it prints, whether it
  exits). A \<open>Process\<close> is the parent's handle: the server, the chunks written so far, the
  bytes printed and not yet read, and whether the child has exited. The standard error
  pipe is created and never read by the source; it is not modelled.

  Chosen bounds: a chunk reaches the child when it is written, and the child's reaction is in
  the pipe before the next operation of the parent (no operation of the bridge observes a
  state in between); the event loop knows of the exit of a child at the parent's next
  operation. \<open>stream_limit\<close> is the default limit of an asyncio \<open>StreamReader\<close>.
\<close>

section \<open>State\<close>

record reaction =
  emits :: bytes
  exits :: bool

record server =
  react :: "bytes list \<Rightarrow> reaction"
  dies_on_sigterm :: bool

record Process =
  server :: server
  stdin_log :: "bytes list"
  stdout_buf :: bytes
  exited :: bool

record world =
  files :: "pystr \<Rightarrow> pystr option"
  programs :: "pystr list \<Rightarrow> server option"

definition stream_limit :: nat where
  "stream_limit = 65536"

section \<open>Operations\<close>

definition started :: "server \<Rightarrow> Process" where
  "started srv =
     \<lparr>server = srv, stdin_log = [], stdout_buf = emits (react srv []),
      exited = exits (react srv [])\<rparr>"

definition create_subprocess_exec :: "world \<Rightarrow> py list \<Rightarrow> Process result" where
  "create_subprocess_exec w argv =
     (if \<not> list_all is_str argv then Inl TypeError
      else case programs w (map the_str argv) of
             None \<Rightarrow> Inl FileNotFoundError
           | Some srv \<Rightarrow> Inr (started srv))"

definition deliver :: "bytes \<Rightarrow> Process \<Rightarrow> Process" where
  "deliver data p =
     (let chunks = stdin_log p @ [data]; r = react (server p) chunks
      in p\<lparr>stdin_log := chunks, stdout_buf := stdout_buf p @ emits r, exited := exits r\<rparr>)"

definition write_drain :: "bytes \<Rightarrow> (Process, unit) action" where
  "write_drain data p =
     (if exited p then (Raises ConnectionResetError, p) else (Returns (), deliver data p))"

definition readline :: "(Process, bytes) action" where
  "readline p =
     (let buf = stdout_buf p in
      if newline \<in> set buf then
        (let line = takeWhile (\<lambda>c. c \<noteq> newline) buf;
             rest = tl (dropWhile (\<lambda>c. c \<noteq> newline) buf)
         in if stream_limit < length line then (Raises ValueError, p\<lparr>stdout_buf := rest\<rparr>)
            else (Returns (line @ [newline]), p\<lparr>stdout_buf := rest\<rparr>))
      else if stream_limit < length buf then (Raises ValueError, p\<lparr>stdout_buf := []\<rparr>)
      else if exited p then (Returns buf, p\<lparr>stdout_buf := []\<rparr>)
      else (Blocks, p))"

definition terminate :: "(Process, unit) action" where
  "terminate p =
     (if exited p then (Raises ProcessLookupError, p)
      else (Returns (), if dies_on_sigterm (server p) then p\<lparr>exited := True\<rparr> else p))"

definition wait :: "(Process, unit) action" where
  "wait p = (if exited p then (Returns (), p) else (Blocks, p))"

lemmas transport_defs [py_defs] =
  started_def create_subprocess_exec_def deliver_def write_drain_def readline_def
  terminate_def wait_def

section \<open>Spawning\<close>

lemma create_subprocess_exec_eq_Inr:
  "create_subprocess_exec w argv = Inr p \<longleftrightarrow>
     list_all is_str argv \<and> (\<exists>srv. programs w (map the_str argv) = Some srv \<and> p = started srv)"
  by (auto simp: create_subprocess_exec_def split: option.splits)

lemma started_fields [simp]:
  "server (started srv) = srv" "stdin_log (started srv) = []"
  "stdout_buf (started srv) = emits (react srv [])" "exited (started srv) = exits (react srv [])"
  by (simp_all add: started_def)

section \<open>Writing\<close>

lemma write_drain_exited [simp]:
  "exited p \<Longrightarrow> write_drain data p = (Raises ConnectionResetError, p)"
  by (simp add: write_drain_def)

lemma write_drain_alive [simp]:
  "\<not> exited p \<Longrightarrow> write_drain data p = (Returns (), deliver data p)"
  by (simp add: write_drain_def)

lemma deliver_fields [simp]:
  "server (deliver data p) = server p"
  "stdin_log (deliver data p) = stdin_log p @ [data]"
  "stdout_buf (deliver data p) = stdout_buf p @ emits (react (server p) (stdin_log p @ [data]))"
  "exited (deliver data p) = exits (react (server p) (stdin_log p @ [data]))"
  by (simp_all add: deliver_def Let_def)

lemma write_drain_never_blocks: "fst (write_drain data p) \<noteq> Blocks"
  by (simp add: write_drain_def)

lemma write_drain_server [frame_simps, simp]: "server (snd (write_drain data p)) = server p"
  by (simp add: write_drain_def)

lemma write_drain_log:
  "stdin_log (snd (write_drain data p)) = (if exited p then stdin_log p else stdin_log p @ [data])"
  by (simp add: write_drain_def)

section \<open>Reading\<close>

text \<open>A complete line within the limit is returned with its terminator and consumed.\<close>

lemma readline_line:
  assumes "stdout_buf p = l @ newline # rest" and "newline \<notin> set l"
    and "length l \<le> stream_limit"
  shows "readline p = (Returns (l @ [newline]), p\<lparr>stdout_buf := rest\<rparr>)"
  using assms by (simp add: readline_def Let_def)

lemma readline_too_long:
  assumes "stdout_buf p = l @ newline # rest" and "newline \<notin> set l"
    and "stream_limit < length l"
  shows "readline p = (Raises ValueError, p\<lparr>stdout_buf := rest\<rparr>)"
  using assms by (simp add: readline_def Let_def)

text \<open>At end of stream the rest of the buffer is returned: \<open>b''\<close> when it is empty.\<close>

lemma readline_eof:
  assumes "exited p" and "newline \<notin> set (stdout_buf p)"
    and "length (stdout_buf p) \<le> stream_limit"
  shows "readline p = (Returns (stdout_buf p), p\<lparr>stdout_buf := []\<rparr>)"
  using assms by (simp add: readline_def Let_def)

lemma readline_Blocks_iff:
  "fst (readline p) = Blocks \<longleftrightarrow>
     \<not> exited p \<and> newline \<notin> set (stdout_buf p) \<and> length (stdout_buf p) \<le> stream_limit"
  by (auto simp: readline_def Let_def)

lemma readline_Blocks_state: "readline p = (Blocks, p') \<Longrightarrow> p' = p"
  by (auto simp: readline_def Let_def split: if_splits)

lemma readline_Returns_cases:
  assumes "readline p = (Returns b, p')"
  obtains (line) l rest where "stdout_buf p = l @ newline # rest" "newline \<notin> set l"
      "b = l @ [newline]" "p' = p\<lparr>stdout_buf := rest\<rparr>"
  | (eof) "exited p" "newline \<notin> set (stdout_buf p)" "b = stdout_buf p"
      "p' = p\<lparr>stdout_buf := []\<rparr>"
proof (cases "newline \<in> set (stdout_buf p)")
  case True
  let ?l = "takeWhile (\<lambda>c. c \<noteq> newline) (stdout_buf p)"
  let ?r = "tl (dropWhile (\<lambda>c. c \<noteq> newline) (stdout_buf p))"
  from True have "stdout_buf p = ?l @ newline # ?r" by (rule split_at_first)
  moreover have "newline \<notin> set ?l" by simp
  moreover from assms True have "b = ?l @ [newline]" "p' = p\<lparr>stdout_buf := ?r\<rparr>"
    by (auto simp: readline_def Let_def split: if_splits)
  ultimately show ?thesis by (rule line)
next
  case False
  with assms show ?thesis
    by (intro eof) (auto simp: readline_def Let_def split: if_splits)
qed

lemma readline_Raises: "readline p = (Raises e, p') \<Longrightarrow> e = ValueError"
  by (auto simp: readline_def Let_def split: if_splits)

lemma readline_frame [frame_simps, simp]:
  "server (snd (readline p)) = server p"
  "stdin_log (snd (readline p)) = stdin_log p"
  "exited (snd (readline p)) = exited p"
  by (auto simp: readline_def Let_def)

lemma readline_buf_suffix: "suffix (stdout_buf (snd (readline p))) (stdout_buf p)"
proof (cases "newline \<in> set (stdout_buf p)")
  case True
  have "suffix (tl (dropWhile (\<lambda>c. c \<noteq> newline) (stdout_buf p))) (stdout_buf p)"
    by (rule suffix_order.trans [OF suffix_tl suffix_dropWhile])
  with True show ?thesis by (simp add: readline_def Let_def)
qed (simp add: readline_def Let_def)

section \<open>Terminating\<close>

lemma terminate_exited [simp]: "exited p \<Longrightarrow> terminate p = (Raises ProcessLookupError, p)"
  by (simp add: terminate_def)

lemma terminate_frame [frame_simps, simp]:
  "server (snd (terminate p)) = server p"
  "stdin_log (snd (terminate p)) = stdin_log p"
  "stdout_buf (snd (terminate p)) = stdout_buf p"
  by (simp_all add: terminate_def)

lemma wait_frame [frame_simps, simp]: "snd (wait p) = p"
  by (simp add: wait_def)

lemma wait_Returns_iff: "fst (wait p) = Returns () \<longleftrightarrow> exited p"
  by (simp add: wait_def)

section \<open>A child that has exited stays so\<close>

lemma exited_mono:
  assumes "exited p"
  shows "exited (snd (write_drain data p))" "exited (snd (readline p))"
    "exited (snd (terminate p))" "exited (snd (wait p))"
  using assms by (simp_all add: wait_def)

end
