(* ===== verification/Fixtures.thy ===== *)
theory Fixtures
  imports Transport
begin

text \<open>
  Concrete codecs, servers and worlds on which the theorems of the components are
  applied: a codec given by a finite table of values and their JSON texts (it agrees
  with \<open>json.dumps\<close> and \<open>json.loads\<close> on the messages it lists), and servers given
  by what they print on each chunk they receive.
\<close>

definition table_codec :: "(py \<times> pystr) list \<Rightarrow> codec" where
  "table_codec tbl =
     \<lparr>dumps = (\<lambda>v. case map_of tbl v of Some s \<Rightarrow> s | None \<Rightarrow> ''null''),
      loads = (\<lambda>s. case map_of (map (\<lambda>(v, t). (t, v)) tbl) s of
                       Some v \<Rightarrow> Inr v
                     | None \<Rightarrow> Inl JSONDecodeError)\<rparr>"

definition line_server :: "(bytes list \<Rightarrow> bytes) \<Rightarrow> server" where
  "line_server f =
     \<lparr>react = (\<lambda>chunks. \<lparr>emits = (if chunks = [] then [] else f chunks @ [newline]), exits = False\<rparr>),
      dies_on_sigterm = True\<rparr>"

definition fixed_server :: "reaction \<Rightarrow> bool \<Rightarrow> server" where
  "fixed_server r d =
     \<lparr>react = (\<lambda>chunks. if chunks = [] then \<lparr>emits = [], exits = False\<rparr> else r),
      dies_on_sigterm = d\<rparr>"

definition one_program :: "pystr list \<Rightarrow> server \<Rightarrow> world" where
  "one_program argv srv =
     \<lparr>files = (\<lambda>path. None), programs = (\<lambda>a. if a = argv then Some srv else None)\<rparr>"

lemmas fixture_defs = table_codec_def line_server_def fixed_server_def one_program_def

lemma line_server_react [simp]:
  "react (line_server f) [] = \<lparr>emits = [], exits = False\<rparr>"
  "chunks \<noteq> [] \<Longrightarrow> react (line_server f) chunks = \<lparr>emits = f chunks @ [newline], exits = False\<rparr>"
  "dies_on_sigterm (line_server f)"
  by (simp_all add: line_server_def)

end
