(* ===== verification/Config.thy ===== *)
theory Config
  imports Fixtures
begin

text \<open>
  The configuration source: class \<open>MCPConfig\<close> of \<open>src/mcp-client.py\<close> (lines 39 to 53).
  \<open>load_config\<close> opens the file and parses it with \<open>json.load\<close>; any exception (the
  file is missing or unreadable, its content is not JSON) is logged and replaced by the
  empty dict. The file system is the \<open>files\<close> field of the \<open>world\<close>: a path with no
  entry is a file that cannot be opened or read.
\<close>

section \<open>State and operations\<close>

record MCPConfig =
  config_path :: pystr
  config :: py

definition load_config :: "codec \<Rightarrow> world \<Rightarrow> pystr \<Rightarrow> py" where
  "load_config cd w path =
     (case files w path of
        None \<Rightarrow> PyDict []
      | Some content \<Rightarrow> (case loads cd content of Inl e \<Rightarrow> PyDict [] | Inr v \<Rightarrow> v))"

definition MCPConfig_init :: "codec \<Rightarrow> world \<Rightarrow> pystr \<Rightarrow> MCPConfig" where
  "MCPConfig_init cd w path = \<lparr>config_path = path, config = load_config cd w path\<rparr>"

definition default_config_path :: pystr where
  "default_config_path = ''mcp_config.json''"

lemmas config_defs [py_defs] = load_config_def MCPConfig_init_def default_config_path_def

section \<open>Lemmas\<close>

lemma load_config_missing: "files w path = None \<Longrightarrow> load_config cd w path = PyDict []"
  by (simp add: load_config_def)

lemma load_config_invalid:
  "files w path = Some content \<Longrightarrow> loads cd content = Inl e \<Longrightarrow>
     load_config cd w path = PyDict []"
  by (simp add: load_config_def)

lemma load_config_parsed:
  "files w path = Some content \<Longrightarrow> loads cd content = Inr v \<Longrightarrow> load_config cd w path = v"
  by (simp add: load_config_def)

lemma load_config_cases:
  obtains (empty) "load_config cd w path = PyDict []"
  | (parsed) content where "files w path = Some content"
      "loads cd content = Inr (load_config cd w path)"
proof (cases "files w path")
  case None
  then show ?thesis by (intro empty) (simp add: load_config_def)
next
  case (Some content)
  then show ?thesis
    by (cases "loads cd content") (auto simp: load_config_def intro: empty parsed)
qed

lemma MCPConfig_init_fields [simp]:
  "config_path (MCPConfig_init cd w path) = path"
  "config (MCPConfig_init cd w path) = load_config cd w path"
  by (simp_all add: MCPConfig_init_def)

end
