(* ===== verification/Client.thy ===== *)
theory Client
  imports Config
begin

text \<open>
  The session manager: class \<open>MCPClient\<close> of \<open>src/mcp-client.py\<close> (lines 55 to 142).
  Its state is the record \<open>MCPClient\<close> with the two attributes \<open>process\<close> and
  \<open>connected\<close>; the \<open>Process\<close> object the attribute refers to is kept inside the
  record (the client holds the only reference to it). \<open>connect\<close>, \<open>send_request\<close>
  and \<open>disconnect\<close> are actions on this state: they return, raise or block, and leave
  the state the Python object is in at that moment. Logging is not modelled, so an
  \<open>except Exception: log; raise\<close> is \<open>try_except m raises\<close>.
\<close>

section \<open>State\<close>

record MCPClient =
  process :: "Process option"
  connected :: bool

definition MCPClient_init :: MCPClient where
  "MCPClient_init = \<lparr>process = None, connected = False\<rparr>"

section \<open>Operations\<close>

definition on_process :: "(Process, 'a) action \<Rightarrow> (MCPClient, 'a) action" where
  "on_process m self =
     (case process self of
        None \<Rightarrow> (Raises AttributeError, self)
      | Some p \<Rightarrow> (case m p of (r, p') \<Rightarrow> (r, self\<lparr>process := Some p'\<rparr>)))"

definition request_line :: "codec \<Rightarrow> py \<Rightarrow> bytes" where
  "request_line cd request = encode (dumps cd request @ [newline])"

definition parse_line :: "codec \<Rightarrow> bytes \<Rightarrow> py result" where
  "parse_line cd response_line =
     r_bind (decode response_line) (\<lambda>text. loads cd (strip text))"

definition send_request :: "codec \<Rightarrow> py \<Rightarrow> (MCPClient, py) action" where
  "send_request cd request self =
     (if process self = None then (Raises (Exception ''MCP server not connected''), self)
      else try_except
        (then_do (on_process (write_drain (request_line cd request))) (\<lambda>_.
         then_do (on_process readline) (\<lambda>response_line.
         lift_result (parse_line cd response_line))))
        raises self)"

definition full_command :: "py \<Rightarrow> py list result" where
  "full_command cfg =
     r_bind (dict_get cfg ''mcpServers'' (PyDict [])) (\<lambda>server_config.
       if \<not> truthy server_config then Inl (Exception ''No MCP server configuration found'')
       else
         r_bind (first_key server_config) (\<lambda>server_name.
         r_bind (getitem server_config server_name) (\<lambda>server_info.
         r_bind (dict_get server_info ''command'' PyNone) (\<lambda>command.
         r_bind (dict_get server_info ''args'' (PyList [])) (\<lambda>args.
           if \<not> truthy command then Inl (Exception ''No command specified in MCP config'')
           else list_concat [command] args)))))"

definition init_request :: py where
  "init_request =
     PyDict [
       (''jsonrpc'', PyStr ''2.0''),
       (''id'', PyInt 1),
       (''method'', PyStr ''initialize''),
       (''params'', PyDict [
          (''protocolVersion'', PyStr ''2024-11-05''),
          (''capabilities'', PyDict [
             (''roots'', PyDict [(''listChanged'', PyBool True)]),
             (''sampling'', PyDict [])]),
          (''clientInfo'', PyDict [
             (''name'', PyStr ''fastapi-mcp-bridge''),
             (''version'', PyStr ''1.0.0'')])])]"

definition connect :: "codec \<Rightarrow> world \<Rightarrow> py \<Rightarrow> (MCPClient, unit) action" where
  "connect cd w cfg =
     try_except
       (then_do (lift_result (full_command cfg)) (\<lambda>argv.
        then_do (lift_result (create_subprocess_exec w argv)) (\<lambda>p.
        then_do (modify (\<lambda>self. self\<lparr>process := Some p\<rparr>)) (\<lambda>_.
        then_do (send_request cd init_request) (\<lambda>_.
        modify (\<lambda>self. self\<lparr>connected := True\<rparr>))))))
       raises"

definition disconnect :: "(MCPClient, unit) action" where
  "disconnect self =
     (if process self = None then (Returns (), self)
      else
        (then_do (on_process terminate) (\<lambda>_.
         then_do (on_process wait) (\<lambda>_.
         modify (\<lambda>self. self\<lparr>connected := False\<rparr>)))) self)"

text \<open>
  The exchange of \<open>send_request\<close> on the process alone: write one line, read one line,
  decode it.
\<close>

definition exchange :: "codec \<Rightarrow> py \<Rightarrow> (Process, py) action" where
  "exchange cd request =
     then_do (write_drain (request_line cd request)) (\<lambda>_.
     then_do readline (\<lambda>response_line.
     lift_result (parse_line cd response_line)))"

text \<open>The public operations of the client, and runs of them from any state.\<close>

datatype client_op = Connect py | SendRequest py | Disconnect

fun client_step :: "codec \<Rightarrow> world \<Rightarrow> MCPClient \<Rightarrow> client_op \<Rightarrow> MCPClient" where
  "client_step cd w self (Connect cfg) = snd (connect cd w cfg self)"
| "client_step cd w self (SendRequest request) = snd (send_request cd request self)"
| "client_step cd w self Disconnect = snd (disconnect self)"

definition client_run :: "codec \<Rightarrow> world \<Rightarrow> MCPClient \<Rightarrow> client_op list \<Rightarrow> MCPClient" where
  "client_run cd w = foldl (client_step cd w)"

definition handshake_first :: "codec \<Rightarrow> Process \<Rightarrow> bool" where
  "handshake_first cd p =
     (if stdin_log p = [] then exited p
      else hd (stdin_log p) = request_line cd init_request)"

definition client_inv :: "codec \<Rightarrow> MCPClient \<Rightarrow> bool" where
  "client_inv cd self =
     (case process self of
        None \<Rightarrow> \<not> connected self
      | Some p \<Rightarrow> handshake_first cd p)"

section \<open>A scenario\<close>

text \<open>
  The handshake of section 8 of the specification: a server that answers every line with
  the reply to \<open>initialize\<close>, the configuration that names it, and the codec on the
  messages of the handshake.
\<close>

definition init_text :: pystr where
  \<open>init_text = ''{"jsonrpc": "2.0", "id": 1, "method": "initialize", "params": {"protocolVersion": "2024-11-05", "capabilities": {"roots": {"listChanged": true}, "sampling": {}}, "clientInfo": {"name": "fastapi-mcp-bridge", "version": "1.0.0"}}}''\<close>

definition init_reply :: py where
  "init_reply = PyDict [(''jsonrpc'', PyStr ''2.0''), (''id'', PyInt 1), (''result'', PyDict [])]"

definition init_reply_text :: pystr where
  \<open>init_reply_text = ''{"jsonrpc":"2.0","id":1,"result":{}}''\<close>

definition init_error :: py where
  "init_error =
     PyDict [(''jsonrpc'', PyStr ''2.0''), (''id'', PyInt 1),
       (''error'', PyDict [(''code'', PyInt (- 32600)), (''message'', PyStr ''Invalid Request'')])]"

definition init_error_text :: pystr where
  \<open>init_error_text = ''{"jsonrpc":"2.0","id":1,"error":{"code":-32600,"message":"Invalid Request"}}''\<close>

definition demo_codec :: codec where
  "demo_codec =
     table_codec [(init_request, init_text), (init_reply, init_reply_text),
       (init_error, init_error_text)]"

definition echo_server :: server where
  "echo_server = line_server (\<lambda>chunks. init_reply_text)"

definition demo_config :: py where
  "demo_config =
     PyDict [(''mcpServers'', PyDict [
       (''echo'', PyDict [(''command'', PyStr ''echo-server''), (''args'', PyList [])])])]"

definition demo_world :: world where
  "demo_world = one_program [''echo-server''] echo_server"

definition fresh :: "server \<Rightarrow> MCPClient" where
  "fresh srv = \<lparr>process = Some (started srv), connected = False\<rparr>"

lemmas scenario_defs =
  init_text_def init_reply_def init_reply_text_def init_error_def init_error_text_def
  demo_codec_def echo_server_def demo_config_def demo_world_def fresh_def init_request_def

lemmas client_defs [py_defs] =
  MCPClient_init_def on_process_def send_request_def connect_def disconnect_def exchange_def

section \<open>The exchange on the process\<close>

lemma on_process_None [prog_simps]:
  "process self = None \<Longrightarrow> on_process m self = (Raises AttributeError, self)"
  by (simp add: on_process_def)

lemma on_process_Some [prog_simps]:
  "process self = Some p \<Longrightarrow> m p = (r, p') \<Longrightarrow>
     on_process m self = (r, self\<lparr>process := Some p'\<rparr>)"
  by (simp add: on_process_def)

lemma on_process_Some_fst: "process self = Some p \<Longrightarrow> fst (on_process m self) = fst (m p)"
  by (simp add: on_process_def split: prod.splits)

lemma on_process_Some_snd:
  "process self = Some p \<Longrightarrow> snd (on_process m self) = self\<lparr>process := Some (snd (m p))\<rparr>"
  by (simp add: on_process_def split: prod.splits)

lemma on_process_connected [frame_simps, simp]:
  "connected (snd (on_process m self)) = connected self"
  by (simp add: on_process_def split: option.splits prod.splits)

lemma on_process_process:
  "process (snd (on_process m self)) = None \<longleftrightarrow> process self = None"
  by (simp add: on_process_def split: option.splits prod.splits)

lemma exchange_exited: "exited p \<Longrightarrow> exchange cd request p = (Raises ConnectionResetError, p)"
  by (simp add: exchange_def then_do_def)

lemma exchange_alive:
  "\<not> exited p \<Longrightarrow> exchange cd request p =
     then_do readline (\<lambda>response_line. lift_result (parse_line cd response_line))
       (deliver (request_line cd request) p)"
  by (simp add: exchange_def then_do_def)

lemma exchange_line:
  assumes "\<not> exited p"
    and "stdout_buf (deliver (request_line cd request) p) = l @ newline # rest"
    and "newline \<notin> set l" and "length l \<le> stream_limit"
  shows "exchange cd request p =
     lift_result (parse_line cd (l @ [newline]))
       ((deliver (request_line cd request) p)\<lparr>stdout_buf := rest\<rparr>)"
  using assms by (simp add: exchange_alive then_do_Returns [OF readline_line])

lemma exchange_eof:
  assumes "\<not> exited p" and "stdout_buf p = []"
    and "react (server p) (stdin_log p @ [request_line cd request]) = \<lparr>emits = [], exits = True\<rparr>"
  shows "exchange cd request p =
     lift_result (parse_line cd [])
       (p\<lparr>stdin_log := stdin_log p @ [request_line cd request], exited := True\<rparr>)"
proof -
  let ?q = "deliver (request_line cd request) p"
  from assms have q: "?q = p\<lparr>stdin_log := stdin_log p @ [request_line cd request], exited := True\<rparr>"
    by (simp add: deliver_def)
  from assms have "readline ?q = (Returns [], ?q\<lparr>stdout_buf := []\<rparr>)"
    using readline_eof [of ?q] by simp
  moreover from assms have "?q\<lparr>stdout_buf := []\<rparr> = ?q" by (simp add: deliver_def)
  ultimately show ?thesis
    using assms(1) by (simp add: exchange_alive then_do_def q)
qed

lemma exchange_Blocks_iff:
  "fst (exchange cd request p) = Blocks \<longleftrightarrow>
     \<not> exited p \<and> fst (readline (deliver (request_line cd request) p)) = Blocks"
  by (cases "exited p")
    (auto simp: exchange_exited exchange_alive then_do_def lift_result_def
      split: prod.splits outcome.splits sum.splits)

lemma exchange_frame [frame_simps, simp]: "server (snd (exchange cd request p)) = server p"
  by (cases "exited p") (simp_all add: exchange_exited exchange_alive)

lemma exchange_log:
  "stdin_log (snd (exchange cd request p)) =
     (if exited p then stdin_log p else stdin_log p @ [request_line cd request])"
  by (cases "exited p") (simp_all add: exchange_exited exchange_alive)

lemma send_request_exchange:
  "process self = Some p \<Longrightarrow>
     send_request cd request self = on_process (exchange cd request) self"
  by (auto simp: send_request_def exchange_def on_process_def then_do_def lift_result_def
      split: prod.splits outcome.splits sum.splits)

lemma send_request_None:
  "process self = None \<Longrightarrow>
     send_request cd request self = (Raises (Exception ''MCP server not connected''), self)"
  by (simp add: send_request_def)

lemma send_request_connected [frame_simps, simp]:
  "connected (snd (send_request cd request self)) = connected self"
  by (cases "process self") (simp_all add: send_request_None send_request_exchange)

lemma send_request_process:
  "process (snd (send_request cd request self)) = None \<longleftrightarrow> process self = None"
  by (cases "process self")
    (simp_all add: send_request_None send_request_exchange on_process_process)

section \<open>The scenario, evaluated\<close>

lemma demo_request_line: "request_line demo_codec init_request = init_text @ [newline]"
  by (simp add: request_line_def encode_def demo_codec_def table_codec_def)

lemma init_reply_text_line:
  "newline \<notin> set init_reply_text" "length init_reply_text \<le> stream_limit"
  by (simp_all add: init_reply_text_def stream_limit_def)

lemma init_error_text_line:
  "newline \<notin> set init_error_text" "length init_error_text \<le> stream_limit"
  by (simp_all add: init_error_text_def stream_limit_def)

lemma demo_parse_reply: "parse_line demo_codec (init_reply_text @ [newline]) = Inr init_reply"
  by (simp add: parse_line_def decode_def strip_def lstrip_def rstrip_def lstrip_by.simps
      py_whitespace_def in_range_def demo_codec_def table_codec_def init_reply_text_def
      init_text_def init_error_text_def)

lemma demo_parse_error: "parse_line demo_codec (init_error_text @ [newline]) = Inr init_error"
  by (simp add: parse_line_def decode_def strip_def lstrip_def rstrip_def lstrip_by.simps
      py_whitespace_def in_range_def demo_codec_def table_codec_def init_reply_text_def
      init_text_def init_error_text_def)

lemma demo_parse_empty: "parse_line demo_codec [] = Inl JSONDecodeError"
  by (simp add: parse_line_def demo_codec_def table_codec_def init_reply_text_def
      init_text_def init_error_text_def)

lemma echo_server_simps [simp]:
  "react echo_server [] = \<lparr>emits = [], exits = False\<rparr>"
  "chunks \<noteq> [] \<Longrightarrow> react echo_server chunks = \<lparr>emits = init_reply_text @ [newline], exits = False\<rparr>"
  "dies_on_sigterm echo_server"
  by (simp_all add: echo_server_def)

section \<open>send_request\<close>

text \<open>
  C1: When the pipe is empty and the child answers the request with exactly one line,
  \<open>send_request\<close> returns what that line parses to, has written exactly the request
  line, and leaves the pipe empty again: request and response stay paired.
\<close>

theorem send_request_in_sync:
  assumes "process self = Some p" and "\<not> exited p" and "stdout_buf p = []"
    and "react (server p) (stdin_log p @ [request_line cd request]) =
           \<lparr>emits = l @ [newline], exits = False\<rparr>"
    and "newline \<notin> set l" and "length l \<le> stream_limit"
    and "parse_line cd (l @ [newline]) = Inr response"
  shows "send_request cd request self =
     (Returns response,
      self\<lparr>process := Some (p\<lparr>stdin_log := stdin_log p @ [request_line cd request]\<rparr>)\<rparr>)"
proof -
  let ?q = "deliver (request_line cd request) p"
  from assms(3,4) have buf: "stdout_buf ?q = l @ newline # []" by simp
  from assms(2,3,4)
  have "?q\<lparr>stdout_buf := []\<rparr> = p\<lparr>stdin_log := stdin_log p @ [request_line cd request]\<rparr>"
    by (simp add: deliver_def)
  with exchange_line [OF assms(2) buf assms(5,6)] assms(7)
  have "exchange cd request p =
      (Returns response, p\<lparr>stdin_log := stdin_log p @ [request_line cd request]\<rparr>)"
    by simp
  with assms(1) show ?thesis
    by (simp add: send_request_exchange on_process_def)
qed

theorem send_request_in_sync_witness:
  "send_request demo_codec init_request (fresh echo_server) =
     (Returns init_reply,
      \<lparr>process = Some ((started echo_server)\<lparr>stdin_log := [init_text @ [newline]]\<rparr>),
       connected = False\<rparr>)"
  using send_request_in_sync [of "fresh echo_server" "started echo_server" demo_codec
      init_request init_reply_text init_reply]
  by (simp add: fresh_def demo_request_line init_reply_text_line demo_parse_reply)

text \<open>
  C2: When the child is running and a complete line within the reader's limit is already
  waiting in the pipe, and that line parses, \<open>send_request\<close> returns the value of that
  line, whatever the child answers to the request now written; the answer stays in the
  pipe for the next call. Nothing compares the \<open>id\<close> of the response with the request.
\<close>

theorem send_request_stale:
  assumes "process self = Some p" and "\<not> exited p"
    and "stdout_buf p = stale @ newline # rest"
    and "newline \<notin> set stale" and "length stale \<le> stream_limit"
    and "parse_line cd (stale @ [newline]) = Inr v"
  shows "send_request cd request self =
     (Returns v,
      self\<lparr>process := Some ((deliver (request_line cd request) p)
        \<lparr>stdout_buf :=
           rest @ emits (react (server p) (stdin_log p @ [request_line cd request]))\<rparr>)\<rparr>)"
proof -
  let ?q = "deliver (request_line cd request) p"
  from assms(3) have buf: "stdout_buf ?q =
      stale @ newline # (rest @ emits (react (server p) (stdin_log p @ [request_line cd request])))"
    by simp
  from exchange_line [OF assms(2) buf assms(4,5)] assms(6) assms(1) show ?thesis
    by (simp add: send_request_exchange on_process_def)
qed

theorem send_request_stale_witness:
  "fst (send_request demo_codec init_request
     \<lparr>process = Some ((started echo_server)\<lparr>stdout_buf := init_error_text @ [newline]\<rparr>),
      connected = True\<rparr>) = Returns init_error"
  using send_request_stale [of
      "\<lparr>process = Some ((started echo_server)\<lparr>stdout_buf := init_error_text @ [newline]\<rparr>),
        connected = True\<rparr>"
      "(started echo_server)\<lparr>stdout_buf := init_error_text @ [newline]\<rparr>"
      init_error_text "[]" demo_codec init_error init_request]
  by (simp add: init_error_text_line demo_parse_error)

text \<open>
  C23: With no process, \<open>send_request\<close> raises "MCP server not connected" and changes
  nothing.
\<close>

theorem send_request_not_connected:
  "send_request cd request \<lparr>process = None, connected = b\<rparr> =
     (Raises (Exception ''MCP server not connected''), \<lparr>process = None, connected = b\<rparr>)"
  by (simp add: send_request_None)

text \<open>
  C16: On a client that holds a process, \<open>send_request\<close> never returns exactly when all
  of the following hold: the child is running, it stays running after the request, the
  bytes pending in the pipe together with what the child prints on the request contain no
  newline, and these bytes are within the reader's limit (above it \<open>readline\<close> raises
  instead). There is no timeout.
\<close>

theorem send_request_blocks_iff:
  assumes "process self = Some p"
  shows "fst (send_request cd request self) = Blocks \<longleftrightarrow>
     \<not> exited p \<and> \<not> exits (react (server p) (stdin_log p @ [request_line cd request]))
     \<and> newline \<notin> set (stdout_buf p @
           emits (react (server p) (stdin_log p @ [request_line cd request])))
     \<and> length (stdout_buf p @
           emits (react (server p) (stdin_log p @ [request_line cd request]))) \<le> stream_limit"
  using assms
  by (simp add: send_request_exchange on_process_Some_fst exchange_Blocks_iff
      readline_Blocks_iff)

theorem send_request_blocks_iff_witness:
  "fst (send_request demo_codec init_request
     (fresh (fixed_server \<lparr>emits = [], exits = False\<rparr> True))) = Blocks"
  using send_request_blocks_iff [of
      "fresh (fixed_server \<lparr>emits = [], exits = False\<rparr> True)"
      "started (fixed_server \<lparr>emits = [], exits = False\<rparr> True)" demo_codec init_request]
  by (simp add: fresh_def fixed_server_def stream_limit_def)

text \<open>
  C17: When the child exits on the request without printing anything, \<open>send_request\<close>
  reads the empty line of end of stream and raises what \<open>json.loads\<close> raises on the
  empty text; the client keeps its process and its \<open>connected\<close> flag.
\<close>

theorem send_request_eof:
  assumes "process self = Some p" and "\<not> exited p" and "stdout_buf p = []"
    and "react (server p) (stdin_log p @ [request_line cd request]) =
           \<lparr>emits = [], exits = True\<rparr>"
    and "parse_line cd [] = Inl e"
  shows "send_request cd request self =
     (Raises e,
      self\<lparr>process :=
        Some (p\<lparr>stdin_log := stdin_log p @ [request_line cd request], exited := True\<rparr>)\<rparr>)"
  using assms exchange_eof [OF assms(2,3,4)]
  by (simp add: send_request_exchange on_process_def)

theorem send_request_eof_witness:
  "send_request demo_codec init_request
     \<lparr>process = Some (started (fixed_server \<lparr>emits = [], exits = True\<rparr> True)),
      connected = True\<rparr> =
   (Raises JSONDecodeError,
    \<lparr>process = Some ((started (fixed_server \<lparr>emits = [], exits = True\<rparr> True))
        \<lparr>stdin_log := [init_text @ [newline]], exited := True\<rparr>),
     connected = True\<rparr>)"
  using send_request_eof [of
      "\<lparr>process = Some (started (fixed_server \<lparr>emits = [], exits = True\<rparr> True)),
        connected = True\<rparr>"
      "started (fixed_server \<lparr>emits = [], exits = True\<rparr> True)" demo_codec init_request
      JSONDecodeError]
  by (simp add: fixed_server_def demo_request_line demo_parse_empty)

section \<open>connect\<close>

lemma connect_unfold:
  "connect cd w cfg self =
     (case full_command cfg of
        Inl e \<Rightarrow> (Raises e, self)
      | Inr argv \<Rightarrow>
         (case create_subprocess_exec w argv of
            Inl e \<Rightarrow> (Raises e, self)
          | Inr p \<Rightarrow>
             (case exchange cd init_request p of
                (Returns v, p') \<Rightarrow> (Returns (), self\<lparr>process := Some p', connected := True\<rparr>)
              | (Raises e, p') \<Rightarrow> (Raises e, self\<lparr>process := Some p'\<rparr>)
              | (Blocks, p') \<Rightarrow> (Blocks, self\<lparr>process := Some p'\<rparr>))))"
  by (simp add: connect_def then_do_def send_request_exchange on_process_def
      split: sum.splits prod.splits outcome.splits)

lemma connect_config_error:
  "full_command cfg = Inl e \<Longrightarrow> connect cd w cfg self = (Raises e, self)"
  by (simp add: connect_unfold)

lemma connect_spawn_error:
  "full_command cfg = Inr argv \<Longrightarrow> create_subprocess_exec w argv = Inl e \<Longrightarrow>
     connect cd w cfg self = (Raises e, self)"
  by (simp add: connect_unfold)

lemma connect_spawned:
  "full_command cfg = Inr argv \<Longrightarrow> create_subprocess_exec w argv = Inr p \<Longrightarrow>
     connect cd w cfg self =
       (case exchange cd init_request p of
          (Returns v, p') \<Rightarrow> (Returns (), self\<lparr>process := Some p', connected := True\<rparr>)
        | (Raises e, p') \<Rightarrow> (Raises e, self\<lparr>process := Some p'\<rparr>)
        | (Blocks, p') \<Rightarrow> (Blocks, self\<lparr>process := Some p'\<rparr>))"
  by (simp add: connect_unfold)

lemma connect_process:
  "process self \<noteq> None \<Longrightarrow> process (snd (connect cd w cfg self)) \<noteq> None"
  by (auto simp: connect_unfold split: sum.splits prod.splits outcome.splits)

lemma full_command_dict:
  assumes "map_of cfg ''mcpServers'' = Some (PyDict ((name, PyDict info) # others))"
    and "map_of info ''command'' = Some command" and "truthy command"
  shows "full_command (PyDict cfg) =
     list_concat [command] (case map_of info ''args'' of Some a \<Rightarrow> a | None \<Rightarrow> PyList [])"
  using assms by (simp add: full_command_def)

lemma demo_full_command: "full_command demo_config = Inr [PyStr ''echo-server'']"
  by (simp add: full_command_def demo_config_def)

lemma demo_spawn:
  "create_subprocess_exec demo_world [PyStr ''echo-server''] = Inr (started echo_server)"
  by (simp add: create_subprocess_exec_def demo_world_def one_program_def)

lemma demo_connect:
  "connect demo_codec demo_world demo_config MCPClient_init =
     (Returns (),
      \<lparr>process = Some ((started echo_server)\<lparr>stdin_log := [init_text @ [newline]]\<rparr>),
       connected = True\<rparr>)"
  using exchange_line [of "started echo_server" demo_codec init_request init_reply_text "[]"]
  by (simp add: connect_spawned [OF demo_full_command demo_spawn] demo_request_line
      init_reply_text_line demo_parse_reply deliver_def started_def MCPClient_init_def)

text \<open>
  C26: The server that \<open>connect\<close> starts is the first entry of \<open>mcpServers\<close>, whatever
  else the configuration lists: its command followed by its \<open>args\<close>.
\<close>

theorem full_command_first_server:
  assumes "map_of cfg ''mcpServers'' = Some (PyDict ((name, PyDict info) # others))"
    and "map_of info ''command'' = Some command" and "truthy command"
    and "map_of info ''args'' = Some (PyList args)"
  shows "full_command (PyDict cfg) = Inr (command # args)"
  using assms by (simp add: full_command_def)

theorem full_command_first_server_witness:
  "full_command (PyDict [(''mcpServers'', PyDict [
       (''first'', PyDict [(''command'', PyStr ''a''), (''args'', PyList [PyStr ''-x''])]),
       (''second'', PyDict [(''command'', PyStr ''b''), (''args'', PyList [])])])]) =
     Inr [PyStr ''a'', PyStr ''-x'']"
  using full_command_first_server [of
      "[(''mcpServers'', PyDict [
         (''first'', PyDict [(''command'', PyStr ''a''), (''args'', PyList [PyStr ''-x''])]),
         (''second'', PyDict [(''command'', PyStr ''b''), (''args'', PyList [])])])]"
      "''first''" "[(''command'', PyStr ''a''), (''args'', PyList [PyStr ''-x''])]"
      "[(''second'', PyDict [(''command'', PyStr ''b''), (''args'', PyList [])])]"
      "PyStr ''a''" "[PyStr ''-x'']"]
  by simp

text \<open>
  C3: When the configured program starts and answers the \<open>initialize\<close> request with one
  line that parses, \<open>connect\<close> returns with \<open>connected\<close> set and the process in place,
  the request line being the only thing written. The parsed response is not inspected: an
  error response completes the handshake as well.
\<close>

theorem connect_handshake:
  assumes "full_command cfg = Inr argv" and "create_subprocess_exec w argv = Inr (started srv)"
    and "react srv [] = \<lparr>emits = [], exits = False\<rparr>"
    and "react srv [request_line cd init_request] = \<lparr>emits = l @ [newline], exits = False\<rparr>"
    and "newline \<notin> set l" and "length l \<le> stream_limit"
    and "parse_line cd (l @ [newline]) = Inr response"
  shows "connect cd w cfg self =
     (Returns (),
      \<lparr>process = Some ((started srv)\<lparr>stdin_log := [request_line cd init_request]\<rparr>),
       connected = True\<rparr>)"
proof -
  let ?p = "started srv"
  from assms(3,4) have buf: "stdout_buf (deliver (request_line cd init_request) ?p) = l @ newline # []"
    by simp
  from assms(3) have alive: "\<not> exited ?p" by simp
  from assms(3,4)
  have "(deliver (request_line cd init_request) ?p)\<lparr>stdout_buf := []\<rparr> =
      ?p\<lparr>stdin_log := [request_line cd init_request]\<rparr>"
    by (simp add: deliver_def started_def)
  with exchange_line [OF alive buf assms(5,6)] assms(7)
  have "exchange cd init_request ?p =
      (Returns response, ?p\<lparr>stdin_log := [request_line cd init_request]\<rparr>)"
    by simp
  with assms(1,2) show ?thesis
    by (cases self) (simp add: connect_unfold)
qed

theorem connect_handshake_witness:
  "connect demo_codec (one_program [''echo-server''] (line_server (\<lambda>chunks. init_error_text)))
     demo_config MCPClient_init =
     (Returns (),
      \<lparr>process = Some ((started (line_server (\<lambda>chunks. init_error_text)))
          \<lparr>stdin_log := [init_text @ [newline]]\<rparr>),
       connected = True\<rparr>)"
  using connect_handshake [of demo_config "[PyStr ''echo-server'']"
      "one_program [''echo-server''] (line_server (\<lambda>chunks. init_error_text))"
      "line_server (\<lambda>chunks. init_error_text)" demo_codec init_error_text init_error
      MCPClient_init]
  by (simp add: demo_full_command create_subprocess_exec_def one_program_def
      demo_request_line init_error_text_line demo_parse_error)

text \<open>
  C22: \<open>connect\<close> sets \<open>connected\<close> only by returning: after a \<open>connect\<close> that raises or
  blocks the flag is what it was before, and after one that returns it is set.
\<close>

theorem connect_connected:
  "connected (snd (connect cd w cfg self)) \<longleftrightarrow>
     connected self \<or> fst (connect cd w cfg self) = Returns ()"
  by (auto simp: connect_unfold split: sum.splits prod.splits outcome.splits)

text \<open>
  C20: When the program starts but its answer to \<open>initialize\<close> cannot be parsed,
  \<open>connect\<close> raises, and leaves the running child in \<open>process\<close> with \<open>connected\<close>
  unset: the child is not terminated, and later calls of \<open>send_request\<close> reach it.
\<close>

theorem connect_leaves_child_running:
  assumes "full_command cfg = Inr argv" and "create_subprocess_exec w argv = Inr (started srv)"
    and "react srv [] = \<lparr>emits = [], exits = False\<rparr>"
    and "react srv [request_line cd init_request] = \<lparr>emits = l @ [newline], exits = False\<rparr>"
    and "newline \<notin> set l" and "length l \<le> stream_limit"
    and "parse_line cd (l @ [newline]) = Inl e"
  shows "connect cd w cfg MCPClient_init =
     (Raises e,
      \<lparr>process = Some ((started srv)\<lparr>stdin_log := [request_line cd init_request]\<rparr>),
       connected = False\<rparr>)
     \<and> \<not> exited ((started srv)\<lparr>stdin_log := [request_line cd init_request]\<rparr>)"
proof -
  let ?p = "started srv"
  from assms(3,4) have buf: "stdout_buf (deliver (request_line cd init_request) ?p) = l @ newline # []"
    by simp
  from assms(3) have alive: "\<not> exited ?p" by simp
  from assms(3,4)
  have "(deliver (request_line cd init_request) ?p)\<lparr>stdout_buf := []\<rparr> =
      ?p\<lparr>stdin_log := [request_line cd init_request]\<rparr>"
    by (simp add: deliver_def started_def)
  with exchange_line [OF alive buf assms(5,6)] assms(7)
  have "exchange cd init_request ?p =
      (Raises e, ?p\<lparr>stdin_log := [request_line cd init_request]\<rparr>)"
    by simp
  with assms(1,2) alive show ?thesis
    by (simp add: connect_unfold MCPClient_init_def)
qed

theorem connect_leaves_child_running_witness:
  "connect demo_codec (one_program [''echo-server''] (line_server (\<lambda>chunks. ''not json'')))
     demo_config MCPClient_init =
     (Raises JSONDecodeError,
      \<lparr>process = Some ((started (line_server (\<lambda>chunks. ''not json'')))
          \<lparr>stdin_log := [init_text @ [newline]]\<rparr>),
       connected = False\<rparr>)"
proof -
  have "parse_line demo_codec (''not json'' @ [newline]) = Inl JSONDecodeError"
    by (simp add: parse_line_def decode_def strip_def lstrip_def rstrip_def lstrip_by.simps
        py_whitespace_def in_range_def demo_codec_def table_codec_def init_reply_text_def
        init_text_def init_error_text_def)
  with connect_leaves_child_running [of demo_config "[PyStr ''echo-server'']"
      "one_program [''echo-server''] (line_server (\<lambda>chunks. ''not json''))"
      "line_server (\<lambda>chunks. ''not json'')" demo_codec "''not json''" JSONDecodeError]
  show ?thesis
    by (simp add: demo_full_command create_subprocess_exec_def one_program_def
        demo_request_line stream_limit_def)
qed

section \<open>disconnect\<close>

lemma disconnect_unfold:
  "disconnect self =
     (case process self of
        None \<Rightarrow> (Returns (), self)
      | Some p \<Rightarrow>
          if exited p then (Raises ProcessLookupError, self)
          else if dies_on_sigterm (server p)
            then (Returns (), self\<lparr>process := Some (p\<lparr>exited := True\<rparr>), connected := False\<rparr>)
            else (Blocks, self))"
  by (cases self)
    (auto simp: disconnect_def then_do_def on_process_def terminate_def wait_def
      split: option.splits)

lemma disconnect_connected: "connected (snd (disconnect self)) \<Longrightarrow> connected self"
  by (auto simp: disconnect_unfold split: option.splits if_splits)

lemma disconnect_process:
  "process (snd (disconnect self)) = None \<longleftrightarrow> process self = None"
  by (auto simp: disconnect_unfold split: option.splits if_splits)

text \<open>
  C18: \<open>disconnect\<close> on a client whose child is running and exits on the termination
  signal returns, with the child exited and \<open>connected\<close> unset. The process stays in the
  \<open>process\<close> attribute.
\<close>

theorem disconnect_terminates:
  assumes "process self = Some p" and "\<not> exited p" and "dies_on_sigterm (server p)"
  shows "disconnect self =
     (Returns (), \<lparr>process = Some (p\<lparr>exited := True\<rparr>), connected = False\<rparr>)"
  using assms by (cases self) (simp add: disconnect_unfold)

theorem disconnect_terminates_witness:
  "disconnect \<lparr>process = Some (started echo_server), connected = True\<rparr> =
     (Returns (),
      \<lparr>process = Some ((started echo_server)\<lparr>exited := True\<rparr>), connected = False\<rparr>)"
  using disconnect_terminates [of "\<lparr>process = Some (started echo_server), connected = True\<rparr>"
      "started echo_server"]
  by simp

text \<open>
  C19: \<open>disconnect\<close> is not idempotent: a second \<open>disconnect\<close> after one that returned
  raises \<open>ProcessLookupError\<close>, because the terminated process is still in \<open>process\<close>.
\<close>

theorem disconnect_twice_raises:
  assumes "process self = Some p" and "\<not> exited p" and "dies_on_sigterm (server p)"
  shows "then_do disconnect (\<lambda>_. disconnect) self =
     (Raises ProcessLookupError, \<lparr>process = Some (p\<lparr>exited := True\<rparr>), connected = False\<rparr>)"
  using assms by (cases self) (simp add: then_do_def disconnect_unfold)

theorem disconnect_twice_raises_witness:
  "then_do disconnect (\<lambda>_. disconnect) \<lparr>process = Some (started echo_server), connected = True\<rparr> =
     (Raises ProcessLookupError,
      \<lparr>process = Some ((started echo_server)\<lparr>exited := True\<rparr>), connected = False\<rparr>)"
  using disconnect_twice_raises [of "\<lparr>process = Some (started echo_server), connected = True\<rparr>"
      "started echo_server"]
  by simp

text \<open>
  C31: \<open>disconnect\<close> on a client whose child has already exited raises
  \<open>ProcessLookupError\<close> and leaves the client as it is: \<open>connected\<close> is not reset.
\<close>

theorem disconnect_dead_child:
  assumes "process self = Some p" and "exited p"
  shows "disconnect self = (Raises ProcessLookupError, self)"
  using assms by (simp add: disconnect_unfold)

theorem disconnect_dead_child_witness:
  "disconnect \<lparr>process = Some ((started echo_server)\<lparr>exited := True\<rparr>), connected = True\<rparr> =
     (Raises ProcessLookupError,
      \<lparr>process = Some ((started echo_server)\<lparr>exited := True\<rparr>), connected = True\<rparr>)"
  using disconnect_dead_child [of
      "\<lparr>process = Some ((started echo_server)\<lparr>exited := True\<rparr>), connected = True\<rparr>"
      "(started echo_server)\<lparr>exited := True\<rparr>"]
  by simp

text \<open>
  C21: After a \<open>disconnect\<close> that returned, \<open>send_request\<close> does not report "not
  connected": it writes to the terminated process and raises \<open>ConnectionResetError\<close>.
\<close>

theorem send_request_after_disconnect:
  assumes "process self = Some p" and "\<not> exited p" and "dies_on_sigterm (server p)"
  shows "then_do disconnect (\<lambda>_. send_request cd request) self =
     (Raises ConnectionResetError,
      \<lparr>process = Some (p\<lparr>exited := True\<rparr>), connected = False\<rparr>)"
  using assms
  by (cases self)
    (simp add: then_do_def disconnect_unfold send_request_exchange on_process_def
      exchange_exited)

theorem send_request_after_disconnect_witness:
  "then_do disconnect (\<lambda>_. send_request demo_codec init_request)
     \<lparr>process = Some (started echo_server), connected = True\<rparr> =
     (Raises ConnectionResetError,
      \<lparr>process = Some ((started echo_server)\<lparr>exited := True\<rparr>), connected = False\<rparr>)"
  using send_request_after_disconnect [of
      "\<lparr>process = Some (started echo_server), connected = True\<rparr>" "started echo_server"
      demo_codec init_request]
  by simp

section \<open>The invariant\<close>

lemma handshake_first_exchange:
  "handshake_first cd p \<Longrightarrow> handshake_first cd (snd (exchange cd request p))"
  by (cases "stdin_log p")
    (auto simp: handshake_first_def exchange_log exchange_exited split: if_splits)

lemma handshake_first_started:
  "handshake_first cd (snd (exchange cd init_request (started srv)))"
  by (cases "exits (react srv [])")
    (simp_all add: handshake_first_def exchange_log exchange_exited)

lemma client_inv_send_request:
  "client_inv cd self \<Longrightarrow> client_inv cd (snd (send_request cd request self))"
  by (cases "process self")
    (auto simp: client_inv_def send_request_None send_request_exchange on_process_Some_snd
      handshake_first_exchange)

lemma client_inv_connect:
  assumes inv: "client_inv cd self"
  shows "client_inv cd (snd (connect cd w cfg self))"
proof (cases "full_command cfg")
  case (Inl e)
  with inv show ?thesis by (simp add: connect_unfold)
next
  case argv: (Inr argv)
  show ?thesis
  proof (cases "create_subprocess_exec w argv")
    case (Inl e)
    with argv inv show ?thesis by (simp add: connect_unfold)
  next
    case (Inr p)
    then obtain srv where "p = started srv"
      by (auto simp: create_subprocess_exec_eq_Inr)
    then have "handshake_first cd (snd (exchange cd init_request p))"
      by (simp add: handshake_first_started)
    with argv Inr show ?thesis
      by (auto simp: connect_unfold client_inv_def split: prod.splits outcome.splits)
  qed
qed

lemma client_inv_disconnect:
  "client_inv cd self \<Longrightarrow> client_inv cd (snd (disconnect self))"
  by (auto simp: client_inv_def disconnect_unfold handshake_first_def split: option.splits)

lemma client_inv_step:
  "client_inv cd self \<Longrightarrow> client_inv cd (client_step cd w self op)"
  by (cases op) (simp_all add: client_inv_connect client_inv_send_request client_inv_disconnect)

lemma client_inv_init: "client_inv cd MCPClient_init"
  by (simp add: client_inv_def MCPClient_init_def)

lemma client_inv_foldl:
  "client_inv cd self \<Longrightarrow> client_inv cd (foldl (client_step cd w) self ops)"
  by (induction ops arbitrary: self) (simp_all add: client_inv_step)

text \<open>
  C7: In every state a new client reaches through any sequence of \<open>connect\<close>,
  \<open>send_request\<close> and \<open>disconnect\<close>, whatever their outcomes: a client without a process
  is not \<open>connected\<close>, and the first line a child process ever receives is the
  \<open>initialize\<close> request (a child that received nothing has exited).
\<close>

theorem client_inv_run: "client_inv cd (client_run cd w MCPClient_init ops)"
  unfolding client_run_def by (rule client_inv_foldl) (rule client_inv_init)

theorem client_inv_run_witness:
  "client_inv demo_codec
     (client_run demo_codec demo_world MCPClient_init [Connect demo_config, Disconnect])
   \<and> connected (client_run demo_codec demo_world MCPClient_init [Connect demo_config])"
  using client_inv_run [of demo_codec demo_world "[Connect demo_config, Disconnect]"]
  by (simp add: client_run_def demo_connect)

end
