(* ===== verification/Endpoints.thy ===== *)
theory Endpoints
  imports Client
begin

text \<open>
  The HTTP layer of \<open>src/mcp-client.py\<close>: the request and response models (lines 26 to
  37), the two module-level objects \<open>mcp_config\<close> and \<open>mcp_client\<close> (lines 53, 142) as
  the record \<open>app\<close>, the lifecycle hooks (lines 144 to 155) and the five route handlers
  (lines 157 to 233). A handler is an action on \<open>app\<close>. FastAPI itself (routing, body
  validation, serialisation of the returned model) is not modelled: a request is a value
  of \<open>http_request\<close> whose body has already been validated into \<open>ToolCall\<close> or
  \<open>MCPRequest\<close>, and \<open>route\<close> is the routing table. The field \<open>error\<close> of a response
  holds the exception whose \<open>str\<close> the source stores.
\<close>

section \<open>Models\<close>

record MCPRequest =
  method_name :: pystr
  params :: "(pystr \<times> py) list option"

record MCPResponse =
  success :: bool
  result :: py
  error :: "exn option"

record ToolCall =
  tool_name :: pystr
  parameters :: "(pystr \<times> py) list"

record app =
  mcp_config :: MCPConfig
  mcp_client :: MCPClient

datatype http_request =
    GET_root
  | GET_tools
  | POST_tools_call ToolCall
  | POST_mcp_request MCPRequest
  | GET_health

datatype http_response = Json py | Model MCPResponse

section \<open>Start and stop\<close>

definition boot :: "codec \<Rightarrow> world \<Rightarrow> app" where
  "boot cd w =
     \<lparr>mcp_config = MCPConfig_init cd w default_config_path, mcp_client = MCPClient_init\<rparr>"

definition in_client :: "(MCPClient, 'a) action \<Rightarrow> (app, 'a) action" where
  "in_client = in_part mcp_client (\<lambda>c a. a\<lparr>mcp_client := c\<rparr>)"

definition startup_event :: "codec \<Rightarrow> world \<Rightarrow> (app, unit) action" where
  "startup_event cd w a =
     try_except (in_client (connect cd w (config (mcp_config a)))) (\<lambda>e. returns ()) a"

definition shutdown_event :: "(app, unit) action" where
  "shutdown_event = in_client disconnect"

section \<open>Handlers\<close>

definition py_or :: "py \<Rightarrow> py \<Rightarrow> py" where
  "py_or a b = (if truthy a then a else b)"

definition opt_dict :: "(pystr \<times> py) list option \<Rightarrow> py" where
  "opt_dict d = (case d of None \<Rightarrow> PyNone | Some kvs \<Rightarrow> PyDict kvs)"

definition response_of :: "py \<Rightarrow> MCPResponse result" where
  "response_of response =
     r_bind (contains ''error'' response) (\<lambda>has_error.
       if has_error then
         r_bind (getitem response ''error'') (\<lambda>detail. Inl (HTTPException 500 detail))
       else
         r_bind (dict_get response ''result'' (PyDict [])) (\<lambda>r.
           Inr \<lparr>success = True, result = r, error = None\<rparr>))"

definition failure :: "exn \<Rightarrow> MCPResponse" where
  "failure e = \<lparr>success = False, result = PyNone, error = Some e\<rparr>"

definition forward :: "codec \<Rightarrow> py \<Rightarrow> (app, MCPResponse) action" where
  "forward cd request =
     try_except
       (then_do (in_client (send_request cd request)) (\<lambda>response.
        lift_result (response_of response)))
       (\<lambda>e. returns (failure e))"

definition root :: "(app, py) action" where
  "root a =
     (Returns (PyDict [
        (''message'', PyStr ''MCP Bridge API is running''),
        (''connected'', PyBool (connected (mcp_client a)))]), a)"

definition tools_list_request :: py where
  "tools_list_request =
     PyDict [(''jsonrpc'', PyStr ''2.0''), (''id'', PyInt 2), (''method'', PyStr ''tools/list'')]"

definition list_tools :: "codec \<Rightarrow> (app, MCPResponse) action" where
  "list_tools cd = forward cd tools_list_request"

definition tools_call_request :: "ToolCall \<Rightarrow> py" where
  "tools_call_request tool_call =
     PyDict [
       (''jsonrpc'', PyStr ''2.0''),
       (''id'', PyInt 3),
       (''method'', PyStr ''tools/call''),
       (''params'', PyDict [
          (''name'', PyStr (tool_name tool_call)),
          (''arguments'', PyDict (parameters tool_call))])]"

definition call_tool :: "codec \<Rightarrow> ToolCall \<Rightarrow> (app, MCPResponse) action" where
  "call_tool cd tool_call = forward cd (tools_call_request tool_call)"

definition raw_request :: "MCPRequest \<Rightarrow> py" where
  "raw_request mcp_request =
     PyDict [
       (''jsonrpc'', PyStr ''2.0''),
       (''id'', PyInt 4),
       (''method'', PyStr (method_name mcp_request)),
       (''params'', py_or (opt_dict (params mcp_request)) (PyDict []))]"

definition send_mcp_request :: "codec \<Rightarrow> MCPRequest \<Rightarrow> (app, MCPResponse) action" where
  "send_mcp_request cd mcp_request = forward cd (raw_request mcp_request)"

definition health_check :: "(app, py) action" where
  "health_check a =
     (Returns (PyDict [
        (''status'', PyStr ''healthy''),
        (''mcp_connected'', PyBool (connected (mcp_client a))),
        (''config_loaded'', PyBool (truthy (config (mcp_config a))))]), a)"

section \<open>Routing and runs\<close>

definition as_json :: "(app, py) action \<Rightarrow> (app, http_response) action" where
  "as_json m = then_do m (\<lambda>v. returns (Json v))"

definition as_model :: "(app, MCPResponse) action \<Rightarrow> (app, http_response) action" where
  "as_model m = then_do m (\<lambda>r. returns (Model r))"

fun route :: "codec \<Rightarrow> http_request \<Rightarrow> (app, http_response) action" where
  "route cd GET_root = as_json root"
| "route cd GET_tools = as_model (list_tools cd)"
| "route cd (POST_tools_call tool_call) = as_model (call_tool cd tool_call)"
| "route cd (POST_mcp_request mcp_request) = as_model (send_mcp_request cd mcp_request)"
| "route cd GET_health = as_json health_check"

text \<open>
  Requests served one after the other; the run stops at a request that never completes.
\<close>

fun serve :: "codec \<Rightarrow> http_request list \<Rightarrow> (app, http_response list) action" where
  "serve cd [] = returns []"
| "serve cd (rq # rqs) =
     then_do (route cd rq) (\<lambda>r. then_do (serve cd rqs) (\<lambda>rs. returns (r # rs)))"

definition lifespan :: "codec \<Rightarrow> world \<Rightarrow> http_request list \<Rightarrow> (exn, http_response list) outcome \<times> app" where
  "lifespan cd w rqs =
     then_do (startup_event cd w) (\<lambda>_.
     then_do (serve cd rqs) (\<lambda>rs.
     then_do shutdown_event (\<lambda>_. returns rs))) (boot cd w)"

section \<open>A scenario\<close>

text \<open>
  The scenarios of section 8 of the specification: a server that answers \<open>initialize\<close>
  and \<open>tools/list\<close> (and any other line with a JSON-RPC error), the texts that
  \<open>json.dumps\<close> writes for the requests, and the codec on these messages.
\<close>

definition tools_list_text :: pystr where
  \<open>tools_list_text = ''{"jsonrpc": "2.0", "id": 2, "method": "tools/list"}''\<close>

definition tools_reply :: py where
  "tools_reply =
     PyDict [(''jsonrpc'', PyStr ''2.0''), (''id'', PyInt 2),
       (''result'', PyDict [(''tools'', PyList [])])]"

definition tools_reply_text :: pystr where
  \<open>tools_reply_text = ''{"jsonrpc":"2.0","id":2,"result":{"tools":[]}}''\<close>

definition not_found :: py where
  "not_found =
     PyDict [(''id'', PyInt 3),
       (''error'', PyDict [(''code'', PyInt (- 32601)), (''message'', PyStr ''Method not found'')])]"

definition not_found_text :: pystr where
  \<open>not_found_text = ''{"id":3,"error":{"code":-32601,"message":"Method not found"}}''\<close>

definition ping_call :: ToolCall where
  "ping_call = \<lparr>tool_name = ''ping'', parameters = []\<rparr>"

definition ping_text :: pystr where
  \<open>ping_text = ''{"jsonrpc": "2.0", "id": 3, "method": "tools/call", "params": {"name": "ping", "arguments": {}}}''\<close>

definition config_text :: pystr where
  \<open>config_text = ''{"mcpServers": {"echo": {"command": "echo-server", "args": []}}}''\<close>

definition bridge_codec :: codec where
  "bridge_codec =
     table_codec [(init_request, init_text), (tools_list_request, tools_list_text),
       (tools_call_request ping_call, ping_text), (init_reply, init_reply_text),
       (tools_reply, tools_reply_text), (not_found, not_found_text),
       (demo_config, config_text)]"

definition tool_answers :: "bytes list \<Rightarrow> bytes" where
  "tool_answers chunks =
     (if last chunks = init_text @ [newline] then init_reply_text
      else if last chunks = tools_list_text @ [newline] then tools_reply_text
      else not_found_text)"

definition tool_server :: server where
  "tool_server = line_server tool_answers"

definition scenario_world :: world where
  "scenario_world =
     \<lparr>files = (\<lambda>path. if path = ''mcp_config.json'' then Some config_text else None),
      programs = (\<lambda>argv. if argv = [''echo-server''] then Some tool_server else None)\<rparr>"

definition ready :: "server \<Rightarrow> bytes list \<Rightarrow> app" where
  "ready srv chunks =
     \<lparr>mcp_config = \<lparr>config_path = default_config_path, config = demo_config\<rparr>,
      mcp_client = \<lparr>process = Some ((started srv)\<lparr>stdin_log := chunks\<rparr>), connected = True\<rparr>\<rparr>"

lemmas endpoint_scenario_defs =
  tools_list_text_def tools_reply_def tools_reply_text_def not_found_def not_found_text_def
  ping_call_def ping_text_def config_text_def bridge_codec_def tool_answers_def
  tool_server_def scenario_world_def ready_def

lemmas endpoint_defs [py_defs] =
  boot_def in_client_def startup_event_def shutdown_event_def py_or_def opt_dict_def
  response_of_def failure_def forward_def root_def list_tools_def call_tool_def
  send_mcp_request_def health_check_def as_json_def as_model_def

lemmas request_defs =
  init_request_def tools_list_request_def tools_call_request_def raw_request_def

section \<open>Lifting the client\<close>

lemma in_client_eq:
  "in_client m a = (fst (m (mcp_client a)), a\<lparr>mcp_client := snd (m (mcp_client a))\<rparr>)"
  by (simp add: in_client_def in_part_def split: prod.splits)

lemma in_client_config [frame_simps, simp]:
  "mcp_config (snd (in_client m a)) = mcp_config a"
  by (simp add: in_client_eq)

section \<open>The response of a handler\<close>

lemma response_of_result:
  "map_of kvs ''error'' = None \<Longrightarrow>
     response_of (PyDict kvs) =
       Inr \<lparr>success = True,
            result = (case map_of kvs ''result'' of Some r \<Rightarrow> r | None \<Rightarrow> PyDict []),
            error = None\<rparr>"
  by (simp add: response_of_def map_of_eq_None_iff)

lemma response_of_error:
  "map_of kvs ''error'' = Some detail \<Longrightarrow>
     response_of (PyDict kvs) = Inl (HTTPException 500 detail)"
  by (force simp: response_of_def dest: map_of_SomeD)

lemma response_of_not_dict:
  "\<not> is_dict v \<Longrightarrow> \<exists>e. response_of v = Inl e \<and> e \<in> {TypeError, AttributeError}"
  by (cases v) (auto simp: response_of_def)

lemma forward_unfold:
  "forward cd request a =
     (case send_request cd request (mcp_client a) of
        (Returns response, c) \<Rightarrow>
          (Returns (case response_of response of Inl e \<Rightarrow> failure e | Inr r \<Rightarrow> r),
           a\<lparr>mcp_client := c\<rparr>)
      | (Raises e, c) \<Rightarrow> (Returns (failure e), a\<lparr>mcp_client := c\<rparr>)
      | (Blocks, c) \<Rightarrow> (Blocks, a\<lparr>mcp_client := c\<rparr>))"
  by (auto simp: forward_def try_except_def then_do_def in_client_eq lift_result_def
      split: prod.splits outcome.splits sum.splits)

lemma forward_never_raises: "never_raises (fst (forward cd request a))"
  by (simp add: forward_unfold split: prod.splits outcome.splits)

lemma forward_config [frame_simps, simp]: "mcp_config (snd (forward cd request a)) = mcp_config a"
  by (simp add: forward_unfold split: prod.splits outcome.splits)

lemma forward_client:
  "mcp_client (snd (forward cd request a)) = snd (send_request cd request (mcp_client a))"
  by (simp add: forward_unfold split: prod.splits outcome.splits)

lemma forward_connected [frame_simps, simp]:
  "connected (mcp_client (snd (forward cd request a))) = connected (mcp_client a)"
  by (simp add: forward_client)

lemma as_model_forward:
  "as_model (forward cd request) a =
     (case forward cd request a of
        (Returns r, a') \<Rightarrow> (Returns (Model r), a')
      | (Raises e, a') \<Rightarrow> (Raises e, a')
      | (Blocks, a') \<Rightarrow> (Blocks, a'))"
  by (simp add: as_model_def then_do_def split: prod.splits outcome.splits)

lemma as_model_never_raises: "never_raises (fst (as_model (forward cd request) a))"
  using forward_never_raises [of cd request a]
  by (auto simp: as_model_forward split: prod.splits outcome.splits)

text \<open>
  A route either answers from the state of the application alone, or forwards one request
  to the child.
\<close>

lemma route_cases:
  obtains (local) v where "route cd rq a = (Returns (Json v), a)"
  | (forwarded) request where "route cd rq a = as_model (forward cd request) a"
  by (cases rq)
    (auto simp: as_json_def root_def health_check_def list_tools_def call_tool_def
      send_mcp_request_def then_do_def)

lemma route_outcome: "fst (route cd rq a) \<noteq> Raises e"
  using as_model_never_raises [of cd _ a]
  by (cases rule: route_cases [of cd rq a]) (auto simp: never_raises_iff)

section \<open>The scenario, evaluated\<close>

lemma bridge_request_lines:
  "request_line bridge_codec init_request = init_text @ [newline]"
  "request_line bridge_codec tools_list_request = tools_list_text @ [newline]"
  "request_line bridge_codec (tools_call_request ping_call) = ping_text @ [newline]"
  by (simp_all add: request_line_def encode_def bridge_codec_def table_codec_def
      request_defs ping_call_def)

lemmas text_defs =
  init_text_def init_reply_text_def tools_list_text_def tools_reply_text_def
  not_found_text_def ping_text_def config_text_def

lemmas parse_defs =
  parse_line_def decode_def strip_def lstrip_def rstrip_def lstrip_by.simps
  py_whitespace_def in_range_def bridge_codec_def table_codec_def text_defs

lemma bridge_parse:
  "parse_line bridge_codec (init_reply_text @ [newline]) = Inr init_reply"
  "parse_line bridge_codec (tools_reply_text @ [newline]) = Inr tools_reply"
  "parse_line bridge_codec (not_found_text @ [newline]) = Inr not_found"
  by (simp_all add: parse_defs)

lemma reply_text_lines:
  "newline \<notin> set tools_reply_text" "length tools_reply_text \<le> stream_limit"
  "newline \<notin> set not_found_text" "length not_found_text \<le> stream_limit"
  by (simp_all add: text_defs stream_limit_def)

lemma tool_server_react:
  "react tool_server (chunks @ [init_text @ [newline]]) =
     \<lparr>emits = init_reply_text @ [newline], exits = False\<rparr>"
  "react tool_server (chunks @ [tools_list_text @ [newline]]) =
     \<lparr>emits = tools_reply_text @ [newline], exits = False\<rparr>"
  "react tool_server (chunks @ [ping_text @ [newline]]) =
     \<lparr>emits = not_found_text @ [newline], exits = False\<rparr>"
  "react tool_server [] = \<lparr>emits = [], exits = False\<rparr>"
  by (simp_all add: tool_server_def tool_answers_def line_server_def text_defs)

lemma tool_server_exchange:
  "exchange bridge_codec tools_list_request ((started tool_server)\<lparr>stdin_log := chunks\<rparr>) =
     (Returns tools_reply,
      (started tool_server)\<lparr>stdin_log := chunks @ [tools_list_text @ [newline]]\<rparr>)"
  "exchange bridge_codec (tools_call_request ping_call)
       ((started tool_server)\<lparr>stdin_log := chunks\<rparr>) =
     (Returns not_found, (started tool_server)\<lparr>stdin_log := chunks @ [ping_text @ [newline]]\<rparr>)"
  using exchange_line [of "(started tool_server)\<lparr>stdin_log := chunks\<rparr>" bridge_codec
      tools_list_request tools_reply_text "[]"]
    exchange_line [of "(started tool_server)\<lparr>stdin_log := chunks\<rparr>" bridge_codec
      "tools_call_request ping_call" not_found_text "[]"]
  by (simp_all add: bridge_request_lines tool_server_react reply_text_lines bridge_parse
      deliver_def)

lemma ready_send_request:
  "send_request bridge_codec tools_list_request (mcp_client (ready tool_server chunks)) =
     (Returns tools_reply,
      mcp_client (ready tool_server (chunks @ [tools_list_text @ [newline]])))"
  "send_request bridge_codec (tools_call_request ping_call)
       (mcp_client (ready tool_server chunks)) =
     (Returns not_found, mcp_client (ready tool_server (chunks @ [ping_text @ [newline]])))"
  by (simp_all add: send_request_exchange on_process_def ready_def tool_server_exchange)

section \<open>Handlers\<close>

text \<open>
  C8: No route handler raises, whatever the child and the codec do: every exception,
  the \<open>HTTPException(500)\<close> that the handler itself raises on an error response
  included, is caught by the handler's own \<open>except Exception\<close> and returned as a
  response body. The bridge never answers with status 500.
\<close>

theorem route_never_raises: "never_raises (fst (route cd rq a))"
  by (simp add: never_raises_iff route_outcome)

text \<open>
  C9: When \<open>send_request\<close> returns a dict without an \<open>error\<close> key, the handler answers
  \<open>success=True\<close> with the value of \<open>result\<close>, or the empty dict when the response has
  no \<open>result\<close>. Neither the \<open>id\<close> nor the \<open>jsonrpc\<close> field of the response is read.
\<close>

theorem forward_result:
  assumes "send_request cd request (mcp_client a) = (Returns (PyDict kvs), c)"
    and "map_of kvs ''error'' = None"
  shows "forward cd request a =
     (Returns \<lparr>success = True,
               result = (case map_of kvs ''result'' of Some r \<Rightarrow> r | None \<Rightarrow> PyDict []),
               error = None\<rparr>,
      a\<lparr>mcp_client := c\<rparr>)"
  using assms by (simp add: forward_unfold response_of_result)

theorem forward_result_witness:
  "forward bridge_codec tools_list_request (ready tool_server [init_text @ [newline]]) =
     (Returns \<lparr>success = True, result = PyDict [(''tools'', PyList [])], error = None\<rparr>,
      ready tool_server [init_text @ [newline], tools_list_text @ [newline]])"
  using forward_result [OF ready_send_request(1)
      [of "[init_text @ [newline]]", unfolded tools_reply_def]]
  by (simp add: ready_def)

text \<open>
  C10: When \<open>send_request\<close> returns a dict with an \<open>error\<close> key, the handler answers
  \<open>success=False\<close>, its error being the \<open>HTTPException(500)\<close> it raised and caught
  itself, with the server's error object as detail. The session is left as
  \<open>send_request\<close> left it.
\<close>

theorem forward_remote_error:
  assumes "send_request cd request (mcp_client a) = (Returns (PyDict kvs), c)"
    and "map_of kvs ''error'' = Some detail"
  shows "forward cd request a =
     (Returns \<lparr>success = False, result = PyNone, error = Some (HTTPException 500 detail)\<rparr>,
      a\<lparr>mcp_client := c\<rparr>)"
  using assms by (simp add: forward_unfold response_of_error failure_def)

theorem forward_remote_error_witness:
  "forward bridge_codec (tools_call_request ping_call) (ready tool_server [init_text @ [newline]]) =
     (Returns \<lparr>success = False, result = PyNone,
        error = Some (HTTPException 500
          (PyDict [(''code'', PyInt (- 32601)), (''message'', PyStr ''Method not found'')]))\<rparr>,
      ready tool_server [init_text @ [newline], ping_text @ [newline]])"
  using forward_remote_error [OF ready_send_request(2)
      [of "[init_text @ [newline]]", unfolded not_found_def]]
  by (simp add: ready_def)

text \<open>
  C24: The handlers do not look at \<open>connected\<close>: the outcome of forwarding a request, and
  what it does to the process, are the same whether the flag is set or not.
\<close>

theorem forward_ignores_connected:
  "fst (forward cd request (a\<lparr>mcp_client := (mcp_client a)\<lparr>connected := b\<rparr>\<rparr>)) =
     fst (forward cd request a)
   \<and> process (mcp_client (snd (forward cd request
         (a\<lparr>mcp_client := (mcp_client a)\<lparr>connected := b\<rparr>\<rparr>)))) =
     process (mcp_client (snd (forward cd request a)))"
proof (cases "process (mcp_client a)")
  case None
  then show ?thesis by (simp add: forward_unfold send_request_None)
next
  case (Some p)
  then show ?thesis
    by (simp add: forward_unfold send_request_exchange on_process_def
        split: prod.splits outcome.splits)
qed

section \<open>Start and stop\<close>

lemma startup_event_unfold:
  "startup_event cd w a =
     (case connect cd w (config (mcp_config a)) (mcp_client a) of
        (Returns u, c) \<Rightarrow> (Returns (), a\<lparr>mcp_client := c\<rparr>)
      | (Raises e, c) \<Rightarrow> (Returns (), a\<lparr>mcp_client := c\<rparr>)
      | (Blocks, c) \<Rightarrow> (Blocks, a\<lparr>mcp_client := c\<rparr>))"
  by (simp add: startup_event_def try_except_def in_client_eq split: prod.splits outcome.splits)

text \<open>
  C25: When the configuration file cannot be read, the application still starts:
  \<open>startup_event\<close> returns with a client that has no process and is not connected, and
  a request for the tools is then answered \<open>success=False\<close> with the error "MCP server
  not connected".
\<close>

theorem startup_without_config:
  assumes "files w default_config_path = None"
  shows "then_do (startup_event cd w) (\<lambda>_. list_tools cd) (boot cd w) =
     (Returns (failure (Exception ''MCP server not connected'')), boot cd w)"
proof -
  from assms have cfg: "config (mcp_config (boot cd w)) = PyDict []"
    by (simp add: boot_def load_config_missing)
  have "full_command (PyDict []) = Inl (Exception ''No MCP server configuration found'')"
    by (simp add: full_command_def)
  with cfg have "startup_event cd w (boot cd w) = (Returns (), boot cd w)"
    by (simp add: startup_event_unfold connect_config_error boot_def)
  then show ?thesis
    by (simp add: then_do_def list_tools_def forward_unfold boot_def MCPClient_init_def
        send_request_None)
qed

theorem startup_without_config_witness:
  "then_do (startup_event bridge_codec (one_program [] tool_server))
       (\<lambda>_. list_tools bridge_codec) (boot bridge_codec (one_program [] tool_server)) =
     (Returns (failure (Exception ''MCP server not connected'')),
      boot bridge_codec (one_program [] tool_server))"
  using startup_without_config [of "one_program [] tool_server" bridge_codec]
  by (simp add: one_program_def)

end
