(* ===== verification/Session.thy ===== *)
theory Session
  imports Endpoints
begin

text \<open>
  What the bridge promises to its HTTP clients when the child answers every line it receives
  with exactly one line. The bridge and the child then form a queue: each forwarded request
  appends the server's answer to the lines not yet read and takes the first of them as its
  response. When no line is pending, each request is answered with the server's answer to
  that very request; when lines are pending (the child printed something that no request
  asked for), each request is answered with an older line, and the number of pending lines
  never changes. The promise is an abstract machine (\<open>spec_step\<close>, \<open>spec_run\<close>) on a
  \<open>session\<close> that records the lines sent, the lines pending and the two flags the status
  routes report; \<open>route\<close>, \<open>serve\<close> and \<open>lifespan\<close> of \<open>src/mcp-client.py\<close> are shown to
  refine it.
\<close>

section \<open>Servers that answer line by line\<close>

type_synonym answerer = "bytes list \<Rightarrow> bytes"

definition framed :: "bytes \<Rightarrow> bool" where
  "framed l = (newline \<notin> set l \<and> length l \<le> stream_limit)"

definition well_framed :: "answerer \<Rightarrow> bool" where
  "well_framed f = (\<forall>chunks. framed (f chunks))"

definition frames :: "bytes list \<Rightarrow> bytes" where
  "frames q = concat (map (\<lambda>l. l @ [newline]) q)"

text \<open>
  \<open>answers_by f srv\<close>: the server answers every chunk it receives with the line that \<open>f\<close>
  gives and keeps running, and it exits when it is terminated.
\<close>

definition answers_by :: "answerer \<Rightarrow> server \<Rightarrow> bool" where
  "answers_by f srv =
     ((\<forall>chunks. chunks \<noteq> [] \<longrightarrow>
         react srv chunks = \<lparr>emits = f chunks @ [newline], exits = False\<rparr>)
      \<and> dies_on_sigterm srv)"

section \<open>The abstract machine\<close>

record session =
  sent :: "bytes list"
  pending :: "bytes list"
  is_connected :: bool
  is_configured :: bool

definition head_line :: "answerer \<Rightarrow> session \<Rightarrow> bytes \<Rightarrow> bytes" where
  "head_line f s line = hd (pending s @ [f (sent s @ [line])])"

definition after_call :: "answerer \<Rightarrow> bytes \<Rightarrow> session \<Rightarrow> session" where
  "after_call f line s =
     s\<lparr>sent := sent s @ [line], pending := tl (pending s @ [f (sent s @ [line])])\<rparr>"

definition reads :: "codec \<Rightarrow> answerer \<Rightarrow> session \<Rightarrow> py \<Rightarrow> py result" where
  "reads cd f s request = parse_line cd (head_line f s (request_line cd request) @ [newline])"

fun request_of :: "http_request \<Rightarrow> py option" where
  "request_of GET_tools = Some tools_list_request"
| "request_of (POST_tools_call tool_call) = Some (tools_call_request tool_call)"
| "request_of (POST_mcp_request mcp_request) = Some (raw_request mcp_request)"
| "request_of _ = None"

fun status_of :: "http_request \<Rightarrow> session \<Rightarrow> http_response" where
  "status_of GET_health s =
     Json (PyDict [(''status'', PyStr ''healthy''), (''mcp_connected'', PyBool (is_connected s)),
       (''config_loaded'', PyBool (is_configured s))])"
| "status_of _ s =
     Json (PyDict [(''message'', PyStr ''MCP Bridge API is running''),
       (''connected'', PyBool (is_connected s))])"

inductive spec_step ::
  "codec \<Rightarrow> answerer \<Rightarrow> session \<Rightarrow> http_request \<Rightarrow> http_response \<Rightarrow> session \<Rightarrow> bool"
  for cd :: codec and f :: answerer where
  status: "request_of rq = None \<Longrightarrow> spec_step cd f s rq (status_of rq s) s"
| result:
    "request_of rq = Some request \<Longrightarrow> reads cd f s request = Inr (PyDict kvs) \<Longrightarrow>
     map_of kvs ''error'' = None \<Longrightarrow>
     spec_step cd f s rq
       (Model \<lparr>success = True,
          result = (case map_of kvs ''result'' of Some v \<Rightarrow> v | None \<Rightarrow> PyDict []),
          error = None\<rparr>)
       (after_call f (request_line cd request) s)"
| remote_error:
    "request_of rq = Some request \<Longrightarrow> reads cd f s request = Inr (PyDict kvs) \<Longrightarrow>
     map_of kvs ''error'' = Some detail \<Longrightarrow>
     spec_step cd f s rq
       (Model \<lparr>success = False, result = PyNone, error = Some (HTTPException 500 detail)\<rparr>)
       (after_call f (request_line cd request) s)"
| malformed:
    "request_of rq = Some request \<Longrightarrow> reads cd f s request = Inl e \<Longrightarrow>
     spec_step cd f s rq
       (Model \<lparr>success = False, result = PyNone, error = Some e\<rparr>)
       (after_call f (request_line cd request) s)"
| not_object:
    "request_of rq = Some request \<Longrightarrow> reads cd f s request = Inr v \<Longrightarrow>
     \<not> is_dict v \<Longrightarrow>
     spec_step cd f s rq
       (Model \<lparr>success = False, result = PyNone, error = Some e\<rparr>)
       (after_call f (request_line cd request) s)"

inductive spec_run ::
  "codec \<Rightarrow> answerer \<Rightarrow> session \<Rightarrow> http_request list \<Rightarrow> http_response list \<Rightarrow> session \<Rightarrow> bool"
  for cd :: codec and f :: answerer where
  finished: "spec_run cd f s [] [] s"
| served:
    "spec_step cd f s rq r s' \<Longrightarrow> spec_run cd f s' rqs rs s'' \<Longrightarrow>
     spec_run cd f s (rq # rqs) (r # rs) s''"

inductive_cases spec_run_NilE: "spec_run cd f s [] rs s'"
inductive_cases spec_run_ConsE: "spec_run cd f s (rq # rqs) rs s'"

section \<open>The abstraction\<close>

definition queued :: "answerer \<Rightarrow> bytes list \<Rightarrow> MCPClient \<Rightarrow> bool" where
  "queued f q self =
     (case process self of
        None \<Rightarrow> False
      | Some p \<Rightarrow> answers_by f (server p) \<and> stdout_buf p = frames q \<and> \<not> exited p)"

definition sent_of :: "MCPClient \<Rightarrow> bytes list" where
  "sent_of self = (case process self of None \<Rightarrow> [] | Some p \<Rightarrow> stdin_log p)"

definition session_of :: "bytes list \<Rightarrow> app \<Rightarrow> session" where
  "session_of q a =
     \<lparr>sent = sent_of (mcp_client a), pending = q, is_connected = connected (mcp_client a),
      is_configured = truthy (config (mcp_config a))\<rparr>"

definition advance :: "answerer \<Rightarrow> bytes list \<Rightarrow> bytes \<Rightarrow> MCPClient \<Rightarrow> MCPClient" where
  "advance f q line self =
     self\<lparr>process :=
       map_option (\<lambda>p. p\<lparr>stdin_log := stdin_log p @ [line],
         stdout_buf := frames (tl (q @ [f (stdin_log p @ [line])]))\<rparr>) (process self)\<rparr>"

lemmas session_defs =
  queued_def sent_of_def session_of_def advance_def after_call_def head_line_def reads_def

text \<open>
  The session after start-up against a server that printed the lines \<open>banner\<close> when it
  started: the handshake has sent the \<open>initialize\<close> line and taken the first pending line
  as its response.
\<close>

definition spec_boot :: "bytes list \<Rightarrow> session" where
  "spec_boot banner = \<lparr>sent = [], pending = banner, is_connected = False, is_configured = True\<rparr>"

definition spec_start :: "codec \<Rightarrow> answerer \<Rightarrow> bytes list \<Rightarrow> session" where
  "spec_start cd f banner =
     (after_call f (request_line cd init_request) (spec_boot banner))
       \<lparr>is_connected := \<not> isl (reads cd f (spec_boot banner) init_request)\<rparr>"

text \<open>The response a handler makes of what \<open>send_request\<close> read, and the server's answer.\<close>

definition reply :: "py result \<Rightarrow> MCPResponse" where
  "reply r = (case r_bind r response_of of Inl e \<Rightarrow> failure e | Inr m \<Rightarrow> m)"

definition answer :: "codec \<Rightarrow> answerer \<Rightarrow> bytes list \<Rightarrow> py \<Rightarrow> py result" where
  "answer cd f chunks request = parse_line cd (f (chunks @ [request_line cd request]) @ [newline])"

section \<open>A scenario\<close>

text \<open>
  A server that prints a banner when it starts and then answers as \<open>tool_server\<close>, the
  world in which the configured program is a given server, and the application after its
  start-up against the server with the banner: the reply to \<open>initialize\<close> is still unread.
\<close>

definition banner_server :: server where
  "banner_server =
     \<lparr>react = (\<lambda>chunks.
        if chunks = [] then \<lparr>emits = ''server ready'' @ [newline], exits = False\<rparr>
        else react tool_server chunks),
      dies_on_sigterm = True\<rparr>"

definition world_of :: "server \<Rightarrow> world" where
  "world_of srv =
     scenario_world\<lparr>programs := (\<lambda>argv. if argv = [''echo-server''] then Some srv else None)\<rparr>"

definition behind :: app where
  "behind =
     \<lparr>mcp_config = \<lparr>config_path = default_config_path, config = demo_config\<rparr>,
      mcp_client =
        \<lparr>process = Some ((started banner_server)
           \<lparr>stdin_log := [init_text @ [newline]], stdout_buf := init_reply_text @ [newline]\<rparr>),
         connected = False\<rparr>\<rparr>"

lemmas session_scenario_defs =
  spec_boot_def spec_start_def answer_def banner_server_def world_of_def behind_def

section \<open>Properties of the abstract machine\<close>

lemma after_call_fields [simp]:
  "sent (after_call f line s) = sent s @ [line]"
  "length (pending (after_call f line s)) = length (pending s)"
  "is_connected (after_call f line s) = is_connected s"
  "is_configured (after_call f line s) = is_configured s"
  by (simp_all add: after_call_def)

lemma after_call_in_step [simp]: "pending s = [] \<Longrightarrow> pending (after_call f line s) = []"
  by (simp add: after_call_def)

lemma head_line_in_step: "pending s = [] \<Longrightarrow> head_line f s line = f (sent s @ [line])"
  by (simp add: head_line_def)

lemma head_line_lagging: "pending s = l # q \<Longrightarrow> head_line f s line = l"
  by (simp add: head_line_def)

lemma spec_step_flags:
  "spec_step cd f s rq r s' \<Longrightarrow>
     is_connected s' = is_connected s \<and> is_configured s' = is_configured s"
  by (induction rule: spec_step.induct) simp_all

lemma spec_step_lag: "spec_step cd f s rq r s' \<Longrightarrow> length (pending s') = length (pending s)"
  by (induction rule: spec_step.induct) simp_all

lemma spec_step_sent:
  "spec_step cd f s rq r s' \<Longrightarrow>
     sent s' = sent s @ map (request_line cd) (List.map_filter request_of [rq])"
  by (induction rule: spec_step.induct) (simp_all add: List.map_filter_simps)

lemma spec_run_sent:
  "spec_run cd f s rqs rs s' \<Longrightarrow>
     sent s' = sent s @ map (request_line cd) (List.map_filter request_of rqs)"
proof (induction rule: spec_run.induct)
  case (finished s)
  then show ?case by (simp add: List.map_filter_simps)
next
  case (served s rq r s' rqs rs s'')
  then show ?case
    using spec_step_sent [of cd f s rq r s']
    by (cases "request_of rq") (simp_all add: List.map_filter_simps)
qed

lemma spec_run_length: "spec_run cd f s rqs rs s' \<Longrightarrow> length rs = length rqs"
  by (induction rule: spec_run.induct) simp_all

lemma spec_run_lag: "spec_run cd f s rqs rs s' \<Longrightarrow> length (pending s') = length (pending s)"
  by (induction rule: spec_run.induct) (auto dest: spec_step_lag)

lemma spec_run_flags:
  "spec_run cd f s rqs rs s' \<Longrightarrow>
     is_connected s' = is_connected s \<and> is_configured s' = is_configured s"
  by (induction rule: spec_run.induct) (auto dest: spec_step_flags)

lemma spec_run_single:
  "spec_run cd f s [rq] rs s' \<longleftrightarrow> (\<exists>r. rs = [r] \<and> spec_step cd f s rq r s')"
  by (auto elim!: spec_run_ConsE spec_run_NilE intro: spec_run.intros)

section \<open>Frames\<close>

lemma frames_simps [simp]:
  "frames [] = []" "frames (l # q) = l @ newline # frames q"
  by (simp_all add: frames_def)

lemma frames_append [simp]: "frames (q @ q') = frames q @ frames q'"
  by (simp add: frames_def)

lemma list_all_framed_tl:
  "list_all framed q \<Longrightarrow> framed l \<Longrightarrow> list_all framed (tl (q @ [l]))"
  by (cases q) simp_all

lemma framed_hd: "list_all framed q \<Longrightarrow> framed l \<Longrightarrow> framed (hd (q @ [l]))"
  by (cases q) simp_all

section \<open>One request through the queue\<close>

lemma queued_exchange:
  assumes "answers_by f (server p)" and "stdout_buf p = frames q" and "\<not> exited p"
    and "list_all framed q" and "well_framed f"
  shows "exchange cd request p =
     lift_result (parse_line cd (hd (q @ [f (stdin_log p @ [request_line cd request])]) @ [newline]))
       (p\<lparr>stdin_log := stdin_log p @ [request_line cd request],
          stdout_buf := frames (tl (q @ [f (stdin_log p @ [request_line cd request])]))\<rparr>)"
proof -
  let ?log = "stdin_log p @ [request_line cd request]"
  let ?q = "q @ [f ?log]"
  from assms(1) have r: "react (server p) ?log = \<lparr>emits = f ?log @ [newline], exits = False\<rparr>"
    by (simp add: answers_by_def)
  obtain l rest where q: "?q = l # rest" by (cases ?q) auto
  from assms(4,5) have "framed (hd ?q)" by (intro framed_hd) (simp_all add: well_framed_def)
  with q have l: "newline \<notin> set l" "length l \<le> stream_limit" by (simp_all add: framed_def)
  from assms(2) r have "stdout_buf (deliver (request_line cd request) p) = frames ?q"
    by simp
  with q have "stdout_buf (deliver (request_line cd request) p) = l @ newline # frames rest"
    by simp
  from exchange_line [OF assms(3) this l]
  have "exchange cd request p =
      lift_result (parse_line cd (l @ [newline]))
        ((deliver (request_line cd request) p)\<lparr>stdout_buf := frames rest\<rparr>)" .
  moreover from assms(3) r have "(deliver (request_line cd request) p)\<lparr>stdout_buf := frames rest\<rparr> =
      p\<lparr>stdin_log := ?log, stdout_buf := frames rest\<rparr>"
    by (cases p) (simp add: deliver_def Let_def)
  ultimately show ?thesis using q by simp
qed

lemma queued_send_request:
  assumes "queued f q self" and "list_all framed q" and "well_framed f"
  shows "send_request cd request self =
     lift_result
       (parse_line cd (hd (q @ [f (sent_of self @ [request_line cd request])]) @ [newline]))
       (advance f q (request_line cd request) self)"
proof -
  from assms(1) obtain p where p: "process self = Some p" "answers_by f (server p)"
      "stdout_buf p = frames q" "\<not> exited p"
    by (auto simp: queued_def split: option.splits)
  let ?r = "parse_line cd (hd (q @ [f (stdin_log p @ [request_line cd request])]) @ [newline])"
  from p show ?thesis
    using queued_exchange [OF p(2-4) assms(2,3), of cd request]
    by (cases ?r) (simp_all add: send_request_exchange on_process_def sent_of_def advance_def)
qed

lemma queued_advance:
  "queued f q self \<Longrightarrow>
     queued f (tl (q @ [f (sent_of self @ [line])])) (advance f q line self)"
  by (auto simp: queued_def advance_def sent_of_def split: option.splits)

lemma session_of_advance:
  "queued f q (mcp_client a) \<Longrightarrow>
     session_of (tl (q @ [f (sent_of (mcp_client a) @ [line])]))
       (a\<lparr>mcp_client := advance f q line (mcp_client a)\<rparr>) =
     after_call f line (session_of q a)"
  by (auto simp: session_defs split: option.splits)

lemma count_list_frames:
  "list_all framed q \<Longrightarrow> count_list (frames q) newline = length q"
  by (induction q) (simp_all add: framed_def count_list_0_iff_notin)

section \<open>Routes through the queue\<close>

lemma route_status:
  "request_of rq = None \<Longrightarrow> route cd rq a = (Returns (status_of rq (session_of q a)), a)"
  by (cases rq) (simp_all add: as_json_def root_def health_check_def then_do_def session_of_def)

lemma route_forward:
  "request_of rq = Some request \<Longrightarrow> route cd rq a = as_model (forward cd request) a"
  by (cases rq) (auto simp: list_tools_def call_tool_def send_mcp_request_def)

lemma forward_queued:
  assumes "queued f q (mcp_client a)" and "list_all framed q" and "well_framed f"
  shows "forward cd request a =
     (Returns (reply (reads cd f (session_of q a) request)),
      a\<lparr>mcp_client := advance f q (request_line cd request) (mcp_client a)\<rparr>)"
  using assms
  by (cases "reads cd f (session_of q a) request")
    (simp_all add: forward_unfold queued_send_request reply_def reads_def head_line_def
      session_of_def)

lemma spec_step_reply:
  assumes "request_of rq = Some request"
  shows "spec_step cd f s rq (Model (reply (reads cd f s request)))
     (after_call f (request_line cd request) s)"
proof (cases "reads cd f s request")
  case (Inl e)
  with assms show ?thesis
    by (simp add: reply_def failure_def spec_step.malformed)
next
  case (Inr v)
  show ?thesis
  proof (cases "is_dict v")
    case False
    with response_of_not_dict obtain e where "response_of v = Inl e" by blast
    with Inr assms False show ?thesis
      by (simp add: reply_def failure_def spec_step.not_object)
  next
    case True
    then obtain kvs where "v = PyDict kvs" by (cases v) auto
    with Inr assms show ?thesis
      by (cases "map_of kvs ''error''")
        (simp_all add: reply_def response_of_result response_of_error failure_def
          spec_step.result spec_step.remote_error)
  qed
qed

lemma route_queued:
  assumes "queued f q (mcp_client a)" and "list_all framed q" and "well_framed f"
  shows "\<exists>r a' q'. route cd rq a = (Returns r, a')
     \<and> spec_step cd f (session_of q a) rq r (session_of q' a')
     \<and> queued f q' (mcp_client a') \<and> list_all framed q'"
proof (cases "request_of rq")
  case None
  with assms show ?thesis
    using route_status [of rq cd a q] spec_step.status [of rq cd f "session_of q a"] by auto
next
  case (Some request)
  let ?line = "request_line cd request"
  let ?q = "tl (q @ [f (sent_of (mcp_client a) @ [?line])])"
  let ?a = "a\<lparr>mcp_client := advance f q ?line (mcp_client a)\<rparr>"
  from Some assms have "route cd rq a = (Returns (Model (reply (reads cd f (session_of q a) request))), ?a)"
    by (simp add: route_forward as_model_forward forward_queued)
  moreover from assms(1) have "session_of ?q ?a = after_call f ?line (session_of q a)"
    by (rule session_of_advance)
  moreover from assms(1) have "queued f ?q (mcp_client ?a)"
    by (simp add: queued_advance)
  moreover from assms(2,3) have "list_all framed ?q"
    by (intro list_all_framed_tl) (simp_all add: well_framed_def)
  ultimately show ?thesis
    using spec_step_reply [OF Some, of cd f "session_of q a"] by metis
qed

lemma serve_queued:
  assumes "queued f q (mcp_client a)" and "list_all framed q" and "well_framed f"
  shows "\<exists>rs a' q'. serve cd rqs a = (Returns rs, a')
     \<and> spec_run cd f (session_of q a) rqs rs (session_of q' a')
     \<and> queued f q' (mcp_client a') \<and> list_all framed q'"
  using assms(1,2)
proof (induction rqs arbitrary: a q)
  case Nil
  then show ?case by (auto intro: spec_run.finished)
next
  case (Cons rq rqs)
  from route_queued [OF Cons.prems assms(3)] obtain r a' q' where
    r: "route cd rq a = (Returns r, a')" "spec_step cd f (session_of q a) rq r (session_of q' a')"
      "queued f q' (mcp_client a')" "list_all framed q'"
    by blast
  from Cons.IH [OF r(3,4)] obtain rs a'' q'' where
    rs: "serve cd rqs a' = (Returns rs, a'')"
      "spec_run cd f (session_of q' a') rqs rs (session_of q'' a'')"
      "queued f q'' (mcp_client a'')" "list_all framed q''"
    by blast
  from r rs have "serve cd (rq # rqs) a = (Returns (r # rs), a'')"
    by (simp add: then_do_def)
  with r(2) rs(2-4) show ?case
    by (blast intro: spec_run.served)
qed

section \<open>Start and stop\<close>

lemma full_command_truthy:
  assumes "full_command cfg = Inr argv"
  shows "truthy cfg"
proof (cases cfg)
  case (PyDict kvs)
  with assms show ?thesis
    by (cases kvs) (auto simp: full_command_def)
qed (use assms in \<open>simp_all add: full_command_def\<close>)

lemma startup_queued:
  assumes "full_command (config (mcp_config a)) = Inr argv"
    and "create_subprocess_exec w argv = Inr (started srv)"
    and "react srv [] = \<lparr>emits = frames banner, exits = False\<rparr>" and "list_all framed banner"
    and "answers_by f srv" and "well_framed f"
  shows "\<exists>a'. startup_event cd w a = (Returns (), a')
     \<and> queued f (tl (banner @ [f [request_line cd init_request]])) (mcp_client a')
     \<and> sent_of (mcp_client a') = [request_line cd init_request]
     \<and> connected (mcp_client a') =
         (connected (mcp_client a)
          \<or> \<not> isl (parse_line cd (hd (banner @ [f [request_line cd init_request]]) @ [newline])))
     \<and> mcp_config a' = mcp_config a"
proof -
  let ?line = "request_line cd init_request"
  let ?r = "parse_line cd (hd (banner @ [f [?line]]) @ [newline])"
  let ?p = "(started srv)\<lparr>stdin_log := [?line], stdout_buf := frames (tl (banner @ [f [?line]]))\<rparr>"
  from assms(3) have "exchange cd init_request (started srv) = lift_result ?r ?p"
    using queued_exchange [of f "started srv" banner cd init_request] assms(4-6) by simp
  with assms(1,2) have "startup_event cd w a =
      (Returns (), a\<lparr>mcp_client :=
         \<lparr>process = Some ?p, connected = (connected (mcp_client a) \<or> \<not> isl ?r)\<rparr>\<rparr>)"
    by (cases ?r; cases "mcp_client a") (simp_all add: startup_event_unfold connect_spawned)
  with assms(3,5) show ?thesis
    by (simp add: queued_def sent_of_def)
qed

lemma shutdown_queued:
  "queued f q (mcp_client a) \<Longrightarrow> fst (shutdown_event a) = Returns ()"
  by (auto simp: shutdown_event_def in_client_eq disconnect_unfold queued_def answers_by_def
      split: option.splits)

lemma lifespan_queued:
  assumes "full_command (config (mcp_config (boot cd w))) = Inr argv"
    and "create_subprocess_exec w argv = Inr (started srv)"
    and "react srv [] = \<lparr>emits = frames banner, exits = False\<rparr>" and "list_all framed banner"
    and "answers_by f srv" and "well_framed f"
  shows "\<exists>rs s'. fst (lifespan cd w rqs) = Returns rs \<and> spec_run cd f (spec_start cd f banner) rqs rs s'"
proof -
  let ?q = "tl (banner @ [f [request_line cd init_request]])"
  from startup_queued [OF assms, of cd] obtain a where
    a: "startup_event cd w (boot cd w) = (Returns (), a)" "queued f ?q (mcp_client a)"
      "session_of ?q a = spec_start cd f banner"
    using full_command_truthy [OF assms(1)]
    by (auto simp: session_defs spec_boot_def spec_start_def boot_def MCPClient_init_def)
  from assms(4,6) have "list_all framed ?q"
    by (intro list_all_framed_tl) (simp_all add: well_framed_def)
  from serve_queued [OF a(2) this assms(6)] obtain rs a' q' where
    rs: "serve cd rqs a = (Returns rs, a')" "spec_run cd f (session_of ?q a) rqs rs (session_of q' a')"
      "queued f q' (mcp_client a')"
    by blast
  with a shutdown_queued [OF rs(3)] show ?thesis
    by (cases "shutdown_event a'") (auto simp: lifespan_def then_do_def)
qed

section \<open>The scenario in the queue\<close>

lemma tool_answers_well_framed: "well_framed tool_answers"
  by (simp add: well_framed_def framed_def tool_answers_def text_defs stream_limit_def)

lemma tool_server_answers: "answers_by tool_answers tool_server"
  by (simp add: answers_by_def tool_server_def)

lemma banner_server_answers: "answers_by tool_answers banner_server"
  by (simp add: answers_by_def banner_server_def tool_server_def)

lemma ready_queued: "queued tool_answers [] (mcp_client (ready tool_server chunks))"
  by (simp add: queued_def ready_def tool_server_answers tool_server_react)

lemma behind_queued: "queued tool_answers [init_reply_text] (mcp_client behind)"
  by (simp add: queued_def behind_def banner_server_answers) (simp add: banner_server_def)

lemma init_reply_text_framed: "framed init_reply_text"
  by (simp add: framed_def init_reply_text_line)

lemma scenario_boot:
  "boot bridge_codec (world_of srv) =
     \<lparr>mcp_config = \<lparr>config_path = default_config_path, config = demo_config\<rparr>,
      mcp_client = MCPClient_init\<rparr>"
  by (simp add: boot_def MCPConfig_init_def load_config_def default_config_path_def world_of_def
      scenario_world_def bridge_codec_def table_codec_def text_defs)

lemma scenario_spawn:
  "create_subprocess_exec (world_of srv) [PyStr ''echo-server''] = Inr (started srv)"
  by (simp add: create_subprocess_exec_def world_of_def)

lemma scenario_values:
  "reply (Inr init_reply) = \<lparr>success = True, result = PyDict [], error = None\<rparr>"
  "reply (Inr tools_reply) =
     \<lparr>success = True, result = PyDict [(''tools'', PyList [])], error = None\<rparr>"
  "answer bridge_codec tool_answers [init_text @ [newline]] tools_list_request = Inr tools_reply"
  "parse_line bridge_codec (init_reply_text @ [newline]) = Inr init_reply"
  by (simp_all add: reply_def response_of_def init_reply_def tools_reply_def answer_def
      bridge_request_lines tool_answers_def bridge_parse)
    (simp add: text_defs)

section \<open>The refinement\<close>

text \<open>
  C4: On an application whose child answers every line with one line, whatever lines are
  still pending, every sequence of requests is served to the end (no handler blocks or
  raises), the responses and the lines sent are those the abstract machine allows, and the
  application is in such a state again afterwards.
\<close>

theorem serve_refines:
  assumes "queued f q (mcp_client a)" and "list_all framed q" and "well_framed f"
  shows "\<exists>rs a' q'. serve cd rqs a = (Returns rs, a')
     \<and> spec_run cd f (session_of q a) rqs rs (session_of q' a')
     \<and> queued f q' (mcp_client a')"
  using serve_queued [OF assms] by blast

theorem serve_refines_witness:
  "\<exists>rs a' q'. serve bridge_codec [GET_tools, GET_health] behind = (Returns rs, a')
     \<and> spec_run bridge_codec tool_answers (session_of [init_reply_text] behind)
         [GET_tools, GET_health] rs (session_of q' a')
     \<and> queued tool_answers q' (mcp_client a')"
  using serve_refines [OF behind_queued _ tool_answers_well_framed,
      of bridge_codec "[GET_tools, GET_health]"]
  by (simp add: init_reply_text_framed)

text \<open>
  C5: With no line pending, a forwarding route answers with what the handler makes of the
  server's answer to the request it has just sent, and no line is pending afterwards:
  requests and responses stay paired.
\<close>

theorem in_step_pairs:
  assumes "queued f [] (mcp_client a)" and "well_framed f" and "request_of rq = Some request"
  shows "\<exists>a'. route cd rq a =
       (Returns (Model (reply (answer cd f (sent_of (mcp_client a)) request))), a')
     \<and> queued f [] (mcp_client a')"
  using assms queued_advance [of f "[]" "mcp_client a" "request_line cd request"]
  by (simp add: route_forward as_model_forward forward_queued reads_def head_line_def
      session_of_def answer_def)

theorem in_step_pairs_witness:
  "\<exists>a'. route bridge_codec GET_tools (ready tool_server [init_text @ [newline]]) =
       (Returns (Model
          \<lparr>success = True, result = PyDict [(''tools'', PyList [])], error = None\<rparr>), a')
     \<and> queued tool_answers [] (mcp_client a')"
  using in_step_pairs [OF ready_queued [of "[init_text @ [newline]]"] tool_answers_well_framed,
      of GET_tools tools_list_request bridge_codec]
  by (simp add: scenario_values sent_of_def ready_def del: route.simps)

text \<open>
  C6: With one line pending, the bridge is one response behind: of two forwarded requests
  the first is answered with the pending line and the second with the server's answer to
  the first.
\<close>

theorem answers_lag_behind:
  assumes "queued f [l] (mcp_client a)" and "framed l" and "well_framed f"
    and "request_of rq1 = Some r1" and "request_of rq2 = Some r2"
  shows "fst (serve cd [rq1, rq2] a) =
     Returns [Model (reply (parse_line cd (l @ [newline]))),
       Model (reply (answer cd f (sent_of (mcp_client a)) r1))]"
proof -
  let ?line = "request_line cd r1"
  let ?a = "a\<lparr>mcp_client := advance f [l] ?line (mcp_client a)\<rparr>"
  let ?q = "[f (sent_of (mcp_client a) @ [?line])]"
  from assms have 1: "route cd rq1 a = (Returns (Model (reply (parse_line cd (l @ [newline])))), ?a)"
    by (simp add: route_forward as_model_forward forward_queued reads_def head_line_def
        session_of_def)
  from assms(1) have q: "queued f ?q (mcp_client ?a)"
    using queued_advance [of f "[l]" "mcp_client a" ?line] by simp
  from assms(3) have "list_all framed ?q" by (simp add: well_framed_def)
  with q assms(3,5) have "fst (route cd rq2 ?a) =
      Returns (Model (reply (answer cd f (sent_of (mcp_client a)) r1)))"
    by (simp add: route_forward as_model_forward forward_queued reads_def head_line_def
        session_of_def answer_def)
  with 1 show ?thesis
    by (cases "route cd rq2 ?a") (simp add: then_do_def)
qed

theorem answers_lag_behind_witness:
  "fst (serve bridge_codec [GET_tools, GET_tools] behind) =
     Returns [Model \<lparr>success = True, result = PyDict [], error = None\<rparr>,
       Model \<lparr>success = True, result = PyDict [(''tools'', PyList [])], error = None\<rparr>]"
proof -
  have "sent_of (mcp_client behind) = [init_text @ [newline]]"
    by (simp add: sent_of_def behind_def)
  then show ?thesis
    using answers_lag_behind [OF behind_queued init_reply_text_framed tool_answers_well_framed,
        of GET_tools tools_list_request GET_tools tools_list_request bridge_codec]
    by (simp add: scenario_values del: serve.simps)
qed

text \<open>
  C11: From the configuration to the last response: when the configured program prints some
  lines when it starts and then answers every line with one line, the application starts,
  serves every request and stops without blocking or raising, and its responses are those
  of the abstract machine started with these lines pending, reporting connected exactly
  when the line taken by the handshake parsed.
\<close>

theorem bridge_refines:
  assumes "full_command (config (mcp_config (boot cd w))) = Inr argv"
    and "create_subprocess_exec w argv = Inr (started srv)"
    and "react srv [] = \<lparr>emits = frames banner, exits = False\<rparr>" and "list_all framed banner"
    and "answers_by f srv" and "well_framed f"
  shows "\<exists>rs s'. fst (lifespan cd w rqs) = Returns rs
     \<and> spec_run cd f (spec_start cd f banner) rqs rs s'"
  using assms by (rule lifespan_queued)

theorem bridge_refines_witness:
  "\<exists>rs s'. fst (lifespan bridge_codec (world_of banner_server) [GET_tools, GET_tools]) = Returns rs
     \<and> spec_run bridge_codec tool_answers (spec_start bridge_codec tool_answers [''server ready''])
         [GET_tools, GET_tools] rs s'"
  using bridge_refines [of bridge_codec "world_of banner_server" "[PyStr ''echo-server'']"
      banner_server "[''server ready'']" tool_answers "[GET_tools, GET_tools]"]
  by (simp add: scenario_boot demo_full_command scenario_spawn tool_answers_well_framed
      banner_server_answers framed_def stream_limit_def)
    (simp add: banner_server_def)

text \<open>
  C12: The number of complete lines pending in the pipe of a child that answers every line
  with one line is the same after any sequence of requests as before: a bridge that is
  behind stays behind, by as many responses.
\<close>

theorem lag_is_permanent:
  assumes "queued f q (mcp_client a)" and "list_all framed q" and "well_framed f"
  shows "\<exists>p. process (mcp_client (snd (serve cd rqs a))) = Some p
     \<and> count_list (stdout_buf p) newline = length q"
proof -
  from serve_queued [OF assms] obtain rs a' q' where
    rs: "serve cd rqs a = (Returns rs, a')" "spec_run cd f (session_of q a) rqs rs (session_of q' a')"
      "queued f q' (mcp_client a')" "list_all framed q'"
    by blast
  from spec_run_lag [OF rs(2)] have "length q' = length q" by (simp add: session_of_def)
  with rs(1,3,4) show ?thesis
    by (auto simp: queued_def count_list_frames split: option.splits)
qed

theorem lag_is_permanent_witness:
  "\<exists>p. process (mcp_client (snd (serve bridge_codec [GET_tools, GET_health, GET_tools] behind))) =
       Some p
     \<and> count_list (stdout_buf p) newline = 1"
  using lag_is_permanent [OF behind_queued _ tool_answers_well_framed,
      of bridge_codec "[GET_tools, GET_health, GET_tools]"]
  by (simp add: init_reply_text_framed del: serve.simps)

text \<open>
  C15: When the child is running and answers every line it receives with one line within
  the reader's limit, and the pipe holds only complete such lines, the lines the child
  receives during a sequence of requests are exactly the request lines of the forwarding
  routes, one per request and in the order of the requests; the status routes write nothing.
\<close>

theorem serve_wire:
  assumes "queued f q (mcp_client a)" and "list_all framed q" and "well_framed f"
  shows "sent_of (mcp_client (snd (serve cd rqs a))) =
     sent_of (mcp_client a) @ map (request_line cd) (List.map_filter request_of rqs)"
proof -
  from serve_queued [OF assms] obtain rs a' q' where
    "serve cd rqs a = (Returns rs, a')" "spec_run cd f (session_of q a) rqs rs (session_of q' a')"
    by blast
  then show ?thesis
    using spec_run_sent [of cd f "session_of q a" rqs rs "session_of q' a'"]
    by (simp add: session_of_def)
qed

theorem serve_wire_witness:
  "sent_of (mcp_client (snd (serve bridge_codec [GET_tools, GET_health, POST_tools_call ping_call]
       (ready tool_server [init_text @ [newline]])))) =
     [init_text @ [newline], tools_list_text @ [newline], ping_text @ [newline]]"
proof -
  have "sent_of (mcp_client (ready tool_server [init_text @ [newline]])) = [init_text @ [newline]]"
    by (simp add: sent_of_def ready_def)
  then show ?thesis
    using serve_wire [OF ready_queued [of "[init_text @ [newline]]"] _ tool_answers_well_framed,
        of bridge_codec "[GET_tools, GET_health, POST_tools_call ping_call]"]
    by (simp add: List.map_filter_simps bridge_request_lines del: serve.simps)
qed

end
