(* ===== verification/Json_Text.thy ===== *)
theory Json_Text
  imports Py_Value
begin

text \<open>
  The texts of the \<open>json\<close> module of CPython (3.11 and later, with its C accelerator), which
  \<open>src/mcp-client.py\<close> calls at line 120 (\<open>json.dumps\<close>) and at lines 47 and 126
  (\<open>json.load\<close>, \<open>json.loads\<close>): decimal digits and the limit of \<open>int\<close> on them, the
  number pattern of the scanner, code points in UTF-8, the string literals that the encoder
  writes with its default \<open>ensure_ascii\<close> (\<open>encode_basestring_ascii\<close>) and the scanner of
  string literals in its strict mode (\<open>scanstring\<close>). A \<open>str\<close> is its UTF-8 bytes, as in
  \<open>Py_Value\<close>. The lemmas: the scanners read back what the encoder writes, what the
  encoder writes is visible ASCII, every scanner leaves less than it was given, and what
  the scanners raise.
\<close>

section \<open>Digits\<close>

definition is_digit :: "char \<Rightarrow> bool" where
  "is_digit c = in_range 0x30 0x39 c"

definition digit_of :: "char \<Rightarrow> nat" where
  "digit_of c = of_char c - 0x30"

definition digit_char :: "nat \<Rightarrow> char" where
  "digit_char n = char_of (0x30 + n)"

fun digits :: "nat \<Rightarrow> string" where
  "digits n = (if n < 10 then [digit_char n] else digits (n div 10) @ [digit_char (n mod 10)])"

declare digits.simps [simp del]

definition nat_of_digits :: "string \<Rightarrow> nat" where
  "nat_of_digits ds = foldl (\<lambda>n c. 10 * n + digit_of c) 0 ds"

definition max_str_digits :: nat where
  "max_str_digits = 4300"

definition int_repr :: "int \<Rightarrow> string" where
  "int_repr i = (if i < 0 then CHR ''-'' # digits (nat (- i)) else digits (nat i))"

text \<open>
  \<open>int(text)\<close> on a literal \<open>-?[0-9]+\<close>: the conversion refuses more than
  \<open>sys.int_info.default_max_str_digits\<close> digits.
\<close>

definition int_of_literal :: "string \<Rightarrow> int result" where
  "int_of_literal s =
     (let ds = (if s \<noteq> [] \<and> hd s = CHR ''-'' then tl s else s) in
      if max_str_digits < length ds then Inl ValueError
      else if s \<noteq> [] \<and> hd s = CHR ''-'' then Inr (- int (nat_of_digits ds))
      else Inr (int (nat_of_digits ds)))"

section \<open>Number literals\<close>

text \<open>
  The number pattern of the scanner, \<open>(-?(?:0|[1-9][0-9]*))(\\.[0-9]+)?([eE][-+]?[0-9]+)?\<close>,
  matched at the start of the input: the integer part, the fraction, the exponent and the
  rest. A fraction or an exponent that is not complete is left in the rest.
\<close>

definition lex_integer :: "string \<Rightarrow> (string \<times> string) option" where
  "lex_integer s =
     (let sign = (if s \<noteq> [] \<and> hd s = CHR ''-'' then ''-'' else []);
          s1 = (if s \<noteq> [] \<and> hd s = CHR ''-'' then tl s else s)
      in case s1 of
           [] \<Rightarrow> None
         | c # cs \<Rightarrow>
             if c = CHR ''0'' then Some (sign @ ''0'', cs)
             else if is_digit c then Some (sign @ c # takeWhile is_digit cs, dropWhile is_digit cs)
             else None)"

definition lex_frac :: "string \<Rightarrow> string \<times> string" where
  "lex_frac s =
     (case s of
        c # d # cs \<Rightarrow>
          if c = CHR ''.'' \<and> is_digit d
          then (c # d # takeWhile is_digit cs, dropWhile is_digit cs) else ([], s)
      | _ \<Rightarrow> ([], s))"

definition lex_exp :: "string \<Rightarrow> string \<times> string" where
  "lex_exp s =
     (case s of
        [] \<Rightarrow> ([], s)
      | e # cs \<Rightarrow>
          if e = CHR ''e'' \<or> e = CHR ''E'' then
            (let sg = (if cs \<noteq> [] \<and> (hd cs = CHR ''+'' \<or> hd cs = CHR ''-'') then [hd cs] else []);
                 ds = drop (length sg) cs
             in if ds \<noteq> [] \<and> is_digit (hd ds)
                then (e # sg @ takeWhile is_digit ds, dropWhile is_digit ds) else ([], s))
          else ([], s))"

definition match_number :: "string \<Rightarrow> ((string \<times> string \<times> string) \<times> string) option" where
  "match_number s =
     (case lex_integer s of
        None \<Rightarrow> None
      | Some (i, r1) \<Rightarrow>
          (case lex_frac r1 of (f, r2) \<Rightarrow>
          (case lex_exp r2 of (e, r3) \<Rightarrow> Some ((i, f, e), r3))))"

text \<open>What may follow a number for the match to end there.\<close>

definition delimited :: "string \<Rightarrow> bool" where
  "delimited rest =
     (case rest of [] \<Rightarrow> True
      | c # _ \<Rightarrow> \<not> is_digit c \<and> c \<noteq> CHR ''.'' \<and> c \<noteq> CHR ''e'' \<and> c \<noteq> CHR ''E'')"

text \<open>A text that the scanner reads, whole, as a float.\<close>

definition float_literal :: "string \<Rightarrow> bool" where
  "float_literal t =
     (case match_number t of
        Some ((i, f, e), r) \<Rightarrow> r = [] \<and> (f \<noteq> [] \<or> e \<noteq> [])
      | None \<Rightarrow> False)"

text \<open>The characters of a number literal.\<close>

definition number_char :: "char \<Rightarrow> bool" where
  "number_char c = (is_digit c \<or> c \<in> set ''+-.eE'')"

text \<open>
  A number literal is made of digits, signs, a point and an exponent mark; it starts with a
  digit or a minus sign and ends with a digit.
\<close>

definition digit_ended :: "string \<Rightarrow> bool" where
  "digit_ended x = (x \<noteq> [] \<and> list_all number_char x \<and> is_digit (last x))"

section \<open>Code points\<close>

text \<open>
  A \<open>str\<close> is kept as its UTF-8 bytes, a lone surrogate as the three bytes of its code
  point. \<open>utf8_next\<close> reads the first code point of a text and \<open>utf8_encode\<close> writes
  one. On bytes that are the UTF-8 form of no \<open>str\<close>, a byte that starts no sequence is
  read as the code point of its value, so that both are total.
\<close>

definition is_cont :: "char \<Rightarrow> bool" where
  "is_cont c = in_range 0x80 0xBF c"

definition trail_count :: "char \<Rightarrow> nat" where
  "trail_count b =
     (if in_range 0xC0 0xDF b then 1 else if in_range 0xE0 0xEF b then 2
      else if in_range 0xF0 0xF7 b then 3 else 0)"

definition lead_bits :: "char \<Rightarrow> nat" where
  "lead_bits b = of_char b - (case trail_count b of 0 \<Rightarrow> 0 | Suc 0 \<Rightarrow> 0xC0 | Suc (Suc 0) \<Rightarrow> 0xE0 | _ \<Rightarrow> 0xF0)"

fun utf8_next :: "bytes \<Rightarrow> nat \<times> bytes" where
  "utf8_next [] = (0, [])"
| "utf8_next (b # bs) =
     (let n = trail_count b; trail = take n bs in
      if n = 0 \<or> length trail < n \<or> \<not> list_all is_cont trail then (of_char b, bs)
      else (foldl (\<lambda>cp c. cp * 64 + (of_char c - 0x80)) (lead_bits b) trail, drop n bs))"

definition utf8_encode :: "nat \<Rightarrow> bytes" where
  "utf8_encode cp =
     (if cp < 0x80 then [char_of cp]
      else if cp < 0x800 then [char_of (0xC0 + cp div 64), char_of (0x80 + cp mod 64)]
      else if cp < 0x10000 then
        [char_of (0xE0 + cp div 4096), char_of (0x80 + cp div 64 mod 64), char_of (0x80 + cp mod 64)]
      else
        [char_of (0xF0 + cp div 262144), char_of (0x80 + cp div 4096 mod 64),
         char_of (0x80 + cp div 64 mod 64), char_of (0x80 + cp mod 64)])"

text \<open>The surrogate macros of the interpreter (\<open>Py_UNICODE_HIGH_SURROGATE\<close> and the others).\<close>

definition is_high_surrogate :: "nat \<Rightarrow> bool" where
  "is_high_surrogate cp = (0xD800 \<le> cp \<and> cp \<le> 0xDBFF)"

definition is_low_surrogate :: "nat \<Rightarrow> bool" where
  "is_low_surrogate cp = (0xDC00 \<le> cp \<and> cp \<le> 0xDFFF)"

definition high_surrogate :: "nat \<Rightarrow> nat" where
  "high_surrogate cp = 0xD800 - 0x40 + cp div 1024"

definition low_surrogate :: "nat \<Rightarrow> nat" where
  "low_surrogate cp = 0xDC00 + cp mod 1024"

definition join_surrogates :: "nat \<Rightarrow> nat \<Rightarrow> nat" where
  "join_surrogates hi lo = 0x10000 + (hi mod 1024) * 1024 + lo mod 1024"

text \<open>A Unicode scalar value: a code point that is no surrogate.\<close>

definition scalar :: "nat \<Rightarrow> bool" where
  "scalar cp = (cp < 0x110000 \<and> \<not> is_high_surrogate cp \<and> \<not> is_low_surrogate cp)"

section \<open>String literals\<close>

abbreviation dquote :: char where
  "dquote \<equiv> CHR 0x22"

abbreviation backslash :: char where
  "backslash \<equiv> CHR 0x5C"

definition hex_char :: "nat \<Rightarrow> char" where
  "hex_char n = (if n < 10 then char_of (0x30 + n) else char_of (0x57 + n))"

definition hex4 :: "nat \<Rightarrow> string" where
  "hex4 n = [hex_char (n div 4096 mod 16), hex_char (n div 256 mod 16),
             hex_char (n div 16 mod 16), hex_char (n mod 16)]"

definition hex_val :: "char \<Rightarrow> nat option" where
  "hex_val c =
     (if in_range 0x30 0x39 c then Some (of_char c - 0x30)
      else if in_range 0x61 0x66 c then Some (of_char c - 0x57)
      else if in_range 0x41 0x46 c then Some (of_char c - 0x37)
      else None)"

definition unhex4 :: "string \<Rightarrow> nat option" where
  "unhex4 s =
     (case map hex_val (take 4 s) of
        [Some a, Some b, Some c, Some d] \<Rightarrow> Some (((a * 16 + b) * 16 + c) * 16 + d)
      | _ \<Rightarrow> None)"

definition printable :: "char \<Rightarrow> bool" where
  "printable c = in_range 0x20 0x7E c"

text \<open>
  The encoder with \<open>ensure_ascii\<close>, the default: a printable ASCII character other than
  the quote and the backslash is written as it is, the others escaped, a code point above
  U+FFFF as a surrogate pair.
\<close>

definition escape_cp :: "nat \<Rightarrow> string" where
  "escape_cp cp =
     (if 0x20 \<le> cp \<and> cp \<le> 0x7E \<and> cp \<noteq> 0x5C \<and> cp \<noteq> 0x22 then [char_of cp]
      else if cp = 0x5C then [backslash, backslash]
      else if cp = 0x22 then [backslash, dquote]
      else if cp = 0x08 then [backslash, CHR ''b'']
      else if cp = 0x0C then [backslash, CHR ''f'']
      else if cp = 0x0A then [backslash, CHR ''n'']
      else if cp = 0x0D then [backslash, CHR ''r'']
      else if cp = 0x09 then [backslash, CHR ''t'']
      else if 0x10000 \<le> cp then
        backslash # CHR ''u'' # hex4 (high_surrogate cp) @ backslash # CHR ''u'' # hex4 (low_surrogate cp)
      else backslash # CHR ''u'' # hex4 cp)"

function escape_ascii :: "pystr \<Rightarrow> string" where
  "escape_ascii s =
     (if s = [] then [] else case utf8_next s of (cp, rest) \<Rightarrow> escape_cp cp @ escape_ascii rest)"
  by pat_completeness auto
termination
proof (relation "measure length")
  fix s :: pystr and cp rest
  assume "s \<noteq> []" and "(cp, rest) = utf8_next s"
  then show "(rest, s) \<in> measure length"
    by (cases s) (auto simp: Let_def split: if_splits)
qed simp

declare escape_ascii.simps [simp del]

definition encode_basestring_ascii :: "pystr \<Rightarrow> string" where
  "encode_basestring_ascii s = dquote # escape_ascii s @ [dquote]"

text \<open>
  The scanner of string literals, in its strict mode, the default: from the character after
  the opening quote to the closing one. It gives the string and what follows the literal.
\<close>

definition short_escape :: "char \<Rightarrow> char option" where
  "short_escape c =
     (if c = dquote then Some dquote
      else if c = backslash then Some backslash
      else if c = CHR ''/'' then Some CHR ''/''
      else if c = CHR ''b'' then Some (CHR 0x08)
      else if c = CHR ''f'' then Some (CHR 0x0C)
      else if c = CHR ''n'' then Some (CHR 0x0A)
      else if c = CHR ''r'' then Some (CHR 0x0D)
      else if c = CHR ''t'' then Some (CHR 0x09)
      else None)"

definition scan_u :: "string \<Rightarrow> (nat \<times> string) result" where
  "scan_u s =
     (if length s \<le> 4 then Inl JSONDecodeError
      else case unhex4 s of
        None \<Rightarrow> Inl JSONDecodeError
      | Some c \<Rightarrow>
          (let r = drop 4 s in
           if is_high_surrogate c \<and> 6 < length r \<and> take 2 r = [backslash, CHR ''u''] then
             (case unhex4 (drop 2 r) of
                None \<Rightarrow> Inl JSONDecodeError
              | Some c2 \<Rightarrow>
                  if is_low_surrogate c2 then Inr (join_surrogates c c2, drop 6 r) else Inr (c, r))
           else Inr (c, r)))"

definition prepend :: "'a list \<Rightarrow> ('a list \<times> 'b) result \<Rightarrow> ('a list \<times> 'b) result" where
  "prepend xs r = r_bind r (\<lambda>(ys, rest). Inr (xs @ ys, rest))"

function scanstring :: "string \<Rightarrow> (pystr \<times> string) result" where
  "scanstring [] = Inl JSONDecodeError"
| "scanstring (c # s) =
     (if c = dquote then Inr ([], s)
      else if c = backslash then
        (case s of
           [] \<Rightarrow> Inl JSONDecodeError
         | e # s' \<Rightarrow>
             if e = CHR ''u'' then
               (case scan_u s' of
                  Inl err \<Rightarrow> Inl err
                | Inr (cp, s'') \<Rightarrow> prepend (utf8_encode cp) (scanstring s''))
             else
               (case short_escape e of
                  None \<Rightarrow> Inl JSONDecodeError
                | Some ch \<Rightarrow> prepend [ch] (scanstring s')))
      else if (of_char c :: nat) \<le> 0x1F then Inl JSONDecodeError
      else prepend [c] (scanstring s))"
  by pat_completeness auto
termination
proof (relation "measure length")
  fix c e :: char and s s' s'' :: string and x cp
  assume "s = e # s'" and "scan_u s' = Inr x" and "(cp, s'') = x"
  then have "scan_u s' = Inr (cp, s'')" by simp
  then have "length s'' < length s'"
    by (auto simp: scan_u_def Let_def split: if_splits option.splits)
  with \<open>s = e # s'\<close> show "(s'', c # s) \<in> measure length" by simp
qed simp_all

section \<open>Lemmas on digits\<close>

lemma char_of_nat_eq: "n < 256 \<Longrightarrow> char_of n = c \<longleftrightarrow> n = of_char c" for n :: nat
  by (simp add: char_of_eq_iff take_bit_nat_eq_self)

lemma of_char_char_of_nat [simp]: "n < 256 \<Longrightarrow> of_char (char_of n) = n" for n :: nat
  by simp

lemma of_char_less_256 [simp]: "(of_char c :: nat) < 256"
  by (metis char_of_char of_char_of mod_less_divisor zero_less_numeral)

lemma is_digit_digit_char [simp]: "n < 10 \<Longrightarrow> is_digit (digit_char n)"
  by (simp add: is_digit_def digit_char_def in_range_def)

lemma digit_of_digit_char [simp]: "n < 10 \<Longrightarrow> digit_of (digit_char n) = n"
  by (simp add: digit_of_def digit_char_def)

lemma digit_char_of_digit: "is_digit c \<Longrightarrow> digit_char (digit_of c) = c"
  by (simp add: is_digit_def digit_char_def digit_of_def in_range_def)

lemma digit_of_less: "is_digit c \<Longrightarrow> digit_of c < 10"
  by (auto simp: is_digit_def digit_of_def in_range_def)

lemma digits_0: "digits 0 = ''0''"
  by (subst digits.simps) (simp add: digit_char_def char_of_nat_eq)

lemma digits_all_digit: "list_all is_digit (digits n)"
  by (induction n rule: digits.induct) (subst digits.simps, simp)

lemma digits_not_Nil [simp]: "digits n \<noteq> []"
  by (subst digits.simps) simp

lemma nat_of_digits_append [simp]:
  "nat_of_digits (ds @ [c]) = 10 * nat_of_digits ds + digit_of c"
  by (simp add: nat_of_digits_def)

lemma nat_of_digits_digits: "nat_of_digits (digits n) = n"
proof (induction n rule: digits.induct)
  case (1 n)
  show ?case
  proof (cases "n < 10")
    case True
    then show ?thesis by (subst digits.simps) (simp add: nat_of_digits_def)
  next
    case False
    with 1 show ?thesis by (subst digits.simps) simp
  qed
qed

lemma hd_digits_zero: "hd (digits n) = CHR ''0'' \<longleftrightarrow> n = 0"
proof (induction n rule: digits.induct)
  case (1 n)
  show ?case
  proof (cases "n < 10")
    case True
    then have "digit_char n = CHR ''0'' \<longleftrightarrow> n = 0"
      by (simp add: digit_char_def char_of_nat_eq)
    with True show ?thesis by (subst digits.simps) simp
  next
    case False
    with 1 show ?thesis by (subst digits.simps) auto
  qed
qed

section \<open>Lemmas on number literals\<close>

lemma span_append_done:
  assumes "dropWhile P xs = []" and "ys = [] \<or> \<not> P (hd ys)"
  shows "takeWhile P (xs @ ys) = xs" and "dropWhile P (xs @ ys) = ys"
proof -
  from assms(1) have all: "\<forall>x \<in> set xs. P x" by (simp add: dropWhile_eq_Nil_conv)
  from assms(2) have "takeWhile P ys = []" by (cases ys) auto
  with all show "takeWhile P (xs @ ys) = xs" by (simp add: takeWhile_append2)
  from assms(2) have "dropWhile P ys = ys" by (cases ys) auto
  with all show "dropWhile P (xs @ ys) = ys" by (simp add: dropWhile_append2)
qed

lemma span_append_stopped:
  assumes "dropWhile P xs \<noteq> []"
  shows "takeWhile P (xs @ ys) = takeWhile P xs"
    and "dropWhile P (xs @ ys) = dropWhile P xs @ ys"
proof -
  from assms obtain x where x: "x \<in> set xs" "\<not> P x"
    by (auto simp: dropWhile_eq_Nil_conv)
  then show "takeWhile P (xs @ ys) = takeWhile P xs" by (rule takeWhile_append1)
  from x show "dropWhile P (xs @ ys) = dropWhile P xs @ ys" by (rule dropWhile_append1)
qed

lemma span_append:
  assumes "dropWhile P xs = [] \<Longrightarrow> ys = [] \<or> \<not> P (hd ys)"
  shows "takeWhile P (xs @ ys) = takeWhile P xs"
    and "dropWhile P (xs @ ys) = dropWhile P xs @ ys"
proof -
  have "takeWhile P (xs @ ys) = takeWhile P xs \<and> dropWhile P (xs @ ys) = dropWhile P xs @ ys"
  proof (cases "dropWhile P xs = []")
    case True
    then have tw: "takeWhile P xs = xs" by (simp add: dropWhile_eq_Nil_conv)
    from span_append_done [OF True assms [OF True]] show ?thesis by (simp add: tw True)
  next
    case False
    with span_append_stopped [OF False] show ?thesis by simp
  qed
  then show "takeWhile P (xs @ ys) = takeWhile P xs"
    and "dropWhile P (xs @ ys) = dropWhile P xs @ ys" by simp_all
qed

lemma delimited_simps [simp]:
  "delimited []"
  "delimited (c # cs) \<longleftrightarrow> \<not> is_digit c \<and> c \<noteq> CHR ''.'' \<and> c \<noteq> CHR ''e'' \<and> c \<noteq> CHR ''E''"
  by (simp_all add: delimited_def)

lemma delimited_stop: "delimited rest \<Longrightarrow> rest = [] \<or> \<not> is_digit (hd rest)"
  by (cases rest) auto

lemma lex_frac_delimited [simp]: "delimited rest \<Longrightarrow> lex_frac rest = ([], rest)"
  by (cases rest) (auto simp: lex_frac_def split: list.splits)

lemma lex_exp_delimited [simp]: "delimited rest \<Longrightarrow> lex_exp rest = ([], rest)"
  by (cases rest) (auto simp: lex_exp_def)

text \<open>The decimal representation of an int is read back as an integer part, whole.\<close>

lemma lex_integer_digits:
  assumes "delimited rest"
  shows "lex_integer (digits n @ rest) = Some (digits n, rest)"
proof (cases "n = 0")
  case True
  then show ?thesis by (simp add: digits_0 lex_integer_def)
next
  case False
  obtain c cs where d: "digits n = c # cs" by (cases "digits n") auto
  with digits_all_digit [of n] have c: "is_digit c" and cs: "dropWhile is_digit cs = []"
    by (simp_all add: dropWhile_eq_Nil_conv list_all_iff)
  from False d hd_digits_zero [of n] have "c \<noteq> CHR ''0''" by auto
  moreover from c have "c \<noteq> CHR ''-''" by (auto simp: is_digit_def in_range_def)
  ultimately show ?thesis
    using c d span_append_done [OF cs delimited_stop [OF assms]]
    by (simp add: lex_integer_def)
qed

lemma lex_integer_minus:
  "lex_integer (CHR ''-'' # s) = map_option (\<lambda>(i, r). (CHR ''-'' # i, r)) (lex_integer s)"
  if "s = [] \<or> hd s \<noteq> CHR ''-''"
  using that by (cases s) (auto simp: lex_integer_def)

lemma match_number_int_repr:
  assumes "delimited rest"
  shows "match_number (int_repr i @ rest) = Some ((int_repr i, [], []), rest)"
proof -
  have "hd (digits n) \<noteq> CHR ''-''" for n
    using digits_all_digit [of n] by (cases "digits n") (auto simp: is_digit_def in_range_def)
  then have "lex_integer (int_repr i @ rest) = Some (int_repr i, rest)"
    using assms by (auto simp: int_repr_def lex_integer_digits lex_integer_minus hd_append)
  with assms show ?thesis by (simp add: match_number_def)
qed

lemma int_of_literal_int_repr:
  "int_of_literal (int_repr i) =
     (if max_str_digits < length (digits (nat \<bar>i\<bar>)) then Inl ValueError else Inr i)"
proof -
  have "hd (digits n) \<noteq> CHR ''-''" for n
    using digits_all_digit [of n] by (cases "digits n") (auto simp: is_digit_def in_range_def)
  then show ?thesis
    by (auto simp: int_of_literal_def int_repr_def nat_of_digits_digits Let_def abs_if)
qed

text \<open>
  A text that the scanner reads whole as a number is read the same way, and whole, before
  anything that cannot continue a number.
\<close>

lemma lex_exp_done:
  assumes "lex_exp s = (e, [])"
  shows "s = [] \<or> hd s = CHR ''e'' \<or> hd s = CHR ''E''"
  using assms by (cases s) (auto simp: lex_exp_def Let_def split: if_splits)

lemma lex_exp_append:
  assumes "lex_exp s = (e, [])" and "delimited rest"
  shows "lex_exp (s @ rest) = (e, rest)"
proof (cases s)
  case Nil
  with assms(1) have "e = []" by (simp add: lex_exp_def)
  with Nil assms(2) show ?thesis by simp
next
  case (Cons c cs)
  define sg where "sg = (if cs \<noteq> [] \<and> (hd cs = CHR ''+'' \<or> hd cs = CHR ''-'') then [hd cs] else [])"
  define ds where "ds = drop (length sg) cs"
  from assms(1) Cons have ce: "c = CHR ''e'' \<or> c = CHR ''E''"
    and ds: "ds \<noteq> []" "is_digit (hd ds)" "dropWhile is_digit ds = []"
    and e: "e = c # sg @ takeWhile is_digit ds"
    by (auto simp: lex_exp_def Let_def sg_def ds_def split: if_splits)
  have cs: "cs = sg @ ds" by (cases cs) (auto simp: sg_def ds_def)
  have sg: "sg = [] \<or> sg = ''+'' \<or> sg = ''-''" by (auto simp: sg_def)
  have "\<not> is_digit CHR ''+''" and "\<not> is_digit CHR ''-''"
    by (simp_all add: is_digit_def in_range_def)
  with ds(1,2) obtain d ds' where d: "ds = d # ds'" "is_digit d" "d \<noteq> CHR ''+''" "d \<noteq> CHR ''-''"
    by (cases ds) auto
  with ds(3) have "dropWhile is_digit ds' = []" by simp
  from span_append [of is_digit ds' rest] this delimited_stop [OF assms(2)]
  have "takeWhile is_digit (ds' @ rest) = takeWhile is_digit ds'"
    and "dropWhile is_digit (ds' @ rest) = rest" by simp_all
  with ce sg d e show ?thesis by (auto simp: Cons cs lex_exp_def)
qed

lemma lex_frac_append:
  assumes "lex_frac s = (f, r)"
    and "r = [] \<and> delimited rest \<or> r \<noteq> [] \<and> (hd r = CHR ''e'' \<or> hd r = CHR ''E'')"
  shows "lex_frac (s @ rest) = (f, r @ rest)"
proof (cases "f = []")
  case True
  with assms(1) have r: "r = s" by (auto simp: lex_frac_def split: list.splits if_splits)
  show ?thesis
  proof (cases s)
    case Nil
    with True r assms(2) show ?thesis by simp
  next
    case (Cons c cs)
    with r assms(2) have "c \<noteq> CHR ''.''" by auto
    with True r Cons show ?thesis by (simp add: lex_frac_def split: list.splits)
  qed
next
  case False
  with assms(1) obtain c d cs where s: "s = c # d # cs" "c = CHR ''.''" "is_digit d"
      "f = c # d # takeWhile is_digit cs" "r = dropWhile is_digit cs"
    by (auto simp: lex_frac_def split: list.splits if_splits)
  show ?thesis
    using s assms(2) span_append [of is_digit cs rest] delimited_stop [of rest]
    by (auto simp: lex_frac_def)
qed

lemma lex_frac_hd:
  assumes "lex_frac s = (f, r)" and "r = [] \<or> hd r = CHR ''e'' \<or> hd r = CHR ''E''"
  shows "s = [] \<or> hd s = CHR ''.'' \<or> hd s = CHR ''e'' \<or> hd s = CHR ''E''"
  using assms by (cases s; cases "tl s") (auto simp: lex_frac_def split: if_splits)

lemma lex_integer_append:
  assumes "lex_integer s = Some (i, r)"
    and "r = [] \<and> delimited rest \<or> r \<noteq> [] \<and> \<not> is_digit (hd r)"
  shows "lex_integer (s @ rest) = Some (i, r @ rest)"
proof -
  define s1 where "s1 = (if s \<noteq> [] \<and> hd s = CHR ''-'' then tl s else s)"
  from assms(1) obtain c cs where s1: "s1 = c # cs"
    by (cases s1) (auto simp: lex_integer_def s1_def Let_def)
  then have s: "s \<noteq> []" by (auto simp: s1_def split: if_splits)
  then have s1': "(if s @ rest \<noteq> [] \<and> hd (s @ rest) = CHR ''-'' then tl (s @ rest) else s @ rest) =
      c # cs @ rest"
    using s1 by (auto simp: s1_def split: if_splits)
  show ?thesis
  proof (cases "c = CHR ''0''")
    case True
    with assms(1) s s1 s1' show ?thesis
      by (auto simp: lex_integer_def Let_def s1_def split: if_splits)
  next
    case False
    with assms(1) s1 have c: "is_digit c" and r: "r = dropWhile is_digit cs"
      by (auto simp: lex_integer_def Let_def s1_def split: if_splits)
    have "takeWhile is_digit (cs @ rest) = takeWhile is_digit cs
        \<and> dropWhile is_digit (cs @ rest) = r @ rest"
      using assms(2) r span_append [of is_digit cs rest] delimited_stop [of rest] by auto
    with False c assms(1) s s1 s1' show ?thesis
      by (auto simp: lex_integer_def Let_def s1_def split: if_splits)
  qed
qed

lemma match_number_append:
  assumes "match_number t = Some (p, [])" and "delimited rest"
  shows "match_number (t @ rest) = Some (p, rest)"
proof -
  from assms(1) obtain i r1 f r2 e where
    i: "lex_integer t = Some (i, r1)" and f: "lex_frac r1 = (f, r2)"
    and e: "lex_exp r2 = (e, [])" and p: "p = (i, f, e)"
    by (auto simp: match_number_def split: option.splits prod.splits)
  from lex_exp_done [OF e] have r2: "r2 = [] \<or> hd r2 = CHR ''e'' \<or> hd r2 = CHR ''E''" .
  from lex_frac_hd [OF f r2]
  have r1: "r1 = [] \<or> hd r1 = CHR ''.'' \<or> hd r1 = CHR ''e'' \<or> hd r1 = CHR ''E''" .
  then have "r1 = [] \<or> \<not> is_digit (hd r1)" by (auto simp: is_digit_def in_range_def)
  with i assms(2) have "lex_integer (t @ rest) = Some (i, r1 @ rest)"
    by (intro lex_integer_append) auto
  moreover from f r2 assms(2) have "lex_frac (r1 @ rest) = (f, r2 @ rest)"
    by (intro lex_frac_append) auto
  moreover from e assms(2) have "lex_exp (r2 @ rest) = (e, rest)"
    by (rule lex_exp_append)
  ultimately show ?thesis by (simp add: match_number_def p)
qed

section \<open>Lemmas on string literals\<close>

text \<open>What the encoder writes is printable ASCII.\<close>

lemma printable_hex_char: "n < 16 \<Longrightarrow> printable (hex_char n)"
  by (simp add: hex_char_def printable_def in_range_def)

lemma printable_hex4: "list_all printable (hex4 n)"
  by (simp add: hex4_def printable_hex_char)

lemma printable_escape_cp: "list_all printable (escape_cp cp)"
  by (simp add: escape_cp_def printable_hex4) (simp add: printable_def in_range_def)

lemma printable_escape_ascii: "list_all printable (escape_ascii s)"
proof (induction s rule: escape_ascii.induct)
  case (1 s)
  then show ?case
    by (subst escape_ascii.simps) (auto simp: printable_escape_cp split: prod.splits)
qed

lemma printable_encode_basestring_ascii: "list_all printable (encode_basestring_ascii s)"
  by (simp add: encode_basestring_ascii_def printable_escape_ascii)
    (simp add: printable_def in_range_def)

text \<open>Four hexadecimal digits are read back.\<close>

lemma hex_val_hex_char: "n < 16 \<Longrightarrow> hex_val (hex_char n) = Some n"
  by (simp add: hex_val_def hex_char_def in_range_def)

lemma hex_digits_value:
  fixes n :: nat
  assumes "n < 65536"
  shows "((n div 4096 mod 16 * 16 + n div 256 mod 16) * 16 + n div 16 mod 16) * 16 + n mod 16 = n"
proof -
  have "n div 16 div 16 = n div 256" and "n div 256 div 16 = n div 4096"
    by (simp_all add: div_mult2_eq [symmetric])
  moreover from assms have "n div 4096 mod 16 = n div 4096"
    by (simp add: less_mult_imp_div_less)
  ultimately show ?thesis
    using div_mult_mod_eq [of n 16] div_mult_mod_eq [of "n div 16" 16]
      div_mult_mod_eq [of "n div 256" 16]
    by simp
qed

lemma unhex4_hex4: "n < 65536 \<Longrightarrow> unhex4 (hex4 n @ t) = Some n"
  using hex_digits_value [of n] by (simp add: unhex4_def hex4_def hex_val_hex_char)

text \<open>What the scanner reads of one escaped code point.\<close>

lemma prepend_Inr [simp]: "prepend xs (Inr (ys, r)) = Inr (xs @ ys, r)"
  by (simp add: prepend_def)

lemma prepend_Inl [simp]: "prepend xs (Inl e) = Inl e"
  by (simp add: prepend_def)

lemma length_hex4 [simp]: "length (hex4 n) = 4"
  by (simp add: hex4_def)

lemma scan_u_hex4:
  assumes "cp < 0x10000" and "\<not> is_high_surrogate cp" and "t \<noteq> []"
  shows "scan_u (hex4 cp @ t) = Inr (cp, t)"
  using assms by (cases t) (simp_all add: scan_u_def unhex4_hex4)

lemma surrogates_of:
  assumes "0x10000 \<le> cp" and "cp < 0x110000"
  shows "is_high_surrogate (high_surrogate cp)" and "is_low_surrogate (low_surrogate cp)"
    and "join_surrogates (high_surrogate cp) (low_surrogate cp) = cp"
proof -
  from assms have d: "64 \<le> cp div 1024" "cp div 1024 < 1088" by simp_all
  then show "is_high_surrogate (high_surrogate cp)"
    by (simp add: is_high_surrogate_def high_surrogate_def)
  show "is_low_surrogate (low_surrogate cp)"
    by (simp add: is_low_surrogate_def low_surrogate_def)
  have "(55232 + cp div 1024) mod 1024 = cp div 1024 - 64"
    using d by (simp add: mod_if)
  moreover have "(56320 + cp mod 1024) mod 1024 = cp mod 1024"
    by (subst mod_add_eq [symmetric]) simp
  ultimately have "join_surrogates (high_surrogate cp) (low_surrogate cp) =
      0x10000 + (cp div 1024 - 64) * 1024 + cp mod 1024"
    by (simp add: join_surrogates_def high_surrogate_def low_surrogate_def)
  also from d(1) have "\<dots> = cp div 1024 * 1024 + cp mod 1024" by (simp add: diff_mult_distrib)
  finally show "join_surrogates (high_surrogate cp) (low_surrogate cp) = cp" by simp
qed

lemma scan_u_pair:
  assumes "0x10000 \<le> cp" and "cp < 0x110000" and "t \<noteq> []"
  shows "scan_u (hex4 (high_surrogate cp) @ backslash # CHR ''u'' # hex4 (low_surrogate cp) @ t)
    = Inr (cp, t)"
proof -
  from surrogates_of [OF assms(1,2)]
  have hi: "is_high_surrogate (high_surrogate cp)" and lo: "is_low_surrogate (low_surrogate cp)"
    and join: "join_surrogates (high_surrogate cp) (low_surrogate cp) = cp" .
  from hi have "high_surrogate cp < 65536" by (simp add: is_high_surrogate_def)
  moreover from lo have "low_surrogate cp < 65536" by (simp add: is_low_surrogate_def)
  ultimately show ?thesis
    using hi lo join assms(3) by (cases t) (simp_all add: scan_u_def unhex4_hex4)
qed

lemma char_of_specials:
  "char_of (0x5C :: nat) = backslash" "char_of (0x22 :: nat) = dquote"
  "char_of (0x08 :: nat) = CHR 0x08" "char_of (0x0C :: nat) = CHR 0x0C"
  "char_of (0x0A :: nat) = CHR 0x0A" "char_of (0x0D :: nat) = CHR 0x0D"
  "char_of (0x09 :: nat) = CHR 0x09"
  by (simp_all add: char_of_nat_eq)

lemma escape_cp_short:
  "escape_cp 0x5C = [backslash, backslash]" "escape_cp 0x22 = [backslash, dquote]"
  "escape_cp 0x08 = [backslash, CHR ''b'']" "escape_cp 0x0C = [backslash, CHR ''f'']"
  "escape_cp 0x0A = [backslash, CHR ''n'']" "escape_cp 0x0D = [backslash, CHR ''r'']"
  "escape_cp 0x09 = [backslash, CHR ''t'']"
  by (simp_all add: escape_cp_def)

lemma scanstring_short:
  assumes "cp \<in> {0x5C, 0x22, 0x08, 0x0C, 0x0A, 0x0D, 0x09}"
  shows "scanstring (escape_cp cp @ t) = prepend (utf8_encode cp) (scanstring t)"
proof -
  from assms consider "cp = 0x5C" | "cp = 0x22" | "cp = 0x08" | "cp = 0x0C" | "cp = 0x0A"
    | "cp = 0x0D" | "cp = 0x09" by blast
  then show ?thesis
    by cases (simp_all add: escape_cp_short short_escape_def utf8_encode_def char_of_specials)
qed

lemma scanstring_escape_cp:
  assumes "scalar cp" and "t \<noteq> []"
  shows "scanstring (escape_cp cp @ t) = prepend (utf8_encode cp) (scanstring t)"
proof (cases "cp \<in> {0x5C, 0x22, 0x08, 0x0C, 0x0A, 0x0D, 0x09}")
  case True
  then show ?thesis by (rule scanstring_short)
next
  case False
  then have special: "cp \<noteq> 0x5C" "cp \<noteq> 0x22" "cp \<noteq> 0x08" "cp \<noteq> 0x0C" "cp \<noteq> 0x0A"
    "cp \<noteq> 0x0D" "cp \<noteq> 0x09" by simp_all
  consider (plain) "0x20 \<le> cp" "cp \<le> 0x7E" | (pair) "0x10000 \<le> cp"
    | (hex) "cp < 0x10000" "cp < 0x20 \<or> 0x7E < cp"
    by linarith
  then show ?thesis
  proof cases
    case plain
    with special have "escape_cp cp = [char_of cp]" by (simp add: escape_cp_def)
    with plain special show ?thesis by (simp add: utf8_encode_def char_of_nat_eq)
  next
    case pair
    then have "escape_cp cp =
        backslash # CHR ''u'' # hex4 (high_surrogate cp) @ backslash # CHR ''u'' # hex4 (low_surrogate cp)"
      by (simp add: escape_cp_def)
    with pair assms scan_u_pair [of cp t] show ?thesis by (simp add: scalar_def)
  next
    case hex
    with special have "escape_cp cp = backslash # CHR ''u'' # hex4 cp"
      by (auto simp: escape_cp_def)
    with hex assms scan_u_hex4 [of cp t] show ?thesis by (simp add: scalar_def)
  qed
qed

text \<open>The first code point of well-formed UTF-8, and its bytes.\<close>

lemma base64_digits:
  fixes x y :: nat
  assumes "y < 64"
  shows "(x * 64 + y) div 64 = x" and "(x * 64 + y) mod 64 = y"
  using assms by simp_all

lemma utf8_next_1:
  assumes "in_range 0x00 0x7F b"
  shows "utf8_next (b # r) = (of_char b, r)" and "utf8_encode (of_char b) = [b]"
    and "scalar (of_char b)"
  using assms
  by (simp_all add: trail_count_def in_range_def utf8_encode_def scalar_def
      is_high_surrogate_def is_low_surrogate_def)

lemma char_of_offset: "k \<le> of_char b \<Longrightarrow> char_of (k + (of_char b - k)) = b" for k :: nat
  by simp

lemma utf8_next_2:
  assumes "in_range 0xC2 0xDF b" and "in_range 0x80 0xBF c1"
  defines "cp \<equiv> (of_char b - 0xC0) * 64 + (of_char c1 - 0x80)"
  shows "utf8_next (b # c1 # r) = (cp, r)" and "utf8_encode cp = [b, c1]" and "scalar cp"
proof -
  define x y :: nat where "x = of_char b - 0xC0" and "y = of_char c1 - 0x80"
  from assms(1,2) have tc: "trail_count b = Suc 0" and lb: "lead_bits b = of_char b - 0xC0"
    by (simp_all add: trail_count_def lead_bits_def in_range_def)
  with assms(2) show "utf8_next (b # c1 # r) = (cp, r)"
    by (simp add: cp_def is_cont_def)
  from assms(1,2) have y: "y < 64" and x: "2 \<le> x" "x \<le> 31"
    by (auto simp: in_range_def x_def y_def)
  then have range: "0x80 \<le> x * 64 + y" "x * 64 + y < 0x800" by simp_all
  then show "scalar cp"
    by (simp add: cp_def x_def y_def scalar_def is_high_surrogate_def is_low_surrogate_def)
  from range y have "utf8_encode (x * 64 + y) = [char_of (0xC0 + x), char_of (0x80 + y)]"
    by (simp add: utf8_encode_def)
  with assms(1,2) show "utf8_encode cp = [b, c1]"
    by (simp add: cp_def x_def y_def char_of_offset in_range_def)
qed

lemma base64_digits3:
  fixes n a x y z :: nat
  assumes "n = a * 64 + z" and "a = x * 64 + y" and "y < 64" and "z < 64"
  shows "n div 4096 = x" and "n div 64 mod 64 = y" and "n mod 64 = z"
proof -
  from assms(1,4) have n: "n div 64 = a" "n mod 64 = z" by simp_all
  moreover from assms(2,3) have "a div 64 = x" "a mod 64 = y" by simp_all
  moreover have "n div 4096 = n div 64 div 64" by (simp add: div_mult2_eq [symmetric])
  ultimately show "n div 4096 = x" and "n div 64 mod 64 = y" and "n mod 64 = z" by simp_all
qed

lemma base64_digits4:
  fixes n a b x y z w :: nat
  assumes "n = a * 64 + w" and "a = b * 64 + z" and "b = x * 64 + y"
    and "y < 64" and "z < 64" and "w < 64"
  shows "n div 262144 = x" and "n div 4096 mod 64 = y" and "n div 64 mod 64 = z"
    and "n mod 64 = w"
proof -
  from assms(1,6) have n: "n div 64 = a" "n mod 64 = w" by simp_all
  moreover have "n div 262144 = n div 64 div 4096" and "n div 4096 = n div 64 div 64"
    by (simp_all add: div_mult2_eq [symmetric])
  ultimately show "n div 262144 = x" and "n div 4096 mod 64 = y" and "n div 64 mod 64 = z"
    and "n mod 64 = w"
    using base64_digits3 [OF assms(2,3,4,5)] by simp_all
qed

lemma char_eq_code: "c = d \<longleftrightarrow> (of_char c :: nat) = of_char d"
  by (metis char_of_char)

lemma utf8_next_3:
  assumes "in_range 0xE0 0xEF b"
    and "in_range (if b = CHR 0xE0 then 0xA0 else 0x80) (if b = CHR 0xED then 0x9F else 0xBF) c1"
    and "in_range 0x80 0xBF c2"
  defines "cp \<equiv> ((of_char b - 0xE0) * 64 + (of_char c1 - 0x80)) * 64 + (of_char c2 - 0x80)"
  shows "utf8_next (b # c1 # c2 # r) = (cp, r)" and "utf8_encode cp = [b, c1, c2]"
    and "scalar cp"
proof -
  define x y z :: nat
    where "x = of_char b - 0xE0" and "y = of_char c1 - 0x80" and "z = of_char c2 - 0x80"
  define a where "a = x * 64 + y"
  have cp: "cp = a * 64 + z" by (simp add: cp_def a_def x_def y_def z_def)
  from assms(1) have tc: "trail_count b = Suc (Suc 0)" and lb: "lead_bits b = of_char b - 0xE0"
    by (simp_all add: trail_count_def lead_bits_def in_range_def)
  from assms(2) have c1: "in_range 0x80 0xBF c1" by (auto simp: in_range_def split: if_splits)
  with tc lb assms(3) show "utf8_next (b # c1 # c2 # r) = (cp, r)"
    by (simp add: cp_def is_cont_def)
  from assms(1) c1 assms(3) have d: "x \<le> 15" "y < 64" "z < 64"
    by (auto simp: in_range_def x_def y_def z_def)
  from assms(1,2) have lo: "x = 0 \<longrightarrow> 32 \<le> y" and hi: "x = 13 \<longrightarrow> y \<le> 31"
    by (auto simp: in_range_def x_def y_def char_eq_code [of b] split: if_splits)
  from d lo have range: "0x800 \<le> cp" "cp < 0x10000"
    by (cases "x = 0"; simp add: cp a_def)+
  from d hi have "cp < 0xD800 \<or> 0xDFFF < cp"
    by (cases "x \<le> 12"; cases "x = 13"; simp add: cp a_def)
  with range show "scalar cp"
    by (auto simp: scalar_def is_high_surrogate_def is_low_surrogate_def)
  from range have "utf8_encode cp = [char_of (0xE0 + x), char_of (0x80 + y), char_of (0x80 + z)]"
    by (simp add: utf8_encode_def base64_digits3 [OF cp a_def d(2,3)])
  with assms(1,3) c1 show "utf8_encode cp = [b, c1, c2]"
    by (simp add: x_def y_def z_def char_of_offset in_range_def)
qed

lemma utf8_next_4:
  assumes "in_range 0xF0 0xF4 b"
    and "in_range (if b = CHR 0xF0 then 0x90 else 0x80) (if b = CHR 0xF4 then 0x8F else 0xBF) c1"
    and "in_range 0x80 0xBF c2" and "in_range 0x80 0xBF c3"
  defines "cp \<equiv> (((of_char b - 0xF0) * 64 + (of_char c1 - 0x80)) * 64 + (of_char c2 - 0x80)) * 64
      + (of_char c3 - 0x80)"
  shows "utf8_next (b # c1 # c2 # c3 # r) = (cp, r)" and "utf8_encode cp = [b, c1, c2, c3]"
    and "scalar cp"
proof -
  define x y z w :: nat
    where "x = of_char b - 0xF0" and "y = of_char c1 - 0x80" and "z = of_char c2 - 0x80"
      and "w = of_char c3 - 0x80"
  define a1 a2 where "a1 = x * 64 + y" and "a2 = a1 * 64 + z"
  have cp: "cp = a2 * 64 + w" by (simp add: cp_def a1_def a2_def x_def y_def z_def w_def)
  from assms(1) have tc: "trail_count b = Suc (Suc (Suc 0))"
    and lb: "lead_bits b = of_char b - 0xF0"
    by (simp_all add: trail_count_def lead_bits_def in_range_def)
  from assms(2) have c1: "in_range 0x80 0xBF c1" by (auto simp: in_range_def split: if_splits)
  with tc lb assms(3,4) show "utf8_next (b # c1 # c2 # c3 # r) = (cp, r)"
    by (simp add: cp_def is_cont_def)
  from assms(1,3,4) c1 have d: "x \<le> 4" "y < 64" "z < 64" "w < 64"
    by (auto simp: in_range_def x_def y_def z_def w_def)
  from assms(1,2) have lo: "x = 0 \<longrightarrow> 16 \<le> y" and hi: "x = 4 \<longrightarrow> y \<le> 15"
    by (auto simp: in_range_def x_def y_def char_eq_code [of b] split: if_splits)
  from d lo hi have range: "0x10000 \<le> cp" "cp < 0x110000"
    by (cases "x = 0"; cases "x = 4"; simp add: cp a1_def a2_def)+
  then show "scalar cp"
    by (simp add: scalar_def is_high_surrogate_def is_low_surrogate_def)
  from range have "utf8_encode cp =
      [char_of (0xF0 + x), char_of (0x80 + y), char_of (0x80 + z), char_of (0x80 + w)]"
    by (simp add: utf8_encode_def base64_digits4 [OF cp a2_def a1_def d(2,3,4)])
  with assms(1,3,4) c1 show "utf8_encode cp = [b, c1, c2, c3]"
    by (simp add: x_def y_def z_def w_def char_of_offset in_range_def)
qed

text \<open>Well-formed UTF-8 is a sequence of scalar values, each read and written back.\<close>

lemma utf8_valid_next:
  assumes "utf8_valid s" and "s \<noteq> []"
  obtains cp r where "utf8_next s = (cp, r)" and "s = utf8_encode cp @ r" and "scalar cp"
    and "utf8_valid r"
proof (cases s)
  case Nil
  with assms(2) show ?thesis by simp
next
  case (Cons b bs)
  consider (one) "in_range 0x00 0x7F b" | (two) "in_range 0xC2 0xDF b"
    | (three) "in_range 0xE0 0xEF b" | (four) "in_range 0xF0 0xF4 b"
    using assms(1) Cons by (auto split: if_splits)
  then show ?thesis
  proof cases
    case one
    with assms(1) Cons utf8_next_1 [OF one] that show ?thesis by simp
  next
    case two
    with assms(1) Cons obtain c1 r where bs: "bs = c1 # r" "in_range 0x80 0xBF c1" "utf8_valid r"
      by (auto simp: in_range_def split: if_splits list.splits)
    with Cons utf8_next_2 [OF two bs(2)] that show ?thesis by simp
  next
    case three
    with assms(1) Cons obtain c1 c2 r where bs: "bs = c1 # c2 # r"
      "in_range (if b = CHR 0xE0 then 0xA0 else 0x80) (if b = CHR 0xED then 0x9F else 0xBF) c1"
      "in_range 0x80 0xBF c2" "utf8_valid r"
      by (auto simp: in_range_def split: if_splits list.splits)
    with Cons utf8_next_3 [OF three bs(2,3)] that show ?thesis by simp
  next
    case four
    with assms(1) Cons obtain c1 c2 c3 r where bs: "bs = c1 # c2 # c3 # r"
      "in_range (if b = CHR 0xF0 then 0x90 else 0x80) (if b = CHR 0xF4 then 0x8F else 0xBF) c1"
      "in_range 0x80 0xBF c2" "in_range 0x80 0xBF c3" "utf8_valid r"
      by (auto simp: in_range_def split: if_splits list.splits)
    with Cons utf8_next_4 [OF four bs(2,3,4)] that show ?thesis by simp
  qed
qed

text \<open>A string that the encoder wrote is read back, up to its closing quote.\<close>

lemma scanstring_escape_ascii:
  assumes "utf8_valid s"
  shows "scanstring (escape_ascii s @ dquote # rest) = Inr (s, rest)"
  using assms
proof (induction s rule: escape_ascii.induct)
  case (1 s)
  show ?case
  proof (cases "s = []")
    case True
    then show ?thesis by (subst escape_ascii.simps) simp
  next
    case False
    with "1.prems" obtain cp r where nx: "utf8_next s = (cp, r)" and s: "s = utf8_encode cp @ r"
      and cp: "scalar cp" and r: "utf8_valid r"
      by (rule utf8_valid_next)
    from False nx have "escape_ascii s = escape_cp cp @ escape_ascii r"
      by (subst escape_ascii.simps) simp
    moreover from "1.IH" [OF False nx [symmetric] r]
    have "scanstring (escape_ascii r @ dquote # rest) = Inr (r, rest)" .
    ultimately show ?thesis
      using scanstring_escape_cp [OF cp, of "escape_ascii r @ dquote # rest"] s by simp
  qed
qed

lemma scan_u_shorter: "scan_u s = Inr (cp, r) \<Longrightarrow> length r < length s"
  by (auto simp: scan_u_def Let_def split: if_splits option.splits)

lemma scanstring_step:
  assumes "scanstring s = Inr (x, r)"
  shows "s = dquote # r \<or> (\<exists>t y. length t < length s \<and> scanstring t = Inr (y, r))"
proof (cases s)
  case Nil
  with assms show ?thesis by simp
next
  case (Cons c t)
  show ?thesis
  proof (cases "c = backslash")
    case True
    with assms Cons obtain e t' where t: "t = e # t'" by (cases t) auto
    show ?thesis
    proof (cases "e = CHR ''u''")
      case True
      with assms Cons t \<open>c = backslash\<close> obtain cp t'' y
        where "scan_u t' = Inr (cp, t'')" and "scanstring t'' = Inr (y, r)"
        by (auto simp: prepend_def r_bind_def split: sum.splits)
      with scan_u_shorter [of t' cp t''] Cons t show ?thesis by auto
    next
      case False
      with assms Cons t \<open>c = backslash\<close> obtain y where "scanstring t' = Inr (y, r)"
        by (auto simp: prepend_def r_bind_def split: sum.splits option.splits)
      with Cons t show ?thesis by auto
    qed
  next
    case False
    with assms Cons have "c = dquote \<and> t = r \<or> (\<exists>y. scanstring t = Inr (y, r))"
      by (auto simp: prepend_def r_bind_def split: sum.splits if_splits)
    with Cons show ?thesis by auto
  qed
qed

lemma scanstring_shorter: "scanstring s = Inr (x, r) \<Longrightarrow> length r < length s"
proof (induction "length s" arbitrary: s x rule: less_induct)
  case less
  from scanstring_step [OF less.prems] show ?case
  proof
    assume "s = dquote # r"
    then show ?thesis by simp
  next
    assume "\<exists>t y. length t < length s \<and> scanstring t = Inr (y, r)"
    then obtain t y where "length t < length s" and "scanstring t = Inr (y, r)" by blast
    with less.hyps [of t y] show ?thesis by simp
  qed
qed

text \<open>What the scanners raise.\<close>

lemma scan_u_Inl: "scan_u s = Inl e \<Longrightarrow> e = JSONDecodeError"
  by (auto simp: scan_u_def Let_def split: if_splits option.splits)

lemma scanstring_Inl: "scanstring s = Inl e \<Longrightarrow> e = JSONDecodeError"
  by (induction s rule: scanstring.induct)
    (auto simp: prepend_def r_bind_def dest: scan_u_Inl
      split: if_splits list.splits sum.splits option.splits)

lemma int_of_literal_Inl: "int_of_literal s = Inl e \<Longrightarrow> e = ValueError"
  by (auto simp: int_of_literal_def Let_def split: if_splits)

text \<open>A number literal is a part of the text, and not empty.\<close>

lemma lex_integer_text:
  assumes "lex_integer s = Some (i, r)"
  shows "s = i @ r" and "i \<noteq> []"
  using assms
  by (cases s; cases "tl s"; auto simp: lex_integer_def Let_def split: if_splits)+

lemma lex_frac_text: "lex_frac s = (f, r) \<Longrightarrow> s = f @ r"
  by (auto simp: lex_frac_def split: list.splits if_splits)

lemma lex_exp_text: "lex_exp s = (e, r) \<Longrightarrow> s = e @ r"
proof (cases s)
  case Nil
  assume "lex_exp s = (e, r)"
  with Nil show ?thesis by (simp add: lex_exp_def)
next
  case (Cons c cs)
  assume "lex_exp s = (e, r)"
  moreover have "cs = (if cs \<noteq> [] \<and> (hd cs = CHR ''+'' \<or> hd cs = CHR ''-'') then [hd cs] else []) @
      drop (length (if cs \<noteq> [] \<and> (hd cs = CHR ''+'' \<or> hd cs = CHR ''-'') then [hd cs] else [])) cs"
    by (cases cs) auto
  ultimately show ?thesis
    using Cons by (auto simp: lex_exp_def Let_def split: if_splits)
qed

lemma match_number_text:
  assumes "match_number s = Some ((i, f, e), r)"
  shows "s = i @ f @ e @ r" and "i \<noteq> []"
proof -
  from assms obtain r1 r2 where "lex_integer s = Some (i, r1)" and "lex_frac r1 = (f, r2)"
    and "lex_exp r2 = (e, r)"
    by (auto simp: match_number_def split: option.splits prod.splits)
  with lex_integer_text [of s i r1] lex_frac_text [of r1 f r2] lex_exp_text [of r2 e r]
  show "s = i @ f @ e @ r" and "i \<noteq> []" by simp_all
qed

lemma match_number_shorter:
  assumes "match_number s = Some (p, r)"
  shows "length r < length s"
proof -
  obtain i f e where "p = (i, f, e)" by (cases p)
  with assms match_number_text [of s i f e r] have s: "s = i @ f @ e @ r" and i: "i \<noteq> []"
    by simp_all
  from s have "length s = length (i @ f @ e @ r)" by (rule arg_cong)
  with i show ?thesis by simp
qed

lemma digit_ended_run:
  assumes "list_all number_char pre" and "is_digit c"
  shows "digit_ended (pre @ c # takeWhile is_digit cs)"
proof -
  from assms(2) have digs: "\<forall>x \<in> set (c # takeWhile is_digit cs). is_digit x"
    by (auto dest: set_takeWhileD)
  then have "is_digit (last (c # takeWhile is_digit cs))"
    by (metis last_in_set list.distinct(1))
  moreover from digs have "list_all number_char (c # takeWhile is_digit cs)"
    by (auto simp: list_all_iff number_char_def)
  ultimately show ?thesis
    using assms(1) by (simp add: digit_ended_def del: last.simps)
qed

lemma lex_integer_chars:
  assumes "lex_integer s = Some (i, r)"
  shows "digit_ended i" and "hd i = CHR ''-'' \<or> is_digit (hd i)"
proof -
  have zero: "is_digit CHR ''0''" by (simp add: is_digit_def in_range_def)
  from assms digit_ended_run [of "[]"] digit_ended_run [of "''-''"] zero
  show "digit_ended i"
    by (cases s; cases "tl s")
      (auto simp: lex_integer_def Let_def number_char_def digit_ended_def split: if_splits)
  from assms zero show "hd i = CHR ''-'' \<or> is_digit (hd i)"
    by (cases s) (auto simp: lex_integer_def Let_def split: if_splits list.splits)
qed

lemma lex_frac_chars: "lex_frac s = (f, r) \<Longrightarrow> f = [] \<or> digit_ended f"
  using digit_ended_run [of "''.''"]
  by (auto simp: lex_frac_def number_char_def split: list.splits if_splits)

lemma lex_exp_chars:
  assumes "lex_exp s = (e, r)"
  shows "e = [] \<or> digit_ended e"
proof (cases s)
  case Nil
  with assms show ?thesis by (simp add: lex_exp_def)
next
  case (Cons c cs)
  define sg where "sg = (if cs \<noteq> [] \<and> (hd cs = CHR ''+'' \<or> hd cs = CHR ''-'') then [hd cs] else [])"
  define ds where "ds = drop (length sg) cs"
  show ?thesis
  proof (cases "e = []")
    case False
    with assms Cons have c: "c = CHR ''e'' \<or> c = CHR ''E''" and ds: "ds \<noteq> []" "is_digit (hd ds)"
      and e: "e = c # sg @ takeWhile is_digit ds"
      by (auto simp: lex_exp_def Let_def sg_def ds_def split: if_splits)
    from c have "list_all number_char (c # sg)" by (auto simp: number_char_def sg_def)
    from digit_ended_run [OF this ds(2), of "tl ds"] ds e show ?thesis
      by (cases ds) simp_all
  qed simp
qed

text \<open>The same of a whole number.\<close>

lemma digit_ended_append: "digit_ended x \<Longrightarrow> y = [] \<or> digit_ended y \<Longrightarrow> digit_ended (x @ y)"
  by (auto simp: digit_ended_def)

lemma match_number_chars:
  assumes "match_number s = Some ((i, f, e), r)"
  shows "digit_ended (i @ f @ e)" and "hd i = CHR ''-'' \<or> is_digit (hd i)"
proof -
  from assms obtain r1 r2 where "lex_integer s = Some (i, r1)" and "lex_frac r1 = (f, r2)"
    and "lex_exp r2 = (e, r)"
    by (auto simp: match_number_def split: option.splits prod.splits)
  with lex_integer_chars [of s i r1] lex_frac_chars [of r1 f r2] lex_exp_chars [of r2 e r]
  have i: "digit_ended i" and "f = [] \<or> digit_ended f" and "e = [] \<or> digit_ended e"
    and hd: "hd i = CHR ''-'' \<or> is_digit (hd i)"
    by simp_all
  with digit_ended_append [of f e] have "f @ e = [] \<or> digit_ended (f @ e)"
    by (cases "f = []") auto
  with i show "digit_ended (i @ f @ e)" by (rule digit_ended_append)
  from hd show "hd i = CHR ''-'' \<or> is_digit (hd i)" .
qed

lemma float_literal_chars:
  assumes "float_literal t"
  shows "digit_ended t" and "hd t = CHR ''-'' \<or> is_digit (hd t)"
proof -
  from assms obtain i f e where m: "match_number t = Some ((i, f, e), [])"
    by (auto simp: float_literal_def split: option.splits)
  from match_number_text [OF m] match_number_chars [OF m]
  show "digit_ended t" and "hd t = CHR ''-'' \<or> is_digit (hd t)" by simp_all
qed

lemma match_number_start:
  assumes "match_number s = Some (p, r)"
  obtains c cs where "s = c # cs" and "is_digit c"
  | c cs where "s = CHR ''-'' # c # cs" and "is_digit c"
proof -
  have "is_digit CHR ''0''" by (simp add: is_digit_def in_range_def)
  with assms that show ?thesis
    by (cases s; cases "tl s")
      (auto simp: match_number_def lex_integer_def Let_def split: option.splits if_splits)
qed

end
