(* ===== verification/Json_Codec.thy ===== *)
theory Json_Codec
  imports Json_Text "HOL-Library.AList"
begin

text \<open>
  \<open>json.dumps(obj)\<close> and \<open>json.loads(s)\<close> of CPython with their default arguments, as
  \<open>src/mcp-client.py\<close> calls them at lines 120 and 126: the encoder (\<open>encode_obj\<close>, with
  the separators \<open>", "\<close> and \<open>": "\<close>) and the scanner (\<open>scan_once\<close> with the loops
  \<open>parse_array\<close> and \<open>parse_object\<close>). What depends on the interpreter and not on the
  text is a parameter, the record \<open>runtime\<close>: the depth at which the encoder and the
  decoder raise \<open>RecursionError\<close>, and the conversions between floats and their texts
  (\<open>float.__repr__\<close>, \<open>float\<close>). The scanner recurses through its loops and is defined
  with its domain first; that it shortens the text gives its termination. The lemmas: the
  decoder reads back what the encoder writes, the encoder writes visible ASCII, the values
  the decoder returns, and what each of the two raises.
\<close>

section \<open>The interpreter\<close>

record runtime =
  dumps_depth :: nat
  loads_depth :: nat
  float_repr :: "real \<Rightarrow> string"
  float_of_str :: "string \<Rightarrow> pyfloat"

section \<open>Encoding\<close>

definition floatstr :: "runtime \<Rightarrow> pyfloat \<Rightarrow> string" where
  "floatstr rt f =
     (case f of
        NaN \<Rightarrow> ''NaN''
      | PosInf \<Rightarrow> ''Infinity''
      | NegInf \<Rightarrow> ''-Infinity''
      | Finite r \<Rightarrow> float_repr rt r)"

definition int_str :: "int \<Rightarrow> string result" where
  "int_str i =
     (if max_str_digits < length (digits (nat \<bar>i\<bar>)) then Inl ValueError else Inr (int_repr i))"

fun sequence :: "'a result list \<Rightarrow> 'a list result" where
  "sequence [] = Inr []"
| "sequence (r # rs) = r_bind r (\<lambda>x. r_bind (sequence rs) (\<lambda>xs. Inr (x # xs)))"

fun join :: "string \<Rightarrow> string list \<Rightarrow> string" where
  "join sep [] = []"
| "join sep [t] = t"
| "join sep (t # ts) = t @ sep @ join sep ts"

fun encode_obj :: "runtime \<Rightarrow> nat \<Rightarrow> py \<Rightarrow> string result" where
  "encode_obj rt d PyNone = Inr ''null''"
| "encode_obj rt d (PyBool b) = Inr (if b then ''true'' else ''false'')"
| "encode_obj rt d (PyStr s) = Inr (encode_basestring_ascii s)"
| "encode_obj rt d (PyInt i) = int_str i"
| "encode_obj rt d (PyFloat f) = Inr (floatstr rt f)"
| "encode_obj rt d (PyList xs) =
     (if d = 0 then Inl RecursionError
      else if xs = [] then Inr ''[]''
      else r_bind (sequence (map (encode_obj rt (d - 1)) xs))
        (\<lambda>ts. Inr (''['' @ join '', '' ts @ '']'')))"
| "encode_obj rt d (PyDict kvs) =
     (if d = 0 then Inl RecursionError
      else if kvs = [] then Inr ''{}''
      else r_bind
        (sequence (map (\<lambda>(k, v). r_bind (encode_obj rt (d - 1) v)
           (\<lambda>t. Inr (encode_basestring_ascii k @ '': '' @ t))) kvs))
        (\<lambda>ts. Inr (''{'' @ join '', '' ts @ ''}'')))"

definition json_dumps :: "runtime \<Rightarrow> py \<Rightarrow> pystr result" where
  "json_dumps rt obj = encode_obj rt (dumps_depth rt) obj"

section \<open>Decoding\<close>

definition is_ws :: "char \<Rightarrow> bool" where
  "is_ws c = (c = CHR '' '' \<or> c = CHR 0x09 \<or> c = CHR 0x0A \<or> c = CHR 0x0D)"

definition skip_ws :: "string \<Rightarrow> string" where
  "skip_ws s = dropWhile is_ws s"

definition scan_number :: "runtime \<Rightarrow> string \<Rightarrow> (py \<times> string) result" where
  "scan_number rt s =
     (case match_number s of
        None \<Rightarrow> Inl JSONDecodeError
      | Some ((i, f, e), rest) \<Rightarrow>
          if f = [] \<and> e = [] then r_bind (int_of_literal i) (\<lambda>n. Inr (PyInt n, rest))
          else Inr (PyFloat (float_of_str rt (i @ f @ e)), rest))"

text \<open>The values that are no string and no container: the constants, then the numbers.\<close>

definition scan_constant :: "runtime \<Rightarrow> string \<Rightarrow> (py \<times> string) result" where
  "scan_constant rt s =
     (if prefix ''null'' s then Inr (PyNone, drop 4 s)
      else if prefix ''true'' s then Inr (PyBool True, drop 4 s)
      else if prefix ''false'' s then Inr (PyBool False, drop 5 s)
      else if prefix ''NaN'' s then Inr (PyFloat NaN, drop 3 s)
      else if prefix ''Infinity'' s then Inr (PyFloat PosInf, drop 8 s)
      else if prefix ''-Infinity'' s then Inr (PyFloat NegInf, drop 9 s)
      else scan_number rt s)"

text \<open>
  After an item of a container: the closing bracket ends it, a comma and whitespace lead to
  the next item, anything else is an error.
\<close>

definition next_item :: "char \<Rightarrow> string \<Rightarrow> (bool \<times> string) result" where
  "next_item close r =
     (case skip_ws r of
        [] \<Rightarrow> Inl JSONDecodeError
      | c # r1 \<Rightarrow>
          if c = close then Inr (True, r1)
          else if c = CHR '','' then Inr (False, skip_ws r1)
          else Inl JSONDecodeError)"

text \<open>The key of an object and its colon, up to the value.\<close>

definition object_key :: "string \<Rightarrow> (pystr \<times> string) result" where
  "object_key s =
     (case s of
        [] \<Rightarrow> Inl JSONDecodeError
      | q # s1 \<Rightarrow>
          if q = dquote then
            r_bind (scanstring s1) (\<lambda>(key, r).
              case skip_ws r of
                [] \<Rightarrow> Inl JSONDecodeError
              | c # r1 \<Rightarrow> if c = CHR '':'' then Inr (key, skip_ws r1) else Inl JSONDecodeError)
          else Inl JSONDecodeError)"

function (domintros) scan_once :: "runtime \<Rightarrow> nat \<Rightarrow> string \<Rightarrow> (py \<times> string) result"
  and parse_array :: "runtime \<Rightarrow> nat \<Rightarrow> py list \<Rightarrow> string \<Rightarrow> (py \<times> string) result"
  and parse_object :: "runtime \<Rightarrow> nat \<Rightarrow> (pystr \<times> py) list \<Rightarrow> string \<Rightarrow> (py \<times> string) result"
where
  "scan_once rt d s =
     (case s of
        [] \<Rightarrow> Inl JSONDecodeError
      | c # cs \<Rightarrow>
          if c = dquote then r_bind (scanstring cs) (\<lambda>(x, r). Inr (PyStr x, r))
          else if c = CHR ''{'' then
            (if d = 0 then Inl RecursionError
             else if prefix ''}'' (skip_ws cs) then Inr (PyDict [], tl (skip_ws cs))
             else parse_object rt (d - 1) [] (skip_ws cs))
          else if c = CHR ''['' then
            (if d = 0 then Inl RecursionError
             else if prefix '']'' (skip_ws cs) then Inr (PyList [], tl (skip_ws cs))
             else parse_array rt (d - 1) [] (skip_ws cs))
          else scan_constant rt s)"
| "parse_array rt d acc s =
     (case scan_once rt d s of
        Inl e \<Rightarrow> Inl e
      | Inr (v, r) \<Rightarrow>
          (case next_item (CHR '']'') r of
             Inl e \<Rightarrow> Inl e
           | Inr (stop, r1) \<Rightarrow>
               if stop then Inr (PyList (acc @ [v]), r1)
               else parse_array rt d (acc @ [v]) r1))"
| "parse_object rt d acc s =
     (case object_key s of
        Inl e \<Rightarrow> Inl e
      | Inr (key, r) \<Rightarrow>
          (case scan_once rt d r of
             Inl e \<Rightarrow> Inl e
           | Inr (v, r1) \<Rightarrow>
               (case next_item (CHR ''}'') r1 of
                  Inl e \<Rightarrow> Inl e
                | Inr (stop, r2) \<Rightarrow>
                    if stop then Inr (PyDict (AList.update key v acc), r2)
                    else parse_object rt d (AList.update key v acc) r2)))"
  by pat_completeness auto

text \<open>
  What is left after a value is shorter than the text: the two loops go on with less than
  they had.
\<close>

lemma length_skip_ws: "length (skip_ws s) \<le> length s"
  by (simp add: skip_ws_def length_dropWhile_le)

lemma scan_number_shorter: "scan_number rt s = Inr (v, r) \<Longrightarrow> length r < length s"
  by (auto simp: scan_number_def r_bind_def dest: match_number_shorter
      split: option.splits if_splits sum.splits)

lemma scan_constant_shorter: "scan_constant rt s = Inr (v, r) \<Longrightarrow> length r < length s"
  by (auto simp: scan_constant_def prefix_def dest: scan_number_shorter split: if_splits)

lemma next_item_shorter: "next_item c s = Inr (b, r) \<Longrightarrow> length r < length s"
  using length_skip_ws [of s] length_skip_ws [of "tl (skip_ws s)"]
  by (auto simp: next_item_def split: list.splits if_splits)

lemma object_key_shorter: "object_key s = Inr (k, r) \<Longrightarrow> length r < length s"
proof -
  assume "object_key s = Inr (k, r)"
  then obtain cs r1 c r2 where "s = dquote # cs" and "scanstring cs = Inr (k, r1)"
    and "skip_ws r1 = c # r2" and "r = skip_ws r2"
    by (auto simp: object_key_def r_bind_def split: list.splits if_splits sum.splits)
  with scanstring_shorter [of cs k r1] length_skip_ws [of r1] length_skip_ws [of r2]
  show ?thesis by simp
qed

lemma scan_once_progress:
  "scan_once_parse_array_parse_object_dom (Inl (rt, d, s)) \<Longrightarrow>
     scan_once rt d s = Inr (v, r) \<Longrightarrow> length r < length s"
  "scan_once_parse_array_parse_object_dom (Inr (Inl (rt, d, xs, s))) \<Longrightarrow>
     parse_array rt d xs s = Inr (v, r) \<Longrightarrow> length r < length s"
  "scan_once_parse_array_parse_object_dom (Inr (Inr (rt, d, kvs, s))) \<Longrightarrow>
     parse_object rt d kvs s = Inr (v, r) \<Longrightarrow> length r < length s"
proof (induct rt d s and rt d xs s and rt d kvs s arbitrary: v r and v r and v r
    rule: scan_once_parse_array_parse_object.pinduct)
  case (1 rt d s)
  note run = "1.prems" [unfolded scan_once.psimps [OF "1.hyps"(1)]]
  then obtain c cs where s: "s = c # cs" by (cases s) simp_all
  have cs: "length (skip_ws cs) < length s" "length (tl (skip_ws cs)) < length s"
    using length_skip_ws [of cs] by (simp_all add: s)
  consider (str) "c = dquote" | (obj) "c \<noteq> dquote" "c = CHR ''{''"
    | (arr) "c \<noteq> dquote" "c \<noteq> CHR ''{''" "c = CHR ''[''"
    | (const) "c \<noteq> dquote" "c \<noteq> CHR ''{''" "c \<noteq> CHR ''[''" by blast
  then show ?case
  proof cases
    case str
    with run s show ?thesis
      by (auto simp: r_bind_def split: sum.splits dest!: scanstring_shorter)
  next
    case obj
    with run s cs "1.hyps"(2) [OF s obj, of v r] show ?thesis by (auto split: if_splits)
  next
    case arr
    with run s cs "1.hyps"(3) [OF s arr, of v r] show ?thesis by (auto split: if_splits)
  qed (use run s in \<open>auto dest: scan_constant_shorter\<close>)
next
  case (2 rt d xs s)
  note run = "2.prems" [unfolded parse_array.psimps [OF "2.hyps"(1)]]
  then obtain x r1 b r2 where x: "scan_once rt d s = Inr (x, r1)"
    and nx: "next_item (CHR '']'') r1 = Inr (b, r2)"
    by (auto split: sum.splits)
  from "2.hyps"(2) [OF x] next_item_shorter [OF nx] have "length r2 < length s" by simp
  with run x nx "2.hyps"(3) [OF x refl nx refl, of v r] show ?case
    by (auto split: if_splits)
next
  case (3 rt d kvs s)
  note run = "3.prems" [unfolded parse_object.psimps [OF "3.hyps"(1)]]
  then obtain k r0 x r1 b r2 where k: "object_key s = Inr (k, r0)"
    and x: "scan_once rt d r0 = Inr (x, r1)" and nx: "next_item (CHR ''}'') r1 = Inr (b, r2)"
    by (auto split: sum.splits)
  from object_key_shorter [OF k] "3.hyps"(2) [OF k refl x] next_item_shorter [OF nx]
  have "length r2 < length s" by simp
  with run k x nx "3.hyps"(3) [OF k refl x refl nx refl, of v r] show ?case
    by (auto split: if_splits)
qed

termination scan_once
proof (relation "measure (\<lambda>x. case x of
      Inl (rt, d, s) \<Rightarrow> 2 * length s
    | Inr (Inl (rt, d, xs, s)) \<Rightarrow> 2 * length s + 1
    | Inr (Inr (rt, d, kvs, s)) \<Rightarrow> 2 * length s + 1)", simp_all, goal_cases)
  case (1 d s c cs)
  with length_skip_ws [of cs] show ?case by simp
next
  case (2 d s c cs)
  with length_skip_ws [of cs] show ?case by simp
next
  case (3 rt d s b x r b' stop r')
  then have "scan_once rt d s = Inr (x, r)" and "next_item (CHR '']'') r = Inr (False, r')"
    by simp_all
  with scan_once_progress(1) [OF 3(6)] next_item_shorter show ?case by fastforce
next
  case (4 s b k r)
  with object_key_shorter [of s k r] show ?case by simp
next
  case (5 rt d s b k r b' x r' b'' stop r'')
  then have "object_key s = Inr (k, r)" and "scan_once rt d r = Inr (x, r')"
    and "next_item (CHR ''}'') r' = Inr (False, r'')"
    by simp_all
  with scan_once_progress(1) [OF 5(8)] next_item_shorter object_key_shorter show ?case
    by fastforce
qed

declare scan_once.simps [simp del] parse_array.simps [simp del] parse_object.simps [simp del]

text \<open>
  \<open>json.loads\<close> on a \<open>str\<close>: no byte order mark, whitespace, one value, whitespace, and
  nothing more.
\<close>

definition bom :: string where
  "bom = [CHR 0xEF, CHR 0xBB, CHR 0xBF]"

definition json_loads :: "runtime \<Rightarrow> pystr \<Rightarrow> py result" where
  "json_loads rt s =
     (if prefix bom s then Inl JSONDecodeError
      else r_bind (scan_once rt (loads_depth rt) (skip_ws s)) (\<lambda>(obj, r).
        if skip_ws r = [] then Inr obj else Inl JSONDecodeError))"

section \<open>The values that are written and read back\<close>

text \<open>
  \<open>nests_within d v\<close>: the containers of \<open>v\<close> nest at most \<open>d\<close> deep.
  \<open>float_texts rt v\<close>: every finite float of \<open>v\<close> is printed as a float literal.
  \<open>plain rt v\<close>: moreover the ints of \<open>v\<close> have at most 4300 digits, its strings and keys
  are well-formed UTF-8 (no lone surrogate), the keys of a dict are distinct, and a float
  is read back from what is printed for it.
\<close>

fun nests_within :: "nat \<Rightarrow> py \<Rightarrow> bool" where
  "nests_within d (PyList xs) = (d \<noteq> 0 \<and> (\<forall>x \<in> set xs. nests_within (d - 1) x))"
| "nests_within d (PyDict kvs) = (d \<noteq> 0 \<and> (\<forall>v \<in> set (map snd kvs). nests_within (d - 1) v))"
| "nests_within d _ = True"

fun float_texts :: "runtime \<Rightarrow> py \<Rightarrow> bool" where
  "float_texts rt (PyFloat (Finite r)) = float_literal (float_repr rt r)"
| "float_texts rt (PyList xs) = (\<forall>x \<in> set xs. float_texts rt x)"
| "float_texts rt (PyDict kvs) = (\<forall>v \<in> set (map snd kvs). float_texts rt v)"
| "float_texts rt _ = True"

fun plain :: "runtime \<Rightarrow> py \<Rightarrow> bool" where
  "plain rt (PyInt i) = (length (digits (nat \<bar>i\<bar>)) \<le> max_str_digits)"
| "plain rt (PyFloat (Finite r)) =
     (float_literal (float_repr rt r) \<and> float_of_str rt (float_repr rt r) = Finite r)"
| "plain rt (PyStr s) = utf8_valid s"
| "plain rt (PyList xs) = (\<forall>x \<in> set xs. plain rt x)"
| "plain rt (PyDict kvs) =
     (distinct (map fst kvs) \<and> (\<forall>k \<in> set (map fst kvs). utf8_valid k)
      \<and> (\<forall>v \<in> set (map snd kvs). plain rt v))"
| "plain rt _ = True"

text \<open>The characters a value can start with.\<close>

definition value_start :: "char \<Rightarrow> bool" where
  "value_start c = (c \<in> set (dquote # ''{[ntfNI-'') \<or> is_digit c)"

text \<open>
  \<open>reads_back rt d v t\<close>: the text \<open>t\<close> starts as a value does, and the scanner reads \<open>v\<close>
  from it, and all of it, before anything that ends a number.
\<close>

definition reads_back :: "runtime \<Rightarrow> nat \<Rightarrow> py \<Rightarrow> string \<Rightarrow> bool" where
  "reads_back rt d v t =
     (t \<noteq> [] \<and> value_start (hd t)
      \<and> (\<forall>rest. delimited rest \<longrightarrow> scan_once rt d (t @ rest) = Inr (v, rest)))"

fun small_ints :: "py \<Rightarrow> bool" where
  "small_ints (PyInt i) = (length (digits (nat \<bar>i\<bar>)) \<le> max_str_digits)"
| "small_ints (PyList xs) = (\<forall>x \<in> set xs. small_ints x)"
| "small_ints (PyDict kvs) = (\<forall>v \<in> set (map snd kvs). small_ints v)"
| "small_ints _ = True"

text \<open>A value that was read: its dicts have distinct keys, and it nests within the budget.\<close>

definition shaped :: "nat \<Rightarrow> py \<Rightarrow> bool" where
  "shaped d v = (wf_py v \<and> nests_within d v)"

text \<open>The text of an item of an object.\<close>

abbreviation item_text :: "pystr \<times> py \<Rightarrow> string \<Rightarrow> string" where
  "item_text kv tv \<equiv> encode_basestring_ascii (fst kv) @ '': '' @ tv"

section \<open>An interpreter and a message to apply the lemmas to\<close>

definition demo_runtime :: runtime where
  "demo_runtime =
     \<lparr>dumps_depth = 4, loads_depth = 4,
      float_repr = (\<lambda>r. ''0.5''), float_of_str = (\<lambda>s. Finite (1 / 2))\<rparr>"

definition demo_message :: py where
  "demo_message =
     PyDict [(''id'', PyInt (- 7)), (''ok'', PyBool True),
       (''args'', PyList [PyNone, PyFloat (Finite (1 / 2)), PyStr [CHR 0xC3, CHR 0xA9, newline]])]"

definition demo_message_text :: string where
  \<open>demo_message_text = ''{"id": -7, "ok": true, "args": [null, 0.5, "'' @ [backslash] @ ''u00e9'' @ [backslash] @ ''n"]}''\<close>

section \<open>Lemmas on decoding\<close>

lemma scan_once_total:
  "scan_once_parse_array_parse_object_dom (Inl (rt, d, s))"
  "scan_once_parse_array_parse_object_dom (Inr (Inl (rt, d, xs, s)))"
  "scan_once_parse_array_parse_object_dom (Inr (Inr (rt, d, kvs, s)))"
  by (induct rt d s and rt d xs s and rt d kvs s
      rule: scan_once_parse_array_parse_object.induct)
    (auto intro: scan_once_parse_array_parse_object.domintros)

lemmas scan_once_shorter = scan_once_progress(1) [OF scan_once_total(1)]

section \<open>Lemmas on encoding\<close>

lemma sequence_map_eq_Inr:
  "sequence (map f xs) = Inr ts \<longleftrightarrow> list_all2 (\<lambda>x t. f x = Inr t) xs ts"
proof
  show "sequence (map f xs) = Inr ts \<Longrightarrow> list_all2 (\<lambda>x t. f x = Inr t) xs ts"
    by (induction xs arbitrary: ts) (auto simp: r_bind_def split: sum.splits)
  show "list_all2 (\<lambda>x t. f x = Inr t) xs ts \<Longrightarrow> sequence (map f xs) = Inr ts"
    by (induction rule: list_all2_induct) simp_all
qed

lemma sequence_map_eq_Inl:
  "sequence (map f xs) = Inl e \<Longrightarrow> \<exists>x \<in> set xs. f x = Inl e"
  by (induction xs) (auto simp: r_bind_def split: sum.splits)

lemma list_all_join:
  "list_all P sep \<Longrightarrow> \<forall>t \<in> set ts. list_all P t \<Longrightarrow> list_all P (join sep ts)"
  by (induction sep ts rule: join.induct) simp_all

text \<open>The text of a number, and of any value: printable ASCII.\<close>

lemma number_char_printable: "number_char c \<Longrightarrow> printable c"
  by (auto simp: number_char_def is_digit_def printable_def in_range_def)

lemma digit_ended_printable: "digit_ended t \<Longrightarrow> list_all printable t"
  by (auto simp: digit_ended_def list_all_iff number_char_printable)

lemma int_repr_chars: "digit_ended (int_repr i)" "hd (int_repr i) = CHR ''-'' \<or> is_digit (hd (int_repr i))"
  using match_number_int_repr [of "[]" i] match_number_chars [of "int_repr i" "int_repr i" "[]" "[]" "[]"]
  by simp_all

lemma printable_floatstr: "float_texts rt (PyFloat f) \<Longrightarrow> list_all printable (floatstr rt f)"
  by (cases f)
    (auto simp: floatstr_def printable_def in_range_def
      dest!: float_literal_chars(1) digit_ended_printable)

lemma sequence_map_all:
  assumes "sequence (map f xs) = Inr ts" and "\<And>x t. x \<in> set xs \<Longrightarrow> f x = Inr t \<Longrightarrow> P t"
  shows "\<forall>t \<in> set ts. P t"
proof -
  from assms(1) have "list_all2 (\<lambda>x t. f x = Inr t) xs ts" by (simp add: sequence_map_eq_Inr)
  then have "\<forall>t \<in> set ts. \<exists>x \<in> set xs. f x = Inr t"
    by (induction rule: list_all2_induct) auto
  with assms(2) show ?thesis by blast
qed

lemma printable_brackets:
  assumes "\<forall>t \<in> set ts. list_all printable t" and "printable a" and "printable b"
  shows "list_all printable (a # join '', '' ts @ [b])"
  using assms by (simp add: list_all_join printable_def in_range_def)

lemma encode_obj_printable:
  "float_texts rt v \<Longrightarrow> encode_obj rt d v = Inr t \<Longrightarrow> list_all printable t"
proof (induction rt d v arbitrary: t rule: encode_obj.induct)
  case (6 rt d xs)
  show ?case
  proof (cases "xs = []")
    case False
    with "6.prems" obtain ts where ts: "sequence (map (encode_obj rt (d - 1)) xs) = Inr ts"
      and t: "t = CHR ''['' # join '', '' ts @ '']''" and d: "d \<noteq> 0"
      by (auto simp: r_bind_def split: if_splits sum.splits)
    from ts have "\<forall>t \<in> set ts. list_all printable t"
      by (rule sequence_map_all) (use "6.prems"(1) "6.IH" [OF d False] in auto)
    then show ?thesis unfolding t by (rule printable_brackets) (simp_all add: printable_def in_range_def)
  qed (use "6.prems" in \<open>auto simp: printable_def in_range_def split: if_splits\<close>)
next
  case (7 rt d kvs)
  let ?item = "\<lambda>(k, v). r_bind (encode_obj rt (d - 1) v)
    (\<lambda>t. Inr (encode_basestring_ascii k @ '': '' @ t))"
  show ?case
  proof (cases "kvs = []")
    case False
    with "7.prems" obtain ts where ts: "sequence (map ?item kvs) = Inr ts"
      and t: "t = CHR ''{'' # join '', '' ts @ ''}''" and d: "d \<noteq> 0"
      by (auto simp: r_bind_def split: if_splits sum.splits)
    have "list_all printable t'" if "kv \<in> set kvs" and "?item kv = Inr t'" for kv t'
    proof -
      obtain k v where kv: "kv = (k, v)" by (cases kv)
      with that(2) obtain tv where tv: "encode_obj rt (d - 1) v = Inr tv"
        and t': "t' = encode_basestring_ascii k @ '': '' @ tv"
        by (auto simp: r_bind_def split: sum.splits)
      from that(1) kv "7.prems"(1) have "float_texts rt v" by force
      with "7.IH" [OF d False that(1) kv [symmetric]] tv have "list_all printable tv" by simp
      then show ?thesis
        unfolding t' by (simp add: printable_encode_basestring_ascii) (simp add: printable_def in_range_def)
    qed
    with ts have "\<forall>t \<in> set ts. list_all printable t" by (rule sequence_map_all)
    then show ?thesis unfolding t by (rule printable_brackets) (simp_all add: printable_def in_range_def)
  qed (use "7.prems" in \<open>auto simp: printable_def in_range_def split: if_splits\<close>)
qed (auto simp: int_str_def printable_encode_basestring_ascii digit_ended_printable int_repr_chars
    printable_def in_range_def dest: printable_floatstr split: if_splits)

text \<open>The text of a value starts as a value does and does not end with a space.\<close>

lemma encode_obj_ends:
  assumes "float_texts rt v" and "encode_obj rt d v = Inr t"
  shows "t \<noteq> []" and "value_start (hd t)" and "last t \<noteq> CHR '' ''"
proof -
  have num: "x \<noteq> [] \<and> value_start (hd x) \<and> last x \<noteq> CHR '' ''"
    if "digit_ended x" and "hd x = CHR ''-'' \<or> is_digit (hd x)" for x
    using that by (auto simp: digit_ended_def value_start_def is_digit_def in_range_def)
  have "t \<noteq> [] \<and> value_start (hd t) \<and> last t \<noteq> CHR '' ''"
  proof (cases v)
    case (PyInt i)
    with assms(2) num [OF int_repr_chars, of i] show ?thesis
      by (auto simp: int_str_def split: if_splits)
  next
    case (PyFloat f)
    with assms num [OF float_literal_chars] show ?thesis
      by (cases f) (auto simp: floatstr_def value_start_def)
  qed (use assms(2) in \<open>auto simp: value_start_def encode_basestring_ascii_def r_bind_def
      split: if_splits sum.splits\<close>)
  then show "t \<noteq> []" and "value_start (hd t)" and "last t \<noteq> CHR '' ''" by simp_all
qed

section \<open>Reading back what was written\<close>

lemma value_start_not_ws: "value_start c \<Longrightarrow> \<not> is_ws c"
  by (auto simp: value_start_def is_ws_def is_digit_def in_range_def)

lemma skip_ws_simps [simp]:
  "skip_ws [] = []"
  "is_ws c \<Longrightarrow> skip_ws (c # s) = skip_ws s"
  "\<not> is_ws c \<Longrightarrow> skip_ws (c # s) = c # s"
  by (simp_all add: skip_ws_def)

lemma is_ws_simps [simp]:
  "is_ws (CHR '' '')" "\<not> is_ws (CHR '','')" "\<not> is_ws (CHR '':'')" "\<not> is_ws (CHR '']'')"
  "\<not> is_ws (CHR ''}'')" "\<not> is_ws dquote"
  by (simp_all add: is_ws_def)

lemma skip_ws_start: "t \<noteq> [] \<Longrightarrow> \<not> is_ws (hd t) \<Longrightarrow> skip_ws (t @ s) = t @ s"
  by (cases t) simp_all

lemma skip_ws_value: "t \<noteq> [] \<Longrightarrow> value_start (hd t) \<Longrightarrow> skip_ws (t @ s) = t @ s"
  by (simp add: skip_ws_start value_start_not_ws)

text \<open>Numbers.\<close>

lemma not_digit_simps [simp]:
  "\<not> is_digit dquote" "\<not> is_digit CHR ''{''" "\<not> is_digit CHR ''[''" "\<not> is_digit CHR ''n''"
  "\<not> is_digit CHR ''t''" "\<not> is_digit CHR ''f''" "\<not> is_digit CHR ''N''" "\<not> is_digit CHR ''I''"
  "\<not> is_digit CHR ''-''" "\<not> is_digit CHR '',''" "\<not> is_digit CHR '']''" "\<not> is_digit CHR ''}''"
  by (simp_all add: is_digit_def in_range_def)

lemma scan_once_digit:
  assumes "is_digit c"
  shows "scan_once rt d (c # cs) = scan_number rt (c # cs)"
    and "scan_once rt d (CHR ''-'' # c # cs) = scan_number rt (CHR ''-'' # c # cs)"
proof -
  from assms have c: "\<forall>x \<in> set (dquote # ''{[ntfNI-''). x \<noteq> c \<and> c \<noteq> x" by auto
  then show "scan_once rt d (c # cs) = scan_number rt (c # cs)"
    by (simp add: scan_once.simps scan_constant_def)
  from c show "scan_once rt d (CHR ''-'' # c # cs) = scan_number rt (CHR ''-'' # c # cs)"
    by (simp add: scan_once.simps scan_constant_def)
qed

lemma scan_once_number:
  assumes "match_number t = Some (p, r)"
  shows "scan_once rt d t = scan_number rt t"
  using assms by (rule match_number_start) (simp_all add: scan_once_digit)

lemma scan_once_int:
  assumes "length (digits (nat \<bar>i\<bar>)) \<le> max_str_digits" and "delimited rest"
  shows "scan_once rt d (int_repr i @ rest) = Inr (PyInt i, rest)"
  using assms match_number_int_repr [OF assms(2), of i] int_of_literal_int_repr [of i]
  by (simp add: scan_once_number scan_number_def)

lemma scan_once_float:
  assumes "float_literal t" and "delimited rest"
  shows "scan_once rt d (t @ rest) = Inr (PyFloat (float_of_str rt t), rest)"
proof -
  from assms(1) obtain i f e where m: "match_number t = Some ((i, f, e), [])"
    and fe: "f \<noteq> [] \<or> e \<noteq> []"
    by (auto simp: float_literal_def split: option.splits)
  from match_number_text(1) [OF m] have "t = i @ f @ e" by simp
  with match_number_append [OF m assms(2)] fe show ?thesis
    by (auto simp: scan_once_number scan_number_def)
qed

text \<open>Strings and keys.\<close>

lemma scan_once_str:
  assumes "utf8_valid s"
  shows "scan_once rt d (encode_basestring_ascii s @ rest) = Inr (PyStr s, rest)"
  using scanstring_escape_ascii [OF assms, of rest]
  by (simp add: scan_once.simps encode_basestring_ascii_def)

lemma object_key_text:
  assumes "utf8_valid k" and "t \<noteq> []" and "value_start (hd t)"
  shows "object_key (encode_basestring_ascii k @ '': '' @ t @ rest) = Inr (k, t @ rest)"
  using scanstring_escape_ascii [OF assms(1), of "'': '' @ t @ rest"] assms(2,3)
  by (simp add: object_key_def encode_basestring_ascii_def skip_ws_value)

text \<open>The items of a container.\<close>

lemma next_item_close: "\<not> is_ws c \<Longrightarrow> next_item c (c # r) = Inr (True, r)"
  by (simp add: next_item_def)

lemma next_item_comma:
  "close \<noteq> CHR '','' \<Longrightarrow> next_item close ('', '' @ r) = Inr (False, skip_ws r)"
  by (simp add: next_item_def)

lemma join_Cons: "ts \<noteq> [] \<Longrightarrow> join sep (t # ts) = t @ sep @ join sep ts"
  by (cases ts) simp_all

lemma join_hd: "ts \<noteq> [] \<Longrightarrow> hd ts \<noteq> [] \<Longrightarrow> join sep ts \<noteq> [] \<and> hd (join sep ts) = hd (hd ts)"
  by (induction sep ts rule: join.induct) simp_all

lemma update_fresh: "k \<notin> fst ` set al \<Longrightarrow> AList.update k v al = al @ [(k, v)]"
  by (induction al) auto

lemma list_all2_choice: "\<forall>x \<in> set xs. \<exists>y. P x y \<Longrightarrow> \<exists>ys. list_all2 P xs ys"
  by (induction xs) (auto simp: list_all2_Cons1)

lemma parse_array_join:
  assumes "list_all2 (reads_back rt d) xs ts" and "xs \<noteq> []"
  shows "parse_array rt d acc (join '', '' ts @ '']'' @ rest) = Inr (PyList (acc @ xs), rest)"
  using assms
proof (induction xs ts arbitrary: acc rule: list_all2_induct)
  case (Cons x xs t ts)
  from Cons.hyps(1) have rd: "scan_once rt d (t @ r) = Inr (x, r)" if "delimited r" for r
    using that by (simp add: reads_back_def)
  show ?case
  proof (cases "xs = []")
    case True
    moreover have "scan_once rt d (t @ '']'' @ rest) = Inr (x, '']'' @ rest)"
      by (rule rd) simp
    ultimately show ?thesis
      using Cons.hyps(2) by (subst parse_array.simps) (simp add: next_item_close)
  next
    case False
    with Cons.hyps(2) have ts: "ts \<noteq> []" and "reads_back rt d (hd xs) (hd ts)"
      by (auto simp: neq_Nil_conv list_all2_Cons1)
    with join_hd [of ts "'', ''"] have "skip_ws (join '', '' ts @ '']'' @ rest) = join '', '' ts @ '']'' @ rest"
      by (simp add: reads_back_def skip_ws_value)
    moreover have "scan_once rt d (t @ '', '' @ join '', '' ts @ '']'' @ rest) =
        Inr (x, '', '' @ join '', '' ts @ '']'' @ rest)"
      by (rule rd) simp
    ultimately show ?thesis
      using False ts Cons.IH [of "acc @ [x]"]
      by (subst parse_array.simps) (simp add: join_Cons next_item_comma del: append_Cons)
  qed
qed simp

lemma sequence_items:
  assumes "list_all2 (\<lambda>kv tv. f (snd kv) = Inr tv) kvs tvs"
  shows "sequence (map (\<lambda>(k, v). r_bind (f v) (\<lambda>t. Inr (g k t))) kvs) =
    Inr (map2 (\<lambda>kv tv. g (fst kv) tv) kvs tvs)"
  using assms by (induction rule: list_all2_induct) (auto simp: case_prod_beta)

lemma parse_object_join:
  assumes "list_all2 (\<lambda>kv tv. utf8_valid (fst kv) \<and> reads_back rt d (snd kv) tv) kvs tvs"
    and "kvs \<noteq> []" and "distinct (map fst (acc @ kvs))"
  shows "parse_object rt d acc (join '', '' (map2 item_text kvs tvs) @ ''}'' @ rest) =
    Inr (PyDict (acc @ kvs), rest)"
  using assms
proof (induction kvs tvs arbitrary: acc rule: list_all2_induct)
  case (Cons kv kvs tv tvs)
  let ?items = "map2 item_text kvs tvs"
  define R where "R = (if kvs = [] then ''}'' @ rest else '', '' @ join '', '' ?items @ ''}'' @ rest)"
  from Cons.hyps(2) have len: "kvs = [] \<longleftrightarrow> tvs = []" by (auto dest: list_all2_lengthD)
  then have whole: "join '', '' (map2 item_text (kv # kvs) (tv # tvs)) @ ''}'' @ rest =
      encode_basestring_ascii (fst kv) @ '': '' @ tv @ R"
    by (cases "kvs = []") (simp_all add: R_def join_Cons)
  from Cons.hyps(1) have key: "object_key (encode_basestring_ascii (fst kv) @ '': '' @ tv @ R) =
      Inr (fst kv, tv @ R)"
    by (intro object_key_text) (simp_all add: reads_back_def)
  from Cons.hyps(1) have val: "scan_once rt d (tv @ R) = Inr (snd kv, R)"
    by (simp add: reads_back_def R_def)
  from Cons.prems(2) have upd: "AList.update (fst kv) (snd kv) acc = acc @ [kv]"
    by (simp add: update_fresh)
  show ?case
  proof (cases "kvs = []")
    case True
    with whole key val upd show ?thesis
      by (subst parse_object.simps) (simp add: R_def next_item_close)
  next
    case False
    with len join_hd [of ?items "'', ''"]
    have "join '', '' ?items \<noteq> [] \<and> hd (join '', '' ?items) = dquote"
      by (cases kvs; cases tvs) (simp_all add: encode_basestring_ascii_def)
    then have "skip_ws (join '', '' ?items @ ''}'' @ rest) = join '', '' ?items @ ''}'' @ rest"
      by (simp add: skip_ws_start)
    with False have "next_item (CHR ''}'') R = Inr (False, join '', '' ?items @ ''}'' @ rest)"
      by (simp add: R_def next_item_comma del: append_Cons)
    with False whole key val upd Cons.IH [of "acc @ [kv]"] Cons.prems(2) show ?thesis
      by (subst parse_object.simps) simp
  qed
qed simp

text \<open>Each kind of value.\<close>

lemma reads_back_constants:
  "reads_back rt d PyNone ''null''" "reads_back rt d (PyBool True) ''true''"
  "reads_back rt d (PyBool False) ''false''" "reads_back rt d (PyFloat NaN) ''NaN''"
  "reads_back rt d (PyFloat PosInf) ''Infinity''" "reads_back rt d (PyFloat NegInf) ''-Infinity''"
  by (simp_all add: reads_back_def value_start_def scan_once.simps scan_constant_def)

lemma reads_back_str: "utf8_valid s \<Longrightarrow> reads_back rt d (PyStr s) (encode_basestring_ascii s)"
  by (simp add: reads_back_def scan_once_str) (simp add: encode_basestring_ascii_def value_start_def)

lemma reads_back_int:
  assumes "length (digits (nat \<bar>i\<bar>)) \<le> max_str_digits"
  shows "reads_back rt d (PyInt i) (int_repr i)"
  using assms int_repr_chars [of i]
  by (auto simp: reads_back_def scan_once_int value_start_def digit_ended_def)

lemma reads_back_float:
  assumes "float_literal t" and "float_of_str rt t = f"
  shows "reads_back rt d (PyFloat f) t"
  using assms float_literal_chars [of t]
  by (auto simp: reads_back_def scan_once_float value_start_def digit_ended_def)

lemma reads_back_empty:
  assumes "d \<noteq> 0"
  shows "reads_back rt d (PyList []) ''[]''" and "reads_back rt d (PyDict []) ''{}''"
  using assms by (simp_all add: reads_back_def value_start_def scan_once.simps)

lemma reads_back_list:
  assumes "list_all2 (reads_back rt (d - 1)) xs ts" and "d \<noteq> 0" and "xs \<noteq> []"
  shows "reads_back rt d (PyList xs) (''['' @ join '', '' ts @ '']'')"
proof -
  from assms(1,3) have "ts \<noteq> []" and "reads_back rt (d - 1) (hd xs) (hd ts)"
    by (auto simp: neq_Nil_conv list_all2_Cons1)
  with join_hd [of ts "'', ''"] have start: "join '', '' ts \<noteq> []" "value_start (hd (join '', '' ts))"
    by (simp_all add: reads_back_def)
  then have "skip_ws (join '', '' ts @ '']'' @ rest) = join '', '' ts @ '']'' @ rest"
    and "\<not> prefix '']'' (join '', '' ts @ '']'' @ rest)" for rest
    by (auto simp: skip_ws_value value_start_def prefix_def neq_Nil_conv)
  with assms(2) parse_array_join [OF assms(1,3), of "[]"] show ?thesis
    by (simp add: reads_back_def value_start_def scan_once.simps)
qed

lemma reads_back_dict:
  assumes "list_all2 (\<lambda>kv tv. utf8_valid (fst kv) \<and> reads_back rt (d - 1) (snd kv) tv) kvs tvs"
    and "d \<noteq> 0" and "kvs \<noteq> []" and "distinct (map fst kvs)"
  shows "reads_back rt d (PyDict kvs) (''{'' @ join '', '' (map2 item_text kvs tvs) @ ''}'')"
proof -
  let ?items = "map2 item_text kvs tvs"
  from assms(1,3) join_hd [of ?items "'', ''"]
  have start: "join '', '' ?items \<noteq> [] \<and> hd (join '', '' ?items) = dquote"
    by (cases kvs; cases tvs) (simp_all add: encode_basestring_ascii_def)
  then have "skip_ws (join '', '' ?items @ ''}'' @ rest) = join '', '' ?items @ ''}'' @ rest"
    and "\<not> prefix ''}'' (join '', '' ?items @ ''}'' @ rest)" for rest
    by (auto simp: skip_ws_start prefix_def neq_Nil_conv)
  with assms(2) parse_object_join [OF assms(1,3), of "[]"] assms(4) show ?thesis
    by (simp add: reads_back_def value_start_def scan_once.simps)
qed

text \<open>Every plain value: the encoder writes it, and the scanner reads it back.\<close>

lemma sequence_map_reads_back:
  assumes "\<forall>x \<in> set xs. \<exists>t. f x = Inr t \<and> P x t"
  obtains ts where "sequence (map f xs) = Inr ts" and "list_all2 P xs ts"
    and "list_all2 (\<lambda>x t. f x = Inr t) xs ts"
proof -
  from assms obtain ts where "list_all2 (\<lambda>x t. f x = Inr t \<and> P x t) xs ts"
    using list_all2_choice [of xs "\<lambda>x t. f x = Inr t \<and> P x t"] by blast
  then have "list_all2 (\<lambda>x t. f x = Inr t) xs ts" and "list_all2 P xs ts"
    by (auto elim: list_all2_mono)
  with that show ?thesis by (simp add: sequence_map_eq_Inr)
qed

lemma encode_list_reads_back:
  assumes "\<forall>x \<in> set xs. \<exists>t. encode_obj rt (d - 1) x = Inr t \<and> reads_back rt (d' - 1) x t"
    and "d \<noteq> 0" and "d' \<noteq> 0" and "xs \<noteq> []"
  shows "\<exists>t. encode_obj rt d (PyList xs) = Inr t \<and> reads_back rt d' (PyList xs) t"
proof -
  from assms(1) obtain ts where "sequence (map (encode_obj rt (d - 1)) xs) = Inr ts"
    and "list_all2 (reads_back rt (d' - 1)) xs ts"
    by (rule sequence_map_reads_back)
  with assms(2-4) reads_back_list [of rt d' xs ts] show ?thesis by simp
qed

lemma encode_dict_reads_back:
  assumes "\<forall>kv \<in> set kvs. \<exists>t. encode_obj rt (d - 1) (snd kv) = Inr t
      \<and> utf8_valid (fst kv) \<and> reads_back rt (d' - 1) (snd kv) t"
    and "d \<noteq> 0" and "d' \<noteq> 0" and "kvs \<noteq> []" and "distinct (map fst kvs)"
  shows "\<exists>t. encode_obj rt d (PyDict kvs) = Inr t \<and> reads_back rt d' (PyDict kvs) t"
proof -
  from assms(1) obtain tvs
    where rb: "list_all2 (\<lambda>kv t. utf8_valid (fst kv) \<and> reads_back rt (d' - 1) (snd kv) t) kvs tvs"
      and enc: "list_all2 (\<lambda>kv t. encode_obj rt (d - 1) (snd kv) = Inr t) kvs tvs"
    by (rule sequence_map_reads_back [where f = "\<lambda>kv. encode_obj rt (d - 1) (snd kv)"])
  from sequence_items [OF enc, of "\<lambda>k t. encode_basestring_ascii k @ '': '' @ t"]
  have "encode_obj rt d (PyDict kvs) = Inr (''{'' @ join '', '' (map2 item_text kvs tvs) @ ''}'')"
    using assms(2,4) by simp
  with assms(3-5) reads_back_dict [OF rb] show ?thesis by simp
qed

lemma encode_obj_reads_back:
  assumes "plain rt v" and "nests_within d v" and "nests_within d' v"
  shows "\<exists>t. encode_obj rt d v = Inr t \<and> reads_back rt d' v t"
  using assms
proof (induction rt d v arbitrary: d' rule: encode_obj.induct)
  case (2 rt d b)
  then show ?case by (cases b) (simp_all add: reads_back_constants)
next
  case (5 rt d f)
  then show ?case
    by (cases f) (simp_all add: floatstr_def reads_back_constants reads_back_float)
next
  case (6 rt d xs)
  show ?case
  proof (cases "xs = []")
    case False
    from "6.prems" have d: "d \<noteq> 0" "d' \<noteq> 0" by simp_all
    with "6.prems" "6.IH" [OF d(1) False]
    have "\<forall>x \<in> set xs. \<exists>t. encode_obj rt (d - 1) x = Inr t \<and> reads_back rt (d' - 1) x t"
      by simp
    then show ?thesis using d False by (rule encode_list_reads_back)
  qed (use "6.prems" in \<open>simp add: reads_back_empty\<close>)
next
  case (7 rt d kvs)
  show ?case
  proof (cases "kvs = []")
    case False
    from "7.prems" have d: "d \<noteq> 0" "d' \<noteq> 0" and keys: "distinct (map fst kvs)" by simp_all
    have "\<exists>t. encode_obj rt (d - 1) (snd kv) = Inr t
        \<and> utf8_valid (fst kv) \<and> reads_back rt (d' - 1) (snd kv) t" if "kv \<in> set kvs" for kv
      using that "7.prems" "7.IH" [OF d(1) False that prod.collapse, of "d' - 1"]
      by (simp add: d)
    then show ?thesis using d False keys by (intro encode_dict_reads_back) simp_all
  qed (use "7.prems" in \<open>simp add: reads_back_empty\<close>)
qed (simp_all add: reads_back_constants reads_back_str reads_back_int int_str_def)

section \<open>What the decoder returns\<close>

lemma nests_within_mono: "nests_within d v \<Longrightarrow> d \<le> d' \<Longrightarrow> nests_within d' v"
  by (induction d v arbitrary: d' rule: nests_within.induct) (auto simp: diff_le_mono)

lemma shaped_scalars:
  "scanstring s = Inr (x, r) \<Longrightarrow> shaped d (PyStr x)"
  "scan_constant rt s = Inr (v, r) \<Longrightarrow> shaped d v"
  by (auto simp: shaped_def scan_constant_def scan_number_def r_bind_def
      split: if_splits option.splits sum.splits)

lemma set_update: "(a, b) \<in> set (AList.update k v al) \<Longrightarrow> b = v \<or> (a, b) \<in> set al"
  by (induction al) (auto split: if_splits)

lemma shaped_update:
  assumes "shaped (Suc d) (PyDict kvs)" and "shaped d v"
  shows "shaped (Suc d) (PyDict (AList.update k v kvs))"
  using assms by (auto simp: shaped_def distinct_update dest!: set_update)

lemma shaped_append:
  assumes "shaped (Suc d) (PyList xs)" and "shaped d v"
  shows "shaped (Suc d) (PyList (xs @ [v]))"
  using assms by (auto simp: shaped_def)

lemma scan_once_shaped:
  "scan_once rt d s = Inr (v, r) \<Longrightarrow> shaped d v"
  "parse_array rt d xs s = Inr (v, r) \<Longrightarrow> shaped (Suc d) (PyList xs) \<Longrightarrow> shaped (Suc d) v"
  "parse_object rt d kvs s = Inr (v, r) \<Longrightarrow> shaped (Suc d) (PyDict kvs) \<Longrightarrow> shaped (Suc d) v"
proof (induct rt d s and rt d xs s and rt d kvs s arbitrary: v r and v r and v r
    rule: scan_once_parse_array_parse_object.induct)
  case (1 rt d s)
  note run = "1.prems" [unfolded scan_once.simps [of rt d s]]
  then obtain c cs where s: "s = c # cs" by (cases s) simp_all
  have empty: "shaped (Suc (d - 1)) (PyList [])" "shaped (Suc (d - 1)) (PyDict [])"
    by (simp_all add: shaped_def)
  consider (str) "c = dquote" | (obj) "c \<noteq> dquote" "c = CHR ''{''"
    | (arr) "c \<noteq> dquote" "c \<noteq> CHR ''{''" "c = CHR ''[''"
    | (const) "c \<noteq> dquote" "c \<noteq> CHR ''{''" "c \<noteq> CHR ''[''" by blast
  then show ?case
  proof cases
    case str
    with run s show ?thesis by (auto simp: r_bind_def split: sum.splits dest: shaped_scalars(1))
  next
    case obj
    with run s empty "1.hyps"(1) [OF s obj, of v r] show ?thesis by (auto split: if_splits)
  next
    case arr
    with run s empty "1.hyps"(2) [OF s arr, of v r] show ?thesis by (auto split: if_splits)
  qed (use run s in \<open>auto dest: shaped_scalars(2)\<close>)
next
  case (2 rt d xs s)
  note run = "2.prems"(1) [unfolded parse_array.simps [of rt d xs s]]
  then obtain x r1 b r2 where x: "scan_once rt d s = Inr (x, r1)"
    and nx: "next_item (CHR '']'') r1 = Inr (b, r2)"
    by (auto split: sum.splits)
  with run shaped_append [OF "2.prems"(2) "2.hyps"(1) [OF x]]
    "2.hyps"(2) [OF x refl nx refl, of v r]
  show ?case by (auto split: if_splits)
next
  case (3 rt d kvs s)
  note run = "3.prems"(1) [unfolded parse_object.simps [of rt d kvs s]]
  then obtain k r0 x r1 b r2 where k: "object_key s = Inr (k, r0)"
    and x: "scan_once rt d r0 = Inr (x, r1)" and nx: "next_item (CHR ''}'') r1 = Inr (b, r2)"
    by (auto split: sum.splits)
  with run shaped_update [OF "3.prems"(2) "3.hyps"(1) [OF k refl x], of k]
    "3.hyps"(2) [OF k refl x refl nx refl, of v r]
  show ?case by (auto split: if_splits)
qed

section \<open>What the decoder raises\<close>

lemma scan_constant_Inl:
  "scan_constant rt s = Inl e \<Longrightarrow> e = JSONDecodeError \<or> e = ValueError"
  by (auto simp: scan_constant_def scan_number_def r_bind_def dest: int_of_literal_Inl
      split: if_splits option.splits sum.splits)

lemma next_item_Inl: "next_item c s = Inl e \<Longrightarrow> e = JSONDecodeError"
  by (auto simp: next_item_def split: list.splits if_splits)

lemma object_key_Inl: "object_key s = Inl e \<Longrightarrow> e = JSONDecodeError"
  by (auto simp: object_key_def r_bind_def dest: scanstring_Inl
      split: list.splits if_splits sum.splits)

lemma scan_once_Inl:
  "scan_once rt d s = Inl e \<Longrightarrow> e = JSONDecodeError \<or> e = ValueError \<or> e = RecursionError"
  "parse_array rt d xs s = Inl e \<Longrightarrow> e = JSONDecodeError \<or> e = ValueError \<or> e = RecursionError"
  "parse_object rt d kvs s = Inl e \<Longrightarrow> e = JSONDecodeError \<or> e = ValueError \<or> e = RecursionError"
proof (induct rt d s and rt d xs s and rt d kvs s
    rule: scan_once_parse_array_parse_object.induct)
  case (1 rt d s)
  note run = "1.prems" [unfolded scan_once.simps [of rt d s]]
  then show ?case
    using "1.hyps"
    by (auto simp: r_bind_def dest: scanstring_Inl scan_constant_Inl
        split: list.splits if_splits sum.splits)
next
  case (2 rt d xs s)
  note run = "2.prems" [unfolded parse_array.simps [of rt d xs s]]
  then show ?case
    using "2.hyps"
    by (auto dest: next_item_Inl split: sum.splits prod.splits if_splits)
next
  case (3 rt d kvs s)
  note run = "3.prems" [unfolded parse_object.simps [of rt d kvs s]]
  then show ?case
    using "3.hyps"
    by (auto dest: next_item_Inl object_key_Inl split: sum.splits prod.splits if_splits)
qed

lemma json_loads_Inl:
  "json_loads rt s = Inl e \<Longrightarrow> e = JSONDecodeError \<or> e = ValueError \<or> e = RecursionError"
  by (auto simp: json_loads_def r_bind_def dest: scan_once_Inl(1)
      split: if_splits sum.splits prod.splits)

section \<open>When the encoder raises\<close>

lemma sequence_succeeds_iff:
  "(\<exists>ts. sequence (map f xs) = Inr ts) \<longleftrightarrow> (\<forall>x \<in> set xs. \<exists>t. f x = Inr t)"
  by (induction xs) (auto simp: r_bind_def split: sum.splits)

lemma r_bind_Inr_iff: "(\<exists>t. r_bind x (\<lambda>y. Inr (g y)) = Inr t) \<longleftrightarrow> (\<exists>y. x = Inr y)"
  by (cases x) (simp_all add: r_bind_def)

lemma encode_obj_Inr_iff:
  "(\<exists>t. encode_obj rt d v = Inr t) \<longleftrightarrow> nests_within d v \<and> small_ints v"
proof (induction rt d v rule: encode_obj.induct)
  case (6 rt d xs)
  show ?case
  proof (cases "d = 0 \<or> xs = []")
    case False
    with "6.IH" sequence_succeeds_iff [of "encode_obj rt (d - 1)" xs] show ?thesis
      by (simp add: r_bind_Inr_iff) blast
  qed auto
next
  case (7 rt d kvs)
  let ?item = "\<lambda>(k, v). r_bind (encode_obj rt (d - 1) v)
    (\<lambda>t. Inr (encode_basestring_ascii k @ '': '' @ t))"
  show ?case
  proof (cases "d = 0 \<or> kvs = []")
    case False
    have "(\<exists>t. ?item kv = Inr t) \<longleftrightarrow> nests_within (d - 1) (snd kv) \<and> small_ints (snd kv)"
      if "kv \<in> set kvs" for kv
      using "7.IH" [OF _ _ that prod.collapse] False
      by (simp add: case_prod_beta r_bind_Inr_iff)
    with False sequence_succeeds_iff [of ?item kvs] show ?thesis
      by (simp add: r_bind_Inr_iff) blast
  qed auto
qed (simp_all add: int_str_def)

lemma encode_obj_Inl:
  "encode_obj rt d v = Inl e \<Longrightarrow> e = RecursionError \<or> e = ValueError"
proof (induction rt d v rule: encode_obj.induct)
  case (6 rt d xs)
  then show ?case
    by (auto simp: r_bind_def split: if_splits sum.splits dest!: sequence_map_eq_Inl)
next
  case (7 rt d kvs)
  then show ?case
    by (auto simp: r_bind_def split: if_splits sum.splits dest!: sequence_map_eq_Inl)
qed (simp_all add: int_str_def split: if_splits)

section \<open>The codec on whole texts\<close>

lemmas dumps_eval =
  json_dumps_def encode_basestring_ascii_def escape_ascii.simps trail_count_def lead_bits_def
  is_cont_def escape_cp_def in_range_def int_str_def int_repr_def digits.simps max_str_digits_def
  digit_char_def floatstr_def hex4_def hex_char_def high_surrogate_def low_surrogate_def
  char_of_nat_eq

lemmas loads_eval =
  json_loads_def bom_def scan_once.simps parse_array.simps parse_object.simps object_key_def
  next_item_def scan_constant_def scan_number_def match_number_def lex_integer_def lex_frac_def
  lex_exp_def int_of_literal_def nat_of_digits_def digit_of_def is_digit_def in_range_def
  max_str_digits_def scan_u_def unhex4_def hex_val_def short_escape_def utf8_encode_def
  is_high_surrogate_def is_low_surrogate_def join_surrogates_def prepend_def is_ws_def
  char_of_nat_eq Let_def

lemmas plain_eval =
  float_literal_def match_number_def lex_integer_def lex_frac_def lex_exp_def is_digit_def
  in_range_def digits.simps max_str_digits_def Let_def

lemmas demo_defs = demo_runtime_def demo_message_def demo_message_text_def

lemma demo_message_plain:
  "plain demo_runtime demo_message" "nests_within 4 demo_message"
  by (simp_all add: demo_defs plain_eval)

lemma demo_message_dumps: "json_dumps demo_runtime demo_message = Inr demo_message_text"
  by (simp add: demo_defs dumps_eval)

lemma json_loads_text:
  assumes "reads_back rt (loads_depth rt) v t"
  shows "json_loads rt t = Inr v"
proof -
  from assms have t: "t \<noteq> []" "value_start (hd t)"
    and rd: "\<forall>rest. delimited rest \<longrightarrow> scan_once rt (loads_depth rt) (t @ rest) = Inr (v, rest)"
    by (simp_all add: reads_back_def)
  from rd [rule_format, of "[]"] have "scan_once rt (loads_depth rt) t = Inr (v, [])" by simp
  moreover from t have "\<not> prefix bom t"
    by (cases t) (auto simp: bom_def value_start_def is_digit_def in_range_def)
  moreover from t skip_ws_value [of t "[]"] have "skip_ws t = t" by simp
  ultimately show ?thesis by (simp add: json_loads_def)
qed

text \<open>
  Round trip. A value whose strings and keys are well-formed UTF-8, whose dicts have
  distinct keys, whose ints have at most 4300 digits, whose floats are read back from what
  is printed for them, and which nests within the two recursion budgets, is written by
  \<open>json.dumps\<close> and read back by \<open>json.loads\<close> as the same value.
\<close>

lemma json_loads_dumps:
  assumes "plain rt v" and "nests_within (dumps_depth rt) v" and "nests_within (loads_depth rt) v"
  shows "r_bind (json_dumps rt v) (json_loads rt) = Inr v"
  using encode_obj_reads_back [OF assms] by (auto simp: json_dumps_def json_loads_text)

lemma demo_message_round_trip:
  "json_loads demo_runtime demo_message_text = Inr demo_message"
  using json_loads_dumps [of demo_runtime demo_message] demo_message_plain
  by (simp add: demo_message_dumps) (simp add: demo_runtime_def)

text \<open>
  A value returned by \<open>json.loads\<close> has dicts with distinct keys (of a repeated key the last
  value is kept, at the place of the first), and its containers nest no deeper than the
  recursion budget of the decoder.
\<close>

lemma json_loads_shaped:
  assumes "json_loads rt s = Inr v"
  shows "shaped (loads_depth rt) v"
proof -
  from assms obtain r where "scan_once rt (loads_depth rt) (skip_ws s) = Inr (v, r)"
    by (auto simp: json_loads_def r_bind_def split: if_splits sum.splits)
  then show ?thesis by (rule scan_once_shaped(1))
qed

text \<open>
  \<open>json.dumps\<close> raises exactly when the value nests deeper than the recursion budget of the
  encoder or holds an int of more than 4300 digits, and then it raises \<open>RecursionError\<close> or
  \<open>ValueError\<close>.
\<close>

lemma json_dumps_Inr_iff:
  "(\<exists>t. json_dumps rt v = Inr t) \<longleftrightarrow> nests_within (dumps_depth rt) v \<and> small_ints v"
  using encode_obj_Inr_iff [of rt "dumps_depth rt" v] by (simp add: json_dumps_def)

lemma json_dumps_Inl: "json_dumps rt v = Inl e \<Longrightarrow> e = RecursionError \<or> e = ValueError"
  using encode_obj_Inl [of rt "dumps_depth rt" v e] by (simp add: json_dumps_def)

end
