(* ===== verification/Json_Wire.thy ===== *)
theory Json_Wire
  imports Endpoints Json_Codec
begin

text \<open>
  The wire format of \<open>src/mcp-client.py\<close> with the \<open>json\<close> module of CPython in the
  place of the interface \<open>codec\<close>: what \<open>send_request\<close> writes at lines 120 and 121
  (\<open>json.dumps(request) + "\n"\<close>, encoded) and what it makes of the line it reads at
  line 126 (\<open>json.loads(response_line.decode().strip())\<close>). This is the Line-Framed
  Codec of the specification (section 4.2). The theorems: a request is one line of visible
  ASCII, the receiving side reads back what the sending side writes, the values that
  \<open>send_request\<close> returns, and the exceptions it raises. The tables of \<open>Fixtures\<close>, on
  which the theorems of the other theories are applied, agree with \<open>json\<close> on their
  messages.
\<close>

section \<open>The json module as a codec\<close>

text \<open>
  \<open>writable rt v\<close>: \<open>json.dumps\<close> returns on \<open>v\<close> (it nests within the budget of the
  encoder and its ints have at most 4300 digits). \<open>json_codec rt\<close> is the \<open>json\<close> module
  as a \<open>codec\<close>. The \<open>dumps\<close> of a \<open>codec\<close> is total, so \<open>json_codec\<close> is \<open>json\<close>
  on the writable values only, and the theorems on what is written assume a writable
  request; on any other request \<open>json.dumps\<close> raises \<open>RecursionError\<close> or \<open>ValueError\<close>
  (\<open>Json_Codec.json_dumps_Inl\<close>) inside the \<open>try\<close> of \<open>send_request\<close>, before
  anything is written.
\<close>

definition writable :: "runtime \<Rightarrow> py \<Rightarrow> bool" where
  "writable rt v = (nests_within (dumps_depth rt) v \<and> small_ints v)"

definition json_codec :: "runtime \<Rightarrow> codec" where
  "json_codec rt =
     \<lparr>dumps = (\<lambda>v. case json_dumps rt v of Inr t \<Rightarrow> t | Inl e \<Rightarrow> []),
      loads = json_loads rt\<rparr>"

text \<open>One line of visible ASCII with its terminator.\<close>

definition one_line :: "bytes \<Rightarrow> bool" where
  "one_line l = (l \<noteq> [] \<and> last l = newline \<and> butlast l \<noteq> [] \<and> list_all printable (butlast l))"

text \<open>The exceptions of \<open>send_request\<close>.\<close>

definition send_request_errors :: "exn list" where
  "send_request_errors =
     [Exception ''MCP server not connected'', ConnectionResetError, ValueError,
      UnicodeDecodeError, JSONDecodeError, RecursionError]"

section \<open>A request with a line break in an argument, and servers that answer no request\<close>

definition note_call :: ToolCall where
  "note_call = \<lparr>tool_name = ''note'', parameters = [(''text'', PyStr (''a'' @ [newline] @ ''b''))]\<rparr>"

definition note_text :: string where
  \<open>note_text = ''{"jsonrpc": "2.0", "id": 3, "method": "tools/call", "params": {"name": "note", "arguments": {"text": "a'' @ [backslash] @ ''nb"}}}''\<close>

definition twice_server :: server where
  \<open>twice_server = fixed_server \<lparr>emits = ''{"id": 1, "id": [2]}'' @ [newline], exits = False\<rparr> True\<close>

definition hello_server :: server where
  "hello_server = fixed_server \<lparr>emits = ''hello'' @ [newline], exits = False\<rparr> True"

lemmas wire_defs =
  note_call_def note_text_def tools_call_request_def demo_runtime_def writable_def
  twice_server_def hello_server_def fixed_server_def fresh_def started_def

lemmas send_eval =
  send_request_def try_except_def then_do_def lift_result_def on_process_def write_drain_def
  deliver_def readline_def stream_limit_def parse_line_def request_line_def encode_def
  decode_def strip_def lstrip_def rstrip_def lstrip_by.simps py_whitespace_def in_range_def
  json_codec_def Let_def

section \<open>Lemmas\<close>

lemma writable_dumps: "writable rt v \<longleftrightarrow> (\<exists>t. json_dumps rt v = Inr t)"
  by (simp add: writable_def json_dumps_Inr_iff)

lemma json_codec_dumps [simp]: "json_dumps rt v = Inr t \<Longrightarrow> dumps (json_codec rt) v = t"
  by (simp add: json_codec_def)

lemma json_codec_loads [simp]: "loads (json_codec rt) = json_loads rt"
  by (simp add: json_codec_def)

lemma request_line_json:
  "json_dumps rt v = Inr t \<Longrightarrow> request_line (json_codec rt) v = t @ [newline]"
  by (simp add: request_line_def encode_def)

lemma plain_float_texts: "plain rt v \<Longrightarrow> float_texts rt v"
  by (induction rt v rule: plain.induct) auto

lemma printable_ascii: "list_all printable t \<Longrightarrow> \<forall>c \<in> set t. (of_char c :: nat) < 128"
  by (auto simp: list_all_iff printable_def in_range_def)

text \<open>In one line the newline is the last byte and no other.\<close>

lemma one_line_newline: "one_line l \<Longrightarrow> newline \<notin> set (butlast l) \<and> last l = newline"
  by (auto simp: one_line_def list_all_iff printable_def in_range_def)

lemma printable_visible:
  assumes "printable c" and "c \<noteq> CHR '' ''"
  shows "in_range 0x21 0x7E c"
proof -
  from assms(2) have "(of_char c :: nat) \<noteq> of_char (CHR '' '')"
    by (simp only: of_char_eq_iff not_False_eq_True)
  with assms(1) show ?thesis by (simp add: printable_def in_range_def)
qed

text \<open>A line of visible ASCII that starts and ends with a character other than the space
  is parsed as its text.\<close>

lemma parse_line_text:
  assumes "list_all printable t" and "t \<noteq> []" and "hd t \<noteq> CHR '' ''" and "last t \<noteq> CHR '' ''"
  shows "parse_line (json_codec rt) (t @ [newline]) = json_loads rt t"
proof -
  from assms(1) have "\<forall>c \<in> set (t @ [newline]). (of_char c :: nat) < 128"
    by (auto dest: printable_ascii)
  then have "decode (t @ [newline]) = Inr (t @ [newline])" by (rule decode_ascii)
  moreover from assms have "in_range 0x21 0x7E (hd t)" "in_range 0x21 0x7E (last t)"
    by (auto simp: list_all_iff intro!: printable_visible)
  with assms(2) have "strip (t @ [newline]) = t" by (rule strip_line)
  ultimately show ?thesis by (simp add: parse_line_def)
qed

lemma json_dumps_text:
  assumes "float_texts rt v" and "json_dumps rt v = Inr t"
  shows "list_all printable t" and "t \<noteq> []" and "hd t \<noteq> CHR '' ''" and "last t \<noteq> CHR '' ''"
  using assms encode_obj_printable [of rt v "dumps_depth rt" t]
    encode_obj_ends [of rt v "dumps_depth rt" t]
  by (auto simp: json_dumps_def value_start_def is_digit_def in_range_def)


lemma send_request_Raises_cases:
  assumes "fst (send_request cd request self) = Raises e"
  shows "e = Exception ''MCP server not connected'' \<or> e = ConnectionResetError
     \<or> e = ValueError \<or> (\<exists>l. parse_line cd l = Inl e)"
  using assms
  by (auto simp: send_request_def try_except_def then_do_def lift_result_def on_process_def
      write_drain_def readline_def Let_def
      split: if_splits prod.splits outcome.splits sum.splits option.splits)

lemma parse_line_json_Inl:
  assumes "parse_line (json_codec rt) l = Inl e"
  shows "e = UnicodeDecodeError \<or> e = JSONDecodeError \<or> e = ValueError \<or> e = RecursionError"
  using assms
  by (auto simp: parse_line_def r_bind_def decode_eq_Inl dest: json_loads_Inl split: sum.splits)


lemma note_call_dumps:
  "json_dumps demo_runtime (tools_call_request note_call) = Inr note_text"
  by (simp add: wire_defs dumps_eval)

section \<open>The tables of the fixtures\<close>

text \<open>
  The codecs \<open>demo_codec\<close> and \<open>bridge_codec\<close> are tables of values and texts. The text
  listed for a request is what \<open>json.dumps\<close> writes for it, and the value listed for the
  text of the configuration file and of an answer of a server is what \<open>json.loads\<close> reads
  from it.
\<close>

lemma table_dumps:
  "json_dumps demo_runtime init_request = Inr init_text"
  "json_dumps demo_runtime tools_list_request = Inr tools_list_text"
  "json_dumps demo_runtime (tools_call_request ping_call) = Inr ping_text"
  by (simp_all add: demo_runtime_def init_request_def tools_list_request_def
      tools_call_request_def ping_call_def init_text_def tools_list_text_def ping_text_def
      dumps_eval)

lemma table_loads:
  "json_loads demo_runtime init_reply_text = Inr init_reply"
  "json_loads demo_runtime init_error_text = Inr init_error"
  "json_loads demo_runtime tools_reply_text = Inr tools_reply"
  "json_loads demo_runtime not_found_text = Inr not_found"
  "json_loads demo_runtime config_text = Inr demo_config"
  by (simp_all add: demo_runtime_def init_reply_text_def init_error_text_def
      tools_reply_text_def not_found_text_def config_text_def init_reply_def init_error_def
      tools_reply_def not_found_def demo_config_def loads_eval)

section \<open>The request line\<close>

text \<open>
  C27: Every request that \<open>json.dumps\<close> can write, and whose floats are printed as float
  literals, goes to the child as exactly one line: the bytes \<open>send_request\<close> writes for
  it are visible ASCII characters (0x20 to 0x7E) followed by one newline, whatever the
  strings of the request hold. A line break in a tool argument is written as an escape.
\<close>

theorem request_line_one_line:
  assumes "writable rt request" and "float_texts rt request"
  shows "one_line (request_line (json_codec rt) request)"
proof -
  from assms(1) obtain t where t: "json_dumps rt request = Inr t"
    by (auto simp: writable_dumps)
  from json_dumps_text(1,2) [OF assms(2) t] show ?thesis
    by (simp add: request_line_json [OF t] one_line_def)
qed

theorem request_line_one_line_witness:
  "request_line (json_codec demo_runtime) (tools_call_request note_call) = note_text @ [newline]
   \<and> one_line (request_line (json_codec demo_runtime) (tools_call_request note_call))"
  using request_line_one_line [of demo_runtime "tools_call_request note_call"]
  by (simp add: request_line_json [OF note_call_dumps]) (simp add: wire_defs plain_eval)

text \<open>
  C28: Round trip of the framing. A request whose strings and keys are well-formed UTF-8,
  whose dicts have distinct keys, whose ints have at most 4300 digits, whose floats are read
  back from what is printed for them, and which nests within the recursion budgets of the
  encoder and of the decoder, is read back unchanged by the receiving side of
  \<open>send_request\<close> (decode, strip, \<open>json.loads\<close>) from the line its sending side writes
  (\<open>json.dumps\<close>, newline, encode).
\<close>

theorem parse_line_request_line:
  assumes "plain rt request" and "nests_within (dumps_depth rt) request"
    and "nests_within (loads_depth rt) request"
  shows "parse_line (json_codec rt) (request_line (json_codec rt) request) = Inr request"
proof -
  from encode_obj_reads_back [OF assms] obtain t where t: "json_dumps rt request = Inr t"
    and rd: "reads_back rt (loads_depth rt) request t"
    by (auto simp: json_dumps_def)
  from assms(1) have "float_texts rt request" by (rule plain_float_texts)
  from json_dumps_text [OF this t] json_loads_text [OF rd] show ?thesis
    by (simp add: request_line_json [OF t] parse_line_text)
qed

theorem parse_line_request_line_witness:
  "parse_line (json_codec demo_runtime)
     (request_line (json_codec demo_runtime) (tools_call_request note_call)) =
   Inr (tools_call_request note_call)"
  using parse_line_request_line [of demo_runtime "tools_call_request note_call"]
  by (simp add: wire_defs plain_eval)

section \<open>The response line\<close>



text \<open>
  C30: \<open>send_request\<close> raises nothing but: "MCP server not connected" (no process),
  \<open>ConnectionResetError\<close> (the child has exited before the write), \<open>ValueError\<close> (a line
  over the limit of the reader, or an int of more than 4300 digits in the response),
  \<open>UnicodeDecodeError\<close> (a line that is not UTF-8), \<open>JSONDecodeError\<close> (a line that is not
  JSON) and \<open>RecursionError\<close> (a response that nests deeper than the budget of
  \<open>json.loads\<close>).
\<close>

theorem send_request_raises_only:
  assumes "fst (send_request (json_codec rt) request self) = Raises e"
  shows "e \<in> set send_request_errors"
  using send_request_Raises_cases [OF assms] parse_line_json_Inl [of rt _ e]
  by (auto simp: send_request_errors_def)

theorem send_request_raises_only_witness:
  "fst (send_request (json_codec demo_runtime) init_request (fresh hello_server)) =
     Raises JSONDecodeError
   \<and> JSONDecodeError \<in> set send_request_errors"
  using send_request_raises_only [of demo_runtime init_request "fresh hello_server" JSONDecodeError]
  by (simp add: wire_defs send_eval loads_eval send_request_errors_def)

end
