(* ===== verification/Spec2Isabelle.thy ===== *)
theory Spec2Isabelle
  imports Session Json_Wire
begin

text \<open>
  \<^bold>\<open>The program.\<close> \<open>src/mcp-client.py\<close> is an HTTP bridge to a Model Context Protocol
  server. It reads a configuration file that names a command, starts that command as a child
  process with pipes on its standard streams, sends it the \<open>initialize\<close> request, and then
  turns each HTTP request into one JSON-RPC request written as one line to the child and one
  line read back. Its parts, in the order of the file:

  \<^item> the request and response models \<open>MCPRequest\<close>, \<open>MCPResponse\<close>, \<open>ToolCall\<close>
    (lines 26 to 37);
  \<^item> the configuration source, class \<open>MCPConfig\<close> with \<open>load_config\<close>, and the module-level
    object \<open>mcp_config\<close> (lines 39 to 53);
  \<^item> the session manager, class \<open>MCPClient\<close> with \<open>connect\<close>, \<open>send_request\<close> and
    \<open>disconnect\<close>, and the module-level object \<open>mcp_client\<close> (lines 55 to 142);
  \<^item> the lifecycle hooks \<open>startup_event\<close> and \<open>shutdown_event\<close> (lines 144 to 155);
  \<^item> the route handlers \<open>root\<close>, \<open>list_tools\<close>, \<open>call_tool\<close>, \<open>send_mcp_request\<close>,
    \<open>health_check\<close> (lines 157 to 233).

  The handlers call \<open>mcp_client.send_request\<close>; \<open>send_request\<close> calls \<open>json.dumps\<close>, the
  \<open>asyncio\<close> stream of the child's standard input (\<open>write\<close>, \<open>drain\<close>), the stream of its
  standard output (\<open>readline\<close>), \<open>bytes.decode\<close>, \<open>str.strip\<close> and \<open>json.loads\<close>;
  \<open>connect\<close> reads \<open>mcp_config.config\<close>, calls \<open>asyncio.create_subprocess_exec\<close> and
  \<open>send_request\<close>; \<open>disconnect\<close> calls \<open>terminate\<close> and \<open>wait\<close> of the process.

  \<^bold>\<open>The theories.\<close>

  \<^item> \<open>Bridge_Prelude\<close>: the outcome of running a piece of the program (\<open>Returns\<close>,
    \<open>Raises\<close>, or \<open>Blocks\<close> when an \<open>await\<close> is never resumed), computations over a state
    with sequencing (\<open>then_do\<close>) and \<open>try/except\<close> (\<open>try_except\<close>), their evaluation rules
    and laws, and the list lemmas of the pipe (splitting at the first newline).
  \<^item> \<open>Py_Value\<close>: the JSON-shaped Python values \<open>py\<close>, the exceptions \<open>exn\<close>, and the
    built-in operations the source applies (\<open>truthy\<close> for \<open>not x\<close> and \<open>bool(x)\<close>,
    \<open>dict_get\<close> for \<open>x.get(k, d)\<close>, \<open>contains\<close> for \<open>k in x\<close>, \<open>getitem\<close> for \<open>x[k]\<close>,
    \<open>first_key\<close> for \<open>list(x.keys())[0]\<close>, \<open>list_concat\<close> for \<open>[c] + args\<close>, \<open>encode\<close>,
    \<open>decode\<close>, \<open>strip\<close>), each returning the exception Python raises on an operand of the
    wrong type; the \<open>json\<close> module as the record \<open>codec\<close> of its two functions.
  \<^item> \<open>Json_Text\<close>, \<open>Json_Codec\<close>: \<open>json.dumps\<close> and \<open>json.loads\<close> of CPython with their
    default arguments. \<open>Json_Text\<close> has the digits, the number pattern, UTF-8 code points,
    the string literals of the encoder (\<open>encode_basestring_ascii\<close>, with \<open>ensure_ascii\<close>)
    and the scanner of string literals (\<open>scanstring\<close>); \<open>Json_Codec\<close> has the encoder
    \<open>encode_obj\<close> with \<open>json_dumps\<close>, and the scanner \<open>scan_once\<close> with its loops
    \<open>parse_array\<close> and \<open>parse_object\<close> and \<open>json_loads\<close>. Lemmas: the decoder reads back
    what the encoder writes, the encoder writes visible ASCII, the decoder returns on every
    text (its termination proof), the values it returns and what each of the two raises.
  \<^item> \<open>Transport\<close>: the child process and its pipes. The child is a \<open>server\<close>, a function
    from the chunks received so far to its reaction (bytes printed, exit or not); a
    \<open>Process\<close> holds the server, the chunks written, the bytes printed and not yet read, and
    the exit flag. Operations: \<open>create_subprocess_exec\<close>, \<open>write_drain\<close>, \<open>readline\<close>,
    \<open>terminate\<close>, \<open>wait\<close>. Lemmas: the behaviour of \<open>readline\<close> on every branch (a line,
    a line over the limit, end of stream, blocking), and that a child that has exited
    stays so.
  \<^item> \<open>Fixtures\<close>: codecs given by a table, servers given by what they answer, worlds with
    one program: the concrete inputs of the witnesses.
  \<^item> \<open>Config\<close>: \<open>MCPConfig\<close> as a record, \<open>load_config\<close> with its catch-all handler, the
    file system as the field \<open>files\<close> of a \<open>world\<close>.
  \<^item> \<open>Client\<close>: \<open>MCPClient\<close> as a record (\<open>process\<close>, \<open>connected\<close>), \<open>send_request\<close>,
    \<open>connect\<close> (with \<open>full_command\<close> for lines 64 to 79 and \<open>init_request\<close> for lines 88
    to 103) and \<open>disconnect\<close> as actions on it, every \<open>raise\<close> and every exception of a
    callee being a \<open>Raises\<close> outcome. Lemmas: what \<open>send_request\<close> returns when the child
    answers in step, when an unread line is pending, at end of stream, and when it blocks;
    the handshake of \<open>connect\<close> and what a failed handshake leaves behind; \<open>disconnect\<close> on a
    running, a dead and an already disconnected child; the invariant \<open>client_inv\<close> of all
    reachable states.
  \<^item> \<open>Endpoints\<close>: the models, the two module-level objects as the record \<open>app\<close>, the
    lifecycle hooks and the handlers as actions on \<open>app\<close>; \<open>forward\<close> is the body the three
    forwarding handlers share, \<open>route\<close> the routing table, \<open>serve\<close> a sequence of requests
    and \<open>lifespan\<close> the application from start to stop. Lemmas: no handler raises, the
    response for a result and for an error of the server, the handlers ignore \<open>connected\<close>,
    start-up without a configuration.
  \<^item> \<open>Json_Wire\<close>: the wire format with \<open>json\<close> in the place of the interface:
    \<open>json_codec\<close> is \<open>Json_Codec\<close> as a \<open>codec\<close>. Theorems: a request is written as one
    line of visible ASCII, the receiving side of \<open>send_request\<close> reads back what its
    sending side writes, the values \<open>send_request\<close> returns and the exceptions it raises;
    the tables of \<open>Fixtures\<close> agree with \<open>json\<close> on their messages.
  \<^item> \<open>Session\<close>: what the bridge promises when the child answers every line with one
    line, as an abstract machine (\<open>spec_step\<close>, \<open>spec_run\<close>, inductive) on a \<open>session\<close>:
    the lines sent, the lines pending (printed by the child and not yet read) and the two
    reported flags. A forwarded request appends the server's answer to the pending lines and
    takes the first of them as its response. \<open>queued\<close> and \<open>session_of\<close> relate an
    application to a session. Lemmas: \<open>route\<close>, \<open>serve\<close> and \<open>lifespan\<close> refine the
    machine and never block; with no line pending every request gets the answer to itself;
    with lines pending every request gets an older answer, and the number of pending lines
    never changes; the lines written are the request lines in order.
  \<^item> This theory: the application from start to stop (\<open>lifespan\<close>): the invariant of the
    client at the end of every run, and when a run raises.

  \<^bold>\<open>Bounds and choices.\<close>

  \<^item> Text: a Python \<open>str\<close> is represented by its UTF-8 encoding, so \<open>encode\<close> is the identity
    and \<open>decode\<close> checks well-formedness. \<open>strip\<close> removes the characters of \<open>str.isspace\<close>.
  \<^item> The child reacts atomically: its reaction to a chunk is in the pipe before the next
    operation of the bridge, and the bridge learns of its exit at its next operation. A
    server is any function of the chunks received, so a child that answers late, never, twice,
    or out of order is a server; a child that prints by itself between two requests is not.
  \<^item> \<open>write_drain\<close> never blocks: requests are smaller than the pipe. \<open>readline\<close> has the
    limit of an asyncio stream, \<open>stream_limit\<close> = 65536 bytes, above which it raises
    \<open>ValueError\<close>.
  \<^item> What depends on the interpreter is the parameter \<open>runtime\<close> of \<open>Json_Codec\<close>: the
    nesting depth at which the encoder and the decoder raise \<open>RecursionError\<close> (it depends
    on the stack in use at the call), and the two conversions between floats and their texts,
    which are not modelled. The limit of 4300 digits on the conversion between \<open>int\<close> and
    text is that of CPython 3.11 and later. The \<open>dumps\<close> of a \<open>codec\<close> is total:
    \<open>json_codec\<close> is \<open>json\<close> on the requests that \<open>json.dumps\<close> can write, and the
    theorems of \<open>Json_Wire\<close> on what is written assume such a request. On any other
    request \<open>json.dumps\<close> raises inside the \<open>try\<close> of \<open>send_request\<close> before anything is
    written; that path is in \<open>Json_Codec\<close> (\<open>json_dumps_Inl\<close>) and not in
    \<open>send_request\<close>.
  \<^item> Nothing is bounded by fuel. The scanner of \<open>Json_Codec\<close> is a total function, by its
    termination proof. An operation that waits for the child for ever has the
    outcome \<open>Blocks\<close>, and \<open>Client.send_request_blocks_iff\<close> says when that happens.
  \<^item> \<open>serve\<close>, \<open>lifespan\<close> and \<open>Client.client_run\<close> are not functions of the source:
    they compose its handlers, hooks and methods the way the framework and the callers do,
    so that properties of sequences of calls can be stated. Requests are served one at a time
    (\<open>serve\<close>); \<open>lifespan\<close> is start-up, the requests, shutdown. \<open>Client.client_run\<close>
    continues after an operation that raised or blocked, so \<open>client_inv\<close> covers more states
    than the program reaches.
  \<^item> The field \<open>error\<close> of \<open>MCPResponse\<close> holds the exception itself where the source
    stores its text \<open>str(e)\<close> (line 179): the text of an exception is not modelled.
  \<^item> \<open>exn\<close> has the exceptions that \<open>except Exception\<close> catches. Cancellation of a
    handler (\<open>asyncio.CancelledError\<close>, not an \<open>Exception\<close>) is not modelled.
  \<^item> \<open>terminate\<close> raises \<open>ProcessLookupError\<close> on every child that has exited, which is
    what the event loop does once it has reaped the child; \<open>create_subprocess_exec\<close> fails
    with \<open>TypeError\<close> (an argument that is not a string) or \<open>FileNotFoundError\<close> only.

  \<^bold>\<open>Not modelled.\<close> FastAPI (routing by path, validation of request bodies by pydantic,
  serialisation of responses), the CORS middleware, logging, \<open>uvicorn\<close>, the standard error
  pipe of the child (created and never read). In the theories up to \<open>Session\<close> the \<open>json\<close>
  module is an interface: their theorems hold for every \<open>codec\<close>, and their witnesses use
  tables that agree with \<open>json\<close> on the messages they list (\<open>Json_Wire.table_dumps\<close>,
  \<open>Json_Wire.table_loads\<close>). Of \<open>json\<close>, the arguments other than the defaults, the
  pure-Python fallback and the texts of floats are not modelled. Interleaving of two handlers at an \<open>await\<close> is not modelled;
  the source has no lock, and the session state machine of the specification (Connecting,
  Closed, a pending call with its id) has no counterpart in the source to model.
\<close>

section \<open>A server that exits by itself\<close>

text \<open>
  A server that exits after its first answer; the other servers and worlds of the
  witnesses are those of \<open>Endpoints\<close> and \<open>Session\<close>.
\<close>

definition oneshot_server :: server where
  "oneshot_server = fixed_server \<lparr>emits = init_reply_text @ [newline], exits = True\<rparr> True"

lemmas run_defs =
  scenario_world_def banner_server_def oneshot_server_def fixed_server_def world_of_def
  lifespan_def boot_def MCPConfig_init_def load_config_def default_config_path_def
  bridge_codec_def table_codec_def text_defs startup_event_def try_except_def then_do_def
  in_client_def in_part_def connect_def full_command_def demo_config_def
  create_subprocess_exec_def started_def tool_server_def tool_answers_def line_server_def send_request_def
  on_process_def write_drain_def deliver_def readline_def request_line_def parse_line_def
  encode_def decode_def strip_def lstrip_def rstrip_def lstrip_by.simps py_whitespace_def
  in_range_def request_defs ping_call_def init_reply_def tools_reply_def not_found_def
  MCPClient_init_def stream_limit_def as_json_def as_model_def list_tools_def call_tool_def
  forward_def response_of_def failure_def health_check_def shutdown_event_def disconnect_def
  terminate_def wait_def Let_def

section \<open>Hooks and runs of requests\<close>

lemma route_config [frame_simps, simp]: "mcp_config (snd (route cd rq a)) = mcp_config a"
  by (cases rule: route_cases [of cd rq a]) (auto simp: as_model_def snd_then_do_pure)

lemma route_client_inv:
  "client_inv cd (mcp_client a) \<Longrightarrow> client_inv cd (mcp_client (snd (route cd rq a)))"
  by (cases rule: route_cases [of cd rq a])
    (auto simp: as_model_def snd_then_do_pure forward_client client_inv_send_request)

lemma serve_Cons:
  "serve cd (rq # rqs) a =
     (case route cd rq a of
        (Returns r, a') \<Rightarrow>
          (case serve cd rqs a' of
             (Returns rs, a'') \<Rightarrow> (Returns (r # rs), a'')
           | (Raises e, a'') \<Rightarrow> (Raises e, a'')
           | (Blocks, a'') \<Rightarrow> (Blocks, a''))
      | (Raises e, a') \<Rightarrow> (Raises e, a')
      | (Blocks, a') \<Rightarrow> (Blocks, a'))"
  by (simp add: then_do_def split: prod.splits outcome.splits)

lemma serve_client_inv:
  "client_inv cd (mcp_client a) \<Longrightarrow> client_inv cd (mcp_client (snd (serve cd rqs a)))"
proof (induction rqs arbitrary: a)
  case Nil
  then show ?case by simp
next
  case (Cons rq rqs)
  from Cons.prems have "client_inv cd (mcp_client (snd (route cd rq a)))"
    by (rule route_client_inv)
  then show ?case
    using Cons.IH [of "snd (route cd rq a)"]
    by (auto simp: serve_Cons simp del: serve.simps split: prod.splits outcome.splits)
qed

lemma serve_outcome: "fst (serve cd rqs a) \<noteq> Raises e"
proof (induction rqs arbitrary: a)
  case Nil
  then show ?case by simp
next
  case (Cons rq rqs)
  show ?case
    using Cons.IH [of "snd (route cd rq a)"] route_outcome [of cd rq a e]
    by (auto simp: serve_Cons simp del: serve.simps split: prod.splits outcome.splits)
qed

lemma startup_event_outcome: "fst (startup_event cd w a) \<noteq> Raises e"
  by (simp add: startup_event_unfold split: prod.splits outcome.splits)

lemma startup_event_client_inv:
  "client_inv cd (mcp_client a) \<Longrightarrow> client_inv cd (mcp_client (snd (startup_event cd w a)))"
  using client_inv_connect [of cd "mcp_client a" w "config (mcp_config a)"]
  by (auto simp: startup_event_unfold split: prod.splits outcome.splits)

lemma shutdown_event_client_inv:
  "client_inv cd (mcp_client a) \<Longrightarrow> client_inv cd (mcp_client (snd (shutdown_event a)))"
  by (simp add: shutdown_event_def in_client_eq client_inv_disconnect)

lemma shutdown_event_Raises:
  "fst (shutdown_event a) = Raises e \<longleftrightarrow>
     e = ProcessLookupError \<and> (\<exists>p. process (mcp_client a) = Some p \<and> exited p)"
  by (auto simp: shutdown_event_def in_client_eq disconnect_unfold split: option.splits)

lemma boot_client_inv: "client_inv cd (mcp_client (boot cd w))"
  by (simp add: boot_def client_inv_init)

section \<open>The application from start to stop\<close>

text \<open>
  C13: The wire discipline holds at the end of every run of the application, whatever
  requests were served and however they ended: a client without a process is not
  \<open>connected\<close>, and the first line its child ever received is the \<open>initialize\<close> request.
\<close>

theorem lifespan_inv: "client_inv cd (mcp_client (snd (lifespan cd w rqs)))"
  unfolding lifespan_def
  by (intro then_do_invariant [where P = "\<lambda>a. client_inv cd (mcp_client a)"])
    (simp_all add: startup_event_client_inv boot_client_inv serve_client_inv
      shutdown_event_client_inv)

theorem lifespan_inv_witness:
  "client_inv bridge_codec (mcp_client (snd (lifespan bridge_codec scenario_world [GET_tools])))
   \<and> process (mcp_client (snd (lifespan bridge_codec scenario_world [GET_tools]))) =
       Some \<lparr>server = tool_server,
             stdin_log = [init_text @ [newline], tools_list_text @ [newline]],
             stdout_buf = [], exited = True\<rparr>"
  using lifespan_inv [of bridge_codec scenario_world "[GET_tools]"]
  by (simp add: run_defs)

text \<open>
  C14: The application raises only when it stops, and only \<open>ProcessLookupError\<close>: start-up
  swallows every exception of \<open>connect\<close>, no handler raises, and \<open>shutdown_event\<close> raises
  exactly when the child has already exited by itself. So a run of the application raises
  \<open>e\<close> exactly when \<open>e\<close> is \<open>ProcessLookupError\<close>, start-up and all requests
  returned, and the client then holds a process that has exited.
\<close>

theorem lifespan_raises_only_at_shutdown:
  "fst (lifespan cd w rqs) = Raises e \<longleftrightarrow>
     e = ProcessLookupError \<and>
     (\<exists>rs a p. then_do (startup_event cd w) (\<lambda>_. serve cd rqs) (boot cd w) = (Returns rs, a)
        \<and> process (mcp_client a) = Some p \<and> exited p)"
proof -
  obtain o1 a1 where start: "startup_event cd w (boot cd w) = (o1, a1)"
    by (cases "startup_event cd w (boot cd w)")
  obtain o2 a2 where run: "serve cd rqs a1 = (o2, a2)"
    by (cases "serve cd rqs a1")
  from start startup_event_outcome [of cd w "boot cd w"] have o1: "o1 \<noteq> Raises e" for e
    by simp
  from run serve_outcome [of cd rqs a1] have o2: "o2 \<noteq> Raises e" for e
    by simp
  show ?thesis
    using start run o1 o2 shutdown_event_Raises [of a2 e]
    by (cases o1; cases o2) (auto simp: lifespan_def then_do_def split: prod.splits outcome.splits)
qed

theorem lifespan_raises_only_at_shutdown_witness:
  "fst (lifespan bridge_codec (world_of oneshot_server) []) = Raises ProcessLookupError"
  using lifespan_raises_only_at_shutdown [of bridge_codec "world_of oneshot_server" "[]"
      ProcessLookupError]
  by (simp add: run_defs)

end
